(* ===== verification/Prelude.thy ===== *)
theory Prelude
  imports Complex_Main "HOL-Library.Word"
begin

text \<open>
  What every component of the relay shares: Python's exceptions as values, the result of a
  computation that may raise, instants of time, and the operations on Python text that the
  sources use. Text is a \<^typ>\<open>string\<close>: a Python \<open>str\<close> whose code points are all below 256
  (what an HTTP header or an ASCII payload can hold), one \<^typ>\<open>char\<close> per code point.
\<close>

named_theorems relay_defs "how the request handlers wrap their work, unfolded by the component proofs"

section \<open>Exceptions and results\<close>

text \<open>
  One constructor per exception class the sources raise or catch.  A fault of a service that
  the sources only catch as \<open>Exception\<close> is \<open>OtherError\<close> with its class name and message.
\<close>

datatype exc =
    HTTPException nat string
  | RuntimeError string
  | ValueError string
  | KeyError string
  | TypeError string
  | AssertionError
  | OverflowError
  | JSONDecodeError
  | UnicodeDecodeError
  | IntegrityError
  | JMESPathError string
  | OtherError string string

type_synonym 'a res = "exc + 'a"

fun exc_name :: "exc \<Rightarrow> string" where
  "exc_name (HTTPException c d) = ''HTTPException''"
| "exc_name (RuntimeError m) = ''RuntimeError''"
| "exc_name (ValueError m) = ''ValueError''"
| "exc_name (KeyError m) = ''KeyError''"
| "exc_name (TypeError m) = ''TypeError''"
| "exc_name AssertionError = ''AssertionError''"
| "exc_name OverflowError = ''OverflowError''"
| "exc_name JSONDecodeError = ''JSONDecodeError''"
| "exc_name UnicodeDecodeError = ''UnicodeDecodeError''"
| "exc_name IntegrityError = ''IntegrityError''"
| "exc_name (JMESPathError m) = ''JMESPathError''"
| "exc_name (OtherError n m) = n"

fun exc_msg :: "exc \<Rightarrow> string" where
  "exc_msg (HTTPException c d) = d"
| "exc_msg (RuntimeError m) = m"
| "exc_msg (ValueError m) = m"
| "exc_msg (KeyError m) = m"
| "exc_msg (TypeError m) = m"
| "exc_msg (JMESPathError m) = m"
| "exc_msg (OtherError n m) = m"
| "exc_msg _ = []"

text \<open>The subclasses of \<open>ValueError\<close> among the exceptions above.\<close>

fun is_value_error :: "exc \<Rightarrow> bool" where
  "is_value_error (ValueError m) = True"
| "is_value_error JSONDecodeError = True"
| "is_value_error UnicodeDecodeError = True"
| "is_value_error _ = False"

definition bind_res :: "'a res \<Rightarrow> ('a \<Rightarrow> 'b res) \<Rightarrow> 'b res" where
  "bind_res m f = (case m of Inl e \<Rightarrow> Inl e | Inr x \<Rightarrow> f x)"

lemma bind_res_simps [simp]:
  "bind_res (Inl e) f = Inl e"
  "bind_res (Inr x) f = f x"
  by (simp_all add: bind_res_def)

lemma bind_res_eq_Inr: "bind_res m f = Inr y \<longleftrightarrow> (\<exists>x. m = Inr x \<and> f x = Inr y)"
  by (cases m) auto

lemma bind_res_assoc: "bind_res (bind_res m f) g = bind_res m (\<lambda>x. bind_res (f x) g)"
  by (cases m) auto

section \<open>Time\<close>

text \<open>
  \<open>time.time()\<close> and \<open>datetime.now\<close>: seconds since the epoch, as exact rationals.  The
  rounding of the \<open>float\<close> that Python returns is not modelled.
\<close>

type_synonym time = rat

section \<open>Python text\<close>

definition ch :: "char \<Rightarrow> nat" where
  "ch c = of_char c"

definition is_ascii :: "string \<Rightarrow> bool" where
  "is_ascii s = list_all (\<lambda>c. ch c < 128) s"

text \<open>\<open>str.lower\<close>, \<open>str.isspace\<close> and \<open>str.isdigit\<close> on one code point below 256.\<close>

definition lower_char :: "char \<Rightarrow> char" where
  "lower_char c =
     (if 65 \<le> ch c \<and> ch c \<le> 90 \<or> 192 \<le> ch c \<and> ch c \<le> 222 \<and> ch c \<noteq> 215
      then char_of (ch c + 32) else c)"

definition py_lower :: "string \<Rightarrow> string" where
  "py_lower s = map lower_char s"

definition is_space :: "char \<Rightarrow> bool" where
  "is_space c = (9 \<le> ch c \<and> ch c \<le> 13 \<or> 28 \<le> ch c \<and> ch c \<le> 32 \<or> ch c = 133 \<or> ch c = 160)"

definition is_digit :: "char \<Rightarrow> bool" where
  "is_digit c = (48 \<le> ch c \<and> ch c \<le> 57)"

definition digit_val :: "char \<Rightarrow> nat" where
  "digit_val c = ch c - 48"

definition py_lstrip :: "(char \<Rightarrow> bool) \<Rightarrow> string \<Rightarrow> string" where
  "py_lstrip p s = dropWhile p s"

definition py_rstrip :: "(char \<Rightarrow> bool) \<Rightarrow> string \<Rightarrow> string" where
  "py_rstrip p s = rev (dropWhile p (rev s))"

definition py_strip :: "(char \<Rightarrow> bool) \<Rightarrow> string \<Rightarrow> string" where
  "py_strip p s = py_rstrip p (py_lstrip p s)"

definition starts_with :: "string \<Rightarrow> string \<Rightarrow> bool" where
  "starts_with s p = (take (length p) s = p)"

definition remove_char :: "char \<Rightarrow> string \<Rightarrow> string" where
  "remove_char c s = filter (\<lambda>x. x \<noteq> c) s"

definition replace_char :: "char \<Rightarrow> char \<Rightarrow> string \<Rightarrow> string" where
  "replace_char a b s = map (\<lambda>x. if x = a then b else x) s"

text \<open>\<open>s.replace(pat, "")\<close> for a pattern of one or more characters.\<close>

function remove_sub :: "string \<Rightarrow> string \<Rightarrow> string" where
  "remove_sub pat [] = []"
| "remove_sub pat (c # s) =
     (if pat \<noteq> [] \<and> starts_with (c # s) pat
      then remove_sub pat (drop (length pat) (c # s)) else c # remove_sub pat s)"
  by pat_completeness auto
termination
  by (relation "measure (\<lambda>(pat, s). length s)") auto

text \<open>\<open>s.split(c)\<close>, \<open>s.partition(c)\<close> and \<open>s.rpartition(c)\<close> for a one-character separator.\<close>

fun py_split :: "char \<Rightarrow> string \<Rightarrow> string list" where
  "py_split c [] = [[]]"
| "py_split c (x # xs) =
     (if x = c then [] # py_split c xs
      else (case py_split c xs of [] \<Rightarrow> [[x]] | w # ws \<Rightarrow> (x # w) # ws))"

definition py_partition :: "char \<Rightarrow> string \<Rightarrow> string \<times> bool \<times> string" where
  "py_partition c s =
     (if c \<in> set s then (takeWhile (\<lambda>x. x \<noteq> c) s, True, tl (dropWhile (\<lambda>x. x \<noteq> c) s))
      else (s, False, []))"

definition py_rpartition :: "char \<Rightarrow> string \<Rightarrow> string \<times> bool \<times> string" where
  "py_rpartition c s =
     (if c \<in> set s
      then (rev (tl (dropWhile (\<lambda>x. x \<noteq> c) (rev s))), True, rev (takeWhile (\<lambda>x. x \<noteq> c) (rev s)))
      else ([], False, s))"

text \<open>\<open>str(n)\<close> for an \<open>int\<close>.\<close>

definition digit_char :: "nat \<Rightarrow> char" where
  "digit_char d = char_of (48 + d)"

fun show_nat :: "nat \<Rightarrow> string" where
  "show_nat n = (if n < 10 then [digit_char n] else show_nat (n div 10) @ [digit_char (n mod 10)])"

declare show_nat.simps [simp del]

definition show_int :: "int \<Rightarrow> string" where
  "show_int i = (if i < 0 then CHR ''-'' # show_nat (nat (- i)) else show_nat (nat i))"

text \<open>\<open>int(s)\<close> of decimal digits, and the value of a hexadecimal one.\<close>

definition int_of_digits :: "string \<Rightarrow> nat" where
  "int_of_digits s = fold (\<lambda>c n. 10 * n + digit_val c) s 0"

definition hex_digit :: "char \<Rightarrow> nat option" where
  "hex_digit c =
     (if is_digit c then Some (digit_val c)
      else if 97 \<le> ch c \<and> ch c \<le> 102 then Some (ch c - 87)
      else if 65 \<le> ch c \<and> ch c \<le> 70 then Some (ch c - 55) else None)"

section \<open>Facts on text\<close>

lemma ch_Char [simp]:
  "ch (Char b0 b1 b2 b3 b4 b5 b6 b7) = horner_sum of_bool 2 [b0, b1, b2, b3, b4, b5, b6, b7]"
  by (simp add: ch_def)

lemma ch_inject: "ch c = ch d \<longleftrightarrow> c = d"
  by (simp add: ch_def)

lemma ch_bound [simp]: "ch c < 256"
  by (simp add: ch_def)

lemma ch_char_of [simp]: "n < 256 \<Longrightarrow> ch (char_of n) = n"
  by (simp add: ch_def)

lemma py_lower_length [simp]: "length (py_lower s) = length s"
  by (simp add: py_lower_def)

lemma py_lower_append [simp]: "py_lower (a @ b) = py_lower a @ py_lower b"
  by (simp add: py_lower_def)

lemma lower_char_idem [simp]: "lower_char (lower_char c) = lower_char c"
  using ch_bound [of c] by (auto simp: lower_char_def)

lemma py_lower_idem [simp]: "py_lower (py_lower s) = py_lower s"
  by (simp add: py_lower_def)

lemma starts_with_append [simp]: "starts_with (p @ s) p"
  by (simp add: starts_with_def)

lemma starts_with_iff: "starts_with s p \<longleftrightarrow> (\<exists>r. s = p @ r)"
  by (metis append_eq_conv_conj append_take_drop_id starts_with_def)

lemma remove_sub_absent: "pat \<noteq> [] \<Longrightarrow> hd pat \<notin> set s \<Longrightarrow> remove_sub pat s = s"
  by (induction s) (auto simp: starts_with_def take_Cons' neq_Nil_conv)

lemma dropWhile_absent: "\<forall>c \<in> set s. \<not> p c \<Longrightarrow> dropWhile p s = s"
  by (cases s) auto

lemma py_strip_absent: "\<forall>c \<in> set s. \<not> p c \<Longrightarrow> py_strip p s = s"
  by (simp add: py_strip_def py_lstrip_def py_rstrip_def dropWhile_absent)

lemma py_rstrip_last: "s \<noteq> [] \<Longrightarrow> \<not> p (last s) \<Longrightarrow> py_rstrip p s = s"
  by (cases s rule: rev_cases) (simp_all add: py_rstrip_def)

lemma set_py_strip: "set (py_strip p s) \<subseteq> set s"
  by (auto simp: py_strip_def py_lstrip_def py_rstrip_def dest!: set_dropWhileD)

lemma remove_char_absent: "c \<notin> set (remove_char c s)"
  by (simp add: remove_char_def)

lemma py_split_nonempty [simp]: "py_split c s \<noteq> []"
  by (cases s) (auto split: list.splits)

lemma py_split_absent: "c \<notin> set s \<Longrightarrow> py_split c s = [s]"
  by (induction s) auto

lemma py_split_sep: "w \<in> set (py_split c s) \<Longrightarrow> c \<notin> set w"
proof (induction s arbitrary: w)
  case Nil
  then show ?case by simp
next
  case (Cons x xs)
  then show ?case
    by (cases "py_split c xs") (auto split: if_splits)
qed

section \<open>Decimal digits\<close>

lemma digit_char_facts: "d < 10 \<Longrightarrow> is_digit (digit_char d) \<and> digit_val (digit_char d) = d"
  by (simp add: digit_char_def is_digit_def digit_val_def)

lemma show_nat_digits: "list_all is_digit (show_nat n)"
proof (induction n rule: show_nat.induct)
  case (1 n)
  then show ?case
    by (subst show_nat.simps) (simp add: digit_char_facts)
qed

lemma int_of_digits_snoc: "int_of_digits (s @ [c]) = 10 * int_of_digits s + digit_val c"
  by (simp add: int_of_digits_def)

lemma int_of_show_nat: "int_of_digits (show_nat n) = n"
proof (induction n rule: show_nat.induct)
  case (1 n)
  show ?case
  proof (cases "n < 10")
    case True
    then show ?thesis
      by (subst show_nat.simps) (simp add: int_of_digits_def digit_char_facts)
  next
    case False
    with 1 show ?thesis
      by (subst show_nat.simps) (simp add: int_of_digits_snoc digit_char_facts)
  qed
qed

lemma show_nat_nonempty: "show_nat n \<noteq> []"
  by (subst show_nat.simps) simp

lemma show_nat_head: "0 < n \<Longrightarrow> hd (show_nat n) \<noteq> CHR ''0''"
proof (induction n rule: show_nat.induct)
  case (1 n)
  show ?case
  proof (cases "n < 10")
    case True
    with 1(2) have "ch (digit_char n) \<noteq> 48" by (simp add: digit_char_def)
    then have "digit_char n \<noteq> CHR ''0''" by auto
    with True show ?thesis by (subst show_nat.simps) simp
  next
    case False
    then have "hd (show_nat (n div 10)) \<noteq> CHR ''0''" using 1 by simp
    with False show ?thesis
      by (subst show_nat.simps) (simp add: hd_append show_nat_nonempty)
  qed
qed

lemma show_nat_no: "\<not> is_digit x \<Longrightarrow> x \<notin> set (show_nat n)"
  using show_nat_digits [of n] by (auto simp: list_all_iff)

section \<open>Facts on lists\<close>

lemma take_drop_join: "take k (drop m xs) @ drop (k + m) xs = drop m xs"
  by (metis append_take_drop_id drop_drop)

lemma filter_filter_conj: "filter P (filter Q xs) = filter (\<lambda>x. Q x \<and> P x) xs"
  by (induction xs) auto

lemma length_filter_mono:
  "(\<And>x. x \<in> set xs \<Longrightarrow> P x \<Longrightarrow> Q x) \<Longrightarrow> length (filter P xs) \<le> length (filter Q xs)"
  by (induction xs) (auto simp: le_Suc_eq)

end
