(* ===== verification/Redis_Store.thy ===== *)
theory Redis_Store
  imports Prelude
begin

text \<open>
  The Redis client of \<open>app/core/redis.py\<close> and the commands the program sends.  The server is
  not part of the sources: its commands are an argument of every definition that uses them (the
  record \<open>redis_ops\<close>), and what the code relies on is the locale \<open>redis_store\<close>, the
  documented effect of each command on the keys alive at the instant it runs.  The reference
  store at the end implements the commands over a map and interprets the locale; it also
  gives concrete stores for closed examples.
\<close>

section \<open>Commands\<close>

text \<open>
  A stored value: a text, the decimal text of a number (Python's \<open>str(x)\<close>, which \<open>float\<close>
  reads back exactly), or a sorted set of members with scores.
\<close>

datatype rvalue = RStr string | RNum rat | RZset "(string \<times> rat) list"

type_synonym rentry = "rvalue \<times> time option"

fun scalar :: "rvalue \<Rightarrow> bool" where
  "scalar (RZset z) = False"
| "scalar v = True"

record 's redis_ops =
  op_get :: "time \<Rightarrow> string \<Rightarrow> 's \<Rightarrow> rvalue option"
  op_set :: "time \<Rightarrow> string \<Rightarrow> rvalue \<Rightarrow> 's \<Rightarrow> 's"
  op_set_ex :: "time \<Rightarrow> string \<Rightarrow> rvalue \<Rightarrow> int \<Rightarrow> 's \<Rightarrow> 's"
  op_set_nx_ex :: "time \<Rightarrow> string \<Rightarrow> rvalue \<Rightarrow> int \<Rightarrow> 's \<Rightarrow> bool \<times> 's"
  op_setnx :: "time \<Rightarrow> string \<Rightarrow> rvalue \<Rightarrow> 's \<Rightarrow> bool \<times> 's"
  op_delete :: "time \<Rightarrow> string list \<Rightarrow> 's \<Rightarrow> 's"
  op_exists :: "time \<Rightarrow> string \<Rightarrow> 's \<Rightarrow> bool"
  op_incr :: "time \<Rightarrow> string \<Rightarrow> 's \<Rightarrow> int \<times> 's"
  op_expire :: "time \<Rightarrow> string \<Rightarrow> int \<Rightarrow> 's \<Rightarrow> 's"
  op_zremrangebyscore :: "time \<Rightarrow> string \<Rightarrow> rat \<Rightarrow> rat \<Rightarrow> 's \<Rightarrow> 's"
  op_zcard :: "time \<Rightarrow> string \<Rightarrow> 's \<Rightarrow> int"
  op_zadd :: "time \<Rightarrow> string \<Rightarrow> string \<Rightarrow> rat \<Rightarrow> 's \<Rightarrow> 's"

text \<open>\<open>ZADD\<close> of one member: a new member, or a new score for a member that is there.\<close>

definition zset_put :: "string \<Rightarrow> rat \<Rightarrow> (string \<times> rat) list \<Rightarrow> (string \<times> rat) list" where
  "zset_put m sc z = filter (\<lambda>p. fst p \<noteq> m) z @ [(m, sc)]"

definition zset_drop :: "rat \<Rightarrow> rat \<Rightarrow> (string \<times> rat) list \<Rightarrow> (string \<times> rat) list" where
  "zset_drop lo hi z = filter (\<lambda>p. \<not> (lo \<le> snd p \<and> snd p \<le> hi)) z"

text \<open>
  The client handle: \<open>None\<close> until \<open>init_redis\<close> has run and again after \<open>close_redis\<close>.
  Closing swallows a \<open>RuntimeError\<close>; any other exception leaves the handle in place.
\<close>

definition init_redis :: "'s \<Rightarrow> 's option \<Rightarrow> 's option" where
  "init_redis client old = Some client"

definition close_redis :: "exc option \<Rightarrow> 's option \<Rightarrow> unit res \<times> 's option" where
  "close_redis fault client =
     (case client of
        None \<Rightarrow> (Inr (), None)
      | Some c \<Rightarrow>
          (case fault of
             None \<Rightarrow> (Inr (), None)
           | Some (RuntimeError m) \<Rightarrow> (Inr (), None)
           | Some e \<Rightarrow> (Inl e, Some c)))"

definition get_redis :: "'s option \<Rightarrow> 's res" where
  "get_redis client =
     (case client of None \<Rightarrow> Inl (RuntimeError ''Redis not initialized'') | Some c \<Rightarrow> Inr c)"

section \<open>The documented behaviour of the commands\<close>

text \<open>
  \<open>view s t k\<close> is the entry alive under key \<open>k\<close> at the instant \<open>t\<close>.  Time only removes
  entries, and only those whose expiry has come; whether an entry still counts at the very
  instant of its expiry is left open.
\<close>

locale redis_store =
  fixes R :: "'s redis_ops"
    and view :: "'s \<Rightarrow> time \<Rightarrow> string \<Rightarrow> rentry option"
  assumes later_none: "view s t k = None \<Longrightarrow> t \<le> t' \<Longrightarrow> view s t' k = None"
    and later_keep: "view s t k = Some (v, None) \<Longrightarrow> t \<le> t' \<Longrightarrow> view s t' k = Some (v, None)"
    and later_live: "view s t k = Some (v, Some e) \<Longrightarrow> t \<le> t' \<Longrightarrow> t' < e \<Longrightarrow>
      view s t' k = Some (v, Some e)"
    and later_dead: "view s t k = Some (v, Some e) \<Longrightarrow> t \<le> t' \<Longrightarrow> e < t' \<Longrightarrow> view s t' k = None"
    and later_edge: "view s t k = Some (v, Some e) \<Longrightarrow> t \<le> e \<Longrightarrow>
      view s e k = None \<or> view s e k = Some (v, Some e)"
    and get_none: "view s t k = None \<Longrightarrow> op_get R t k s = None"
    and get_some: "view s t k = Some (v, x) \<Longrightarrow> scalar v \<Longrightarrow> op_get R t k s = Some v"
    and set: "view (op_set R t k v s) t = (view s t)(k \<mapsto> (v, None))"
    and set_ex: "0 < ttl \<Longrightarrow>
      view (op_set_ex R t k v ttl s) t = (view s t)(k \<mapsto> (v, Some (t + of_int ttl)))"
    and set_nx_ex_new: "view s t k = None \<Longrightarrow> 0 < ttl \<Longrightarrow>
      fst (op_set_nx_ex R t k v ttl s) \<and>
      view (snd (op_set_nx_ex R t k v ttl s)) t = (view s t)(k \<mapsto> (v, Some (t + of_int ttl)))"
    and set_nx_ex_old: "view s t k \<noteq> None \<Longrightarrow>
      \<not> fst (op_set_nx_ex R t k v ttl s) \<and> view (snd (op_set_nx_ex R t k v ttl s)) t = view s t"
    and setnx_new: "view s t k = None \<Longrightarrow>
      fst (op_setnx R t k v s) \<and> view (snd (op_setnx R t k v s)) t = (view s t)(k \<mapsto> (v, None))"
    and setnx_old: "view s t k \<noteq> None \<Longrightarrow>
      \<not> fst (op_setnx R t k v s) \<and> view (snd (op_setnx R t k v s)) t = view s t"
    and delete: "view (op_delete R t ks s) t = (\<lambda>k. if k \<in> set ks then None else view s t k)"
    and exists: "op_exists R t k s \<longleftrightarrow> view s t k \<noteq> None"
    and incr_new: "view s t k = None \<Longrightarrow> fst (op_incr R t k s) = 1 \<and>
      view (snd (op_incr R t k s)) t = (view s t)(k \<mapsto> (RNum 1, None))"
    and incr_old: "view s t k = Some (RNum (of_int n), x) \<Longrightarrow> fst (op_incr R t k s) = n + 1 \<and>
      view (snd (op_incr R t k s)) t = (view s t)(k \<mapsto> (RNum (of_int (n + 1)), x))"
    and expire: "0 < ttl \<Longrightarrow> view s t k = Some (v, x) \<Longrightarrow>
      view (op_expire R t k ttl s) t = (view s t)(k \<mapsto> (v, Some (t + of_int ttl)))"
    and zrem_none: "view s t k = None \<Longrightarrow> view (op_zremrangebyscore R t k lo hi s) t = view s t"
    and zrem_some: "view s t k = Some (RZset z, x) \<Longrightarrow> zset_drop lo hi z \<noteq> [] \<Longrightarrow>
      view (op_zremrangebyscore R t k lo hi s) t = (view s t)(k \<mapsto> (RZset (zset_drop lo hi z), x))"
    and zrem_all: "view s t k = Some (RZset z, x) \<Longrightarrow> zset_drop lo hi z = [] \<Longrightarrow>
      view (op_zremrangebyscore R t k lo hi s) t = (view s t)(k := None)"
    and zcard_none: "view s t k = None \<Longrightarrow> op_zcard R t k s = 0"
    and zcard_some: "view s t k = Some (RZset z, x) \<Longrightarrow> op_zcard R t k s = int (length z)"
    and zadd_none: "view s t k = None \<Longrightarrow>
      view (op_zadd R t k m sc s) t = (view s t)(k \<mapsto> (RZset [(m, sc)], None))"
    and zadd_some: "view s t k = Some (RZset z, x) \<Longrightarrow>
      view (op_zadd R t k m sc s) t = (view s t)(k \<mapsto> (RZset (zset_put m sc z), x))"
begin

lemma later_cases:
  assumes "t \<le> t'"
  shows "view s t' k = None \<or> view s t' k = view s t k"
proof (cases "view s t k")
  case None
  then show ?thesis using later_none assms by blast
next
  case vp: (Some p)
  obtain v x where p: "p = (v, x)" by (cases p)
  show ?thesis
  proof (cases x)
    case None
    then show ?thesis using later_keep [OF _ assms, of s k v] vp p by simp
  next
    case (Some e)
    with vp p have at: "view s t k = Some (v, Some e)"
      by simp
    consider "t' < e" | "t' = e" | "e < t'" by linarith
    then show ?thesis
    proof cases
      case 1
      then show ?thesis using later_live [OF at assms] at by simp
    next
      case 2
      then show ?thesis using later_edge [OF at] at assms by simp
    next
      case 3
      then show ?thesis using later_dead [OF at assms] by simp
    qed
  qed
qed

lemma later_some: "view s t' k = Some p \<Longrightarrow> t \<le> t' \<Longrightarrow> view s t k = Some p"
  using later_cases [of t t' s k] by simp

end

section \<open>The reference store\<close>

text \<open>A map from keys to entries; an entry is alive up to and including its expiry.\<close>

type_synonym ref_state = "string \<Rightarrow> rentry option"

definition ref_view :: "ref_state \<Rightarrow> time \<Rightarrow> string \<Rightarrow> rentry option" where
  "ref_view m t k =
     (case m k of
        None \<Rightarrow> None
      | Some (v, x) \<Rightarrow> (case x of None \<Rightarrow> Some (v, x) | Some e \<Rightarrow> if t \<le> e then Some (v, x) else None))"

definition ref_put :: "string \<Rightarrow> rvalue \<Rightarrow> time option \<Rightarrow> ref_state \<Rightarrow> ref_state" where
  "ref_put k v x m = m(k \<mapsto> (v, x))"

definition ref_get :: "time \<Rightarrow> string \<Rightarrow> ref_state \<Rightarrow> rvalue option" where
  "ref_get t k m = map_option fst (ref_view m t k)"

definition ref_put_new :: "time \<Rightarrow> string \<Rightarrow> rvalue \<Rightarrow> time option \<Rightarrow> ref_state \<Rightarrow> bool \<times> ref_state" where
  "ref_put_new t k v x m =
     (case ref_view m t k of None \<Rightarrow> (True, ref_put k v x m) | Some p \<Rightarrow> (False, m))"

definition ref_incr :: "time \<Rightarrow> string \<Rightarrow> ref_state \<Rightarrow> int \<times> ref_state" where
  "ref_incr t k m =
     (case ref_view m t k of
        Some (RNum n, x) \<Rightarrow> (\<lfloor>n\<rfloor> + 1, ref_put k (RNum (n + 1)) x m)
      | _ \<Rightarrow> (1, ref_put k (RNum 1) None m))"

definition ref_expire :: "time \<Rightarrow> string \<Rightarrow> int \<Rightarrow> ref_state \<Rightarrow> ref_state" where
  "ref_expire t k ttl m =
     (case ref_view m t k of None \<Rightarrow> m | Some (v, x) \<Rightarrow> ref_put k v (Some (t + of_int ttl)) m)"

definition ref_zset :: "time \<Rightarrow> string \<Rightarrow> ref_state \<Rightarrow> (string \<times> rat) list \<times> time option" where
  "ref_zset t k m = (case ref_view m t k of Some (RZset z, x) \<Rightarrow> (z, x) | _ \<Rightarrow> ([], None))"

definition ref_zrem :: "time \<Rightarrow> string \<Rightarrow> rat \<Rightarrow> rat \<Rightarrow> ref_state \<Rightarrow> ref_state" where
  "ref_zrem t k lo hi m =
     (let z = zset_drop lo hi (fst (ref_zset t k m))
      in if z = [] then m(k := None) else ref_put k (RZset z) (snd (ref_zset t k m)) m)"

definition ref_zadd :: "time \<Rightarrow> string \<Rightarrow> string \<Rightarrow> rat \<Rightarrow> ref_state \<Rightarrow> ref_state" where
  "ref_zadd t k mem sc m =
     ref_put k (RZset (zset_put mem sc (fst (ref_zset t k m)))) (snd (ref_zset t k m)) m"

definition ref_redis :: "ref_state redis_ops" where
  "ref_redis = \<lparr>
     op_get = ref_get,
     op_set = (\<lambda>t k v m. ref_put k v None m),
     op_set_ex = (\<lambda>t k v ttl m. ref_put k v (Some (t + of_int ttl)) m),
     op_set_nx_ex = (\<lambda>t k v ttl m. ref_put_new t k v (Some (t + of_int ttl)) m),
     op_setnx = (\<lambda>t k v m. ref_put_new t k v None m),
     op_delete = (\<lambda>t ks m. (\<lambda>k. if k \<in> set ks then None else m k)),
     op_exists = (\<lambda>t k m. ref_view m t k \<noteq> None),
     op_incr = ref_incr,
     op_expire = ref_expire,
     op_zremrangebyscore = ref_zrem,
     op_zcard = (\<lambda>t k m. int (length (fst (ref_zset t k m)))),
     op_zadd = ref_zadd \<rparr>"

lemmas ref_defs = ref_redis_def ref_view_def ref_put_def ref_get_def ref_put_new_def ref_incr_def
  ref_expire_def ref_zset_def ref_zrem_def ref_zadd_def zset_put_def zset_drop_def

lemma ref_view_put: "(case x of None \<Rightarrow> True | Some e \<Rightarrow> t \<le> e) \<Longrightarrow>
    ref_view (ref_put k v x m) t = (ref_view m t)(k \<mapsto> (v, x))"
  by (auto simp: ref_view_def ref_put_def fun_eq_iff split: option.splits)

lemma ref_view_expiry: "ref_view m t k = Some (v, x) \<Longrightarrow> case x of None \<Rightarrow> True | Some e \<Rightarrow> t \<le> e"
  by (auto simp: ref_view_def split: option.splits if_splits)

lemma ref_view_del: "ref_view (m(k := None)) t = (ref_view m t)(k := None)"
  by (auto simp: ref_view_def fun_eq_iff)

lemma fun_upd_idem_None: "f k = None \<Longrightarrow> f(k := None) = f"
  by auto

interpretation ref: redis_store ref_redis ref_view
proof (unfold_locales, goal_cases)
  case 1 then show ?case by (auto simp: ref_view_def split: option.splits if_splits)
next
  case 2 then show ?case by (auto simp: ref_view_def split: option.splits if_splits)
next
  case 3 then show ?case by (auto simp: ref_view_def split: option.splits if_splits)
next
  case 4 then show ?case by (auto simp: ref_view_def split: option.splits if_splits)
next
  case 5 then show ?case by (auto simp: ref_view_def split: option.splits if_splits)
next
  case 6 then show ?case by (simp add: ref_redis_def ref_get_def)
next
  case 7 then show ?case by (simp add: ref_redis_def ref_get_def)
next
  case 8 then show ?case by (simp add: ref_redis_def ref_view_put)
next
  case 9 then show ?case by (simp add: ref_redis_def ref_view_put)
next
  case 10 then show ?case by (simp add: ref_redis_def ref_put_new_def ref_view_put)
next
  case 11 then show ?case by (auto simp: ref_redis_def ref_put_new_def)
next
  case 12 then show ?case by (simp add: ref_redis_def ref_put_new_def ref_view_put)
next
  case 13 then show ?case by (auto simp: ref_redis_def ref_put_new_def)
next
  case 14 then show ?case by (auto simp: ref_redis_def ref_view_def fun_eq_iff)
next
  case 15 then show ?case by (simp add: ref_redis_def)
next
  case 16 then show ?case by (simp add: ref_redis_def ref_incr_def ref_view_put)
next
  case 17
  note x = ref_view_expiry [OF 17]
  from 17 show ?case by (simp add: ref_redis_def ref_incr_def ref_view_put [OF x])
next
  case 18 then show ?case by (simp add: ref_redis_def ref_expire_def ref_view_put)
next
  case 19 then show ?case
    by (simp add: ref_redis_def ref_zrem_def ref_zset_def zset_drop_def ref_view_del fun_upd_idem_None)
next
  case 20
  note x = ref_view_expiry [OF 20(1)]
  from 20 show ?case by (simp add: ref_redis_def ref_zrem_def ref_zset_def ref_view_put [OF x])
next
  case 21 then show ?case by (simp add: ref_redis_def ref_zrem_def ref_zset_def ref_view_del)
next
  case 22 then show ?case by (simp add: ref_redis_def ref_zset_def)
next
  case 23 then show ?case by (simp add: ref_redis_def ref_zset_def)
next
  case 24 then show ?case by (simp add: ref_redis_def ref_zadd_def ref_zset_def zset_put_def ref_view_put)
next
  case 25
  note x = ref_view_expiry [OF 25]
  from 25 show ?case by (simp add: ref_redis_def ref_zadd_def ref_zset_def ref_view_put [OF x])
qed

end
