(* ===== verification/Rate_Limiter.thy ===== *)
theory Rate_Limiter
  imports Redis_Store Settings
begin

text \<open>
  The sliding-window limiter of \<open>app/core/rate_limiter.py\<close>: one sorted set per key, holding a
  member per request with its time in milliseconds.  The pipeline of four commands runs at one
  instant \<open>now\<close>.  It is related to a plain log of request times.
\<close>

section \<open>The operation\<close>

definition window_ms :: rat where
  "window_ms = 60000"

definition rl_key :: "string \<Rightarrow> string" where
  "rl_key key = ''rl:'' @ key"

definition allow_request ::
  "'s redis_ops \<Rightarrow> settings \<Rightarrow> string \<Rightarrow> int option \<Rightarrow> string \<Rightarrow> time \<Rightarrow> 's \<Rightarrow> bool \<times> 's" where
  "allow_request R cfg key max_rpm member now s =
     (let limit = (case max_rpm of Some m \<Rightarrow> m | None \<Rightarrow> rate_limit_rpm cfg)
      in if limit \<le> 0 then (False, s)
         else
           let now_ms = now * 1000;
               window_start = now_ms - window_ms;
               s1 = op_zremrangebyscore R now (rl_key key) 0 window_start s;
               count = op_zcard R now (rl_key key) s1;
               s2 = op_zadd R now (rl_key key) member now_ms s1;
               s3 = op_expire R now (rl_key key) 60 s2
           in (count < limit, s3))"

text \<open>A series of requests under one key, each with its instant and its fresh \<open>uuid4\<close> member.\<close>

fun rl_run :: "'s redis_ops \<Rightarrow> settings \<Rightarrow> string \<Rightarrow> int option \<Rightarrow> (time \<times> string) list \<Rightarrow> 's \<Rightarrow> bool list" where
  "rl_run R cfg key m [] s = []"
| "rl_run R cfg key m ((t, u) # rs) s =
     (let (ok, s') = allow_request R cfg key m u t s in ok # rl_run R cfg key m rs s')"

section \<open>The log it implements\<close>

definition recent :: "time \<Rightarrow> time list \<Rightarrow> time list" where
  "recent now hist = filter (\<lambda>x. now - 60 < x) hist"

fun log_run :: "int \<Rightarrow> time list \<Rightarrow> time list \<Rightarrow> bool list" where
  "log_run limit hist [] = []"
| "log_run limit hist (t # ts) =
     (int (length (recent t hist)) < limit) # log_run limit (hist @ [t]) ts"

definition rl_inv :: "(string \<Rightarrow> rentry option) \<Rightarrow> string \<Rightarrow> time \<Rightarrow> time list \<Rightarrow> string set \<Rightarrow> bool" where
  "rl_inv kv key t hist used \<longleftrightarrow>
     (kv (rl_key key) = None \<and> recent t hist = []) \<or>
     (\<exists>z t0. kv (rl_key key) = Some (RZset z, Some (t0 + 60)) \<and> (\<forall>x \<in> set hist. x \<le> t0) \<and>
        (\<forall>p \<in> set z. 0 \<le> snd p \<and> fst p \<in> used) \<and>
        map (\<lambda>x. x * 1000) (recent t hist) = filter (\<lambda>y. t * 1000 - 60000 < y) (map snd z))"

lemma recent_later: "t \<le> t' \<Longrightarrow> recent t' (recent t hist) = recent t' hist"
  by (auto simp: recent_def intro!: filter_cong)

lemma zset_drop_scores:
  assumes "\<forall>p \<in> set z. 0 \<le> snd p"
  shows "map snd (zset_drop 0 w z) = filter (\<lambda>y. w < y) (map snd z)"
  using assms by (induction z) (auto simp: zset_drop_def)

context redis_store
begin

lemma rl_inv_later:
  assumes inv: "rl_inv (view s t) key t hist used" and le: "t \<le> t'"
  shows "rl_inv (view s t') key t' hist used"
proof -
  have rec: "recent t' hist = recent t' (recent t hist)"
    using recent_later [OF le] by simp
  from inv consider
    (none) "view s t (rl_key key) = None" "recent t hist = []"
  | (some) z t0 where "view s t (rl_key key) = Some (RZset z, Some (t0 + 60))"
      "\<forall>x \<in> set hist. x \<le> t0" "\<forall>p \<in> set z. 0 \<le> snd p \<and> fst p \<in> used"
      "map (\<lambda>x. x * 1000) (recent t hist) = filter (\<lambda>y. t * 1000 - 60000 < y) (map snd z)"
    unfolding rl_inv_def by (elim disjE exE conjE) (assumption | blast)+
  then show ?thesis
  proof cases
    case none
    then show ?thesis
      using later_none [OF none(1) le] rec by (simp add: rl_inv_def recent_def)
  next
    case some
    show ?thesis
    proof (cases "view s t' (rl_key key)")
      case None
      with later_live [OF some(1) le] have "t0 + 60 \<le> t'" by force
      then have "recent t' hist = []"
        using some(2) by (force simp: recent_def filter_empty_conv)
      with None show ?thesis by (simp add: rl_inv_def)
    next
      case (Some p)
      with later_cases [OF le, of s "rl_key key"] some(1)
      have at: "view s t' (rl_key key) = Some (RZset z, Some (t0 + 60))" by simp
      have "map (\<lambda>x. x * 1000) (recent t' hist) =
          filter (\<lambda>y. t' * 1000 - 60000 < y) (map (\<lambda>x. x * 1000) (recent t hist))"
        unfolding recent_def filter_map o_def filter_filter_conj
        by (rule arg_cong [where f = "map _"], rule filter_cong) (use le in auto)
      also have "\<dots> = filter (\<lambda>y. t' * 1000 - 60000 < y) (map snd z)"
        unfolding some(4) using le by (auto intro!: filter_cong simp: filter_filter_conj)
      finally show ?thesis
        using at some(2,3) unfolding rl_inv_def by blast
    qed
  qed
qed

text \<open>After the eviction the set holds exactly the recent requests; adding a fresh member appends it.\<close>

lemma window_step:
  assumes inv: "rl_inv (view s t) key t hist used" and fresh: "m \<notin> used"
    and s1: "s1 = op_zremrangebyscore R t (rl_key key) 0 (t * 1000 - 60000) s"
  shows "\<exists>z x. map snd z = map (\<lambda>x. x * 1000) (recent t hist) \<and> (\<forall>p \<in> set z. 0 \<le> snd p \<and> fst p \<in> used) \<and>
      op_zcard R t (rl_key key) s1 = int (length z) \<and>
      view (op_zadd R t (rl_key key) m (t * 1000) s1) t (rl_key key) = Some (RZset (z @ [(m, t * 1000)]), x)"
proof (cases "view s t (rl_key key)")
  case None
  then have "recent t hist = []" using inv by (auto simp: rl_inv_def)
  moreover have "view s1 t (rl_key key) = None" using zrem_none [OF None] None by (simp add: s1)
  ultimately show ?thesis
    using zcard_none zadd_none by (intro exI [of _ "[]"]) simp
next
  case (Some p)
  then obtain z e where vz: "view s t (rl_key key) = Some (RZset z, e)"
    and used: "\<forall>p \<in> set z. 0 \<le> snd p \<and> fst p \<in> used"
    and rec: "map (\<lambda>x. x * 1000) (recent t hist) = filter (\<lambda>y. t * 1000 - 60000 < y) (map snd z)"
    using inv by (auto simp: rl_inv_def)
  let ?z = "zset_drop 0 (t * 1000 - 60000) z"
  have scores: "map snd ?z = map (\<lambda>x. x * 1000) (recent t hist)"
    using zset_drop_scores used rec by metis
  have used': "\<forall>p \<in> set ?z. 0 \<le> snd p \<and> fst p \<in> used"
    using used by (auto simp: zset_drop_def)
  have put: "zset_put m (t * 1000) ?z = ?z @ [(m, t * 1000)]"
    using used' fresh by (auto simp: zset_put_def filter_id_conv)
  show ?thesis
  proof (cases "?z = []")
    case True
    then have "view s1 t (rl_key key) = None" using zrem_all [OF vz] by (simp add: s1)
    then show ?thesis
      using True scores zcard_none zadd_none by (intro exI [of _ "[]"]) simp
  next
    case False
    then have "view s1 t (rl_key key) = Some (RZset ?z, e)" using zrem_some [OF vz] by (simp add: s1)
    then show ?thesis
      using scores used' zcard_some zadd_some put by (intro exI [of _ ?z]) simp
  qed
qed

lemma allow_request_step:
  assumes inv: "rl_inv (view s t) key t hist used" and lim: "0 < limit"
    and fresh: "m \<notin> used" and pos: "0 \<le> t" and past: "\<forall>x \<in> set hist. x \<le> t"
    and res: "allow_request R cfg key (Some limit) m t s = (ok, s')"
  shows "(ok \<longleftrightarrow> int (length (recent t hist)) < limit) \<and>
         rl_inv (view s' t) key t (hist @ [t]) (insert m used)"
proof -
  let ?k = "rl_key key" and ?w = "t * 1000 - 60000"
  define s1 where "s1 = op_zremrangebyscore R t ?k 0 ?w s"
  define s2 where "s2 = op_zadd R t ?k m (t * 1000) s1"
  have ok: "ok \<longleftrightarrow> op_zcard R t ?k s1 < limit" and s': "s' = op_expire R t ?k 60 s2"
    using res lim by (auto simp: allow_request_def window_ms_def Let_def s1_def s2_def)
  obtain z x where scores: "map snd z = map (\<lambda>x. x * 1000) (recent t hist)"
    and used': "\<forall>p \<in> set z. 0 \<le> snd p \<and> fst p \<in> used"
    and card: "op_zcard R t ?k s1 = int (length z)"
    and v2: "view s2 t ?k = Some (RZset (z @ [(m, t * 1000)]), x)"
    using window_step [OF inv fresh s1_def] unfolding s2_def by blast
  have "length z = length (recent t hist)"
    using scores by (metis length_map)
  moreover have "view s' t ?k = Some (RZset (z @ [(m, t * 1000)]), Some (t + 60))"
    using expire [of 60 s2 t ?k, OF _ v2] by (simp add: s')
  moreover have "filter (\<lambda>y. ?w < y) (map snd z) = map snd z"
    unfolding scores by (auto simp: filter_id_conv recent_def)
  ultimately show ?thesis
    using ok card scores used' pos past
    by (auto simp: rl_inv_def recent_def intro!: exI [of _ t])
qed

lemma rl_run_log:
  assumes "rl_inv (view s t) key t hist used" and "0 < limit"
    and "sorted (t # map fst rs)" and "0 \<le> t" and "\<forall>x \<in> set hist. x \<le> t"
    and "distinct (map snd rs)" and "used \<inter> set (map snd rs) = {}"
  shows "rl_run R cfg key (Some limit) rs s = log_run limit hist (map fst rs)"
  using assms
proof (induction rs arbitrary: s t hist used)
  case Nil
  then show ?case by simp
next
  case (Cons r rs)
  obtain t1 m where r: "r = (t1, m)" by (cases r)
  obtain ok s' where res: "allow_request R cfg key (Some limit) m t1 s = (ok, s')"
    by (metis surj_pair)
  have le: "t \<le> t1" using Cons.prems(3) r by simp
  have past: "\<forall>x \<in> set hist. x \<le> t1" using Cons.prems(5) le by auto
  have "0 \<le> t1" using Cons.prems(4) le by linarith
  moreover have "m \<notin> used" using Cons.prems(7) r by auto
  ultimately have step: "(ok \<longleftrightarrow> int (length (recent t1 hist)) < limit) \<and>
      rl_inv (view s' t1) key t1 (hist @ [t1]) (insert m used)"
    using allow_request_step [OF rl_inv_later [OF Cons.prems(1) le] Cons.prems(2) _ _ past res] by blast
  have "rl_run R cfg key (Some limit) rs s' = log_run limit (hist @ [t1]) (map fst rs)"
    by (rule Cons.IH [of _ t1 _ "insert m used"])
      (use step Cons.prems \<open>0 \<le> t1\<close> past r in auto)
  then show ?case using res step r by simp
qed

lemma rl_run_fresh:
  assumes "view s t (rl_key key) = None"
    and "0 < limit" and "0 \<le> t" and "sorted (t # map fst rs)" and "distinct (map snd rs)"
  shows "rl_run R cfg key (Some limit) rs s = log_run limit [] (map fst rs)"
  by (rule rl_run_log [where t = t and used = "{}"]) (use assms in \<open>auto simp: rl_inv_def recent_def\<close>)

end

section \<open>Properties of the log\<close>

text \<open>The instants of the requests that were let through.\<close>

definition passed :: "time list \<Rightarrow> bool list \<Rightarrow> time list" where
  "passed ts oks = map fst (filter snd (zip ts oks))"

lemma length_log_run [simp]: "length (log_run limit hist ts) = length ts"
  by (induction ts arbitrary: hist) auto

lemma passed_sub:
  "length (filter P (passed ts oks)) \<le> length (filter P ts)"
proof (induction ts arbitrary: oks)
  case Nil
  then show ?case by (simp add: passed_def)
next
  case (Cons t ts)
  show ?case
    using Cons.IH [of "tl oks"] by (cases oks) (auto simp: passed_def)
qed

lemma passed_append:
  "length ts = length oks \<Longrightarrow> passed (ts @ ts') (oks @ oks') = passed ts oks @ passed ts' oks'"
  by (simp add: passed_def)

lemma log_run_append:
  "log_run limit hist (ts @ ts') = log_run limit hist ts @ log_run limit (hist @ ts) ts'"
  by (induction ts arbitrary: hist) auto

text \<open>No window of 60 seconds ending at any instant holds more than \<open>limit\<close> passed requests.\<close>

lemma log_run_window:
  assumes "sorted ts" and "0 \<le> limit"
  shows "int (length (filter (\<lambda>x. w - 60 < x \<and> x \<le> w) (passed ts (log_run limit [] ts)))) \<le> limit"
  using assms
proof (induction ts rule: rev_induct)
  case Nil
  then show ?case by (simp add: passed_def)
next
  case (snoc t ts)
  let ?in = "\<lambda>x. w - 60 < x \<and> x \<le> w"
  have IH: "int (length (filter ?in (passed ts (log_run limit [] ts)))) \<le> limit"
    using snoc by (simp add: sorted_append)
  have split: "passed (ts @ [t]) (log_run limit [] (ts @ [t])) =
      passed ts (log_run limit [] ts) @ passed [t] (log_run limit ts [t])"
    by (simp add: log_run_append passed_append)
  show ?case
  proof (cases "?in t \<and> int (length (recent t ts)) < limit")
    case False
    then have "filter ?in (passed [t] (log_run limit ts [t])) = []"
      by (auto simp: passed_def)
    with IH show ?thesis by (simp only: split filter_append append_Nil2)
  next
    case True
    have "length (filter ?in (passed ts (log_run limit [] ts))) \<le> length (filter ?in ts)"
      by (rule passed_sub)
    also have "\<dots> \<le> length (recent t ts)"
      unfolding recent_def by (rule length_filter_mono) (use True in auto)
    finally have "int (length (filter ?in (passed ts (log_run limit [] ts)))) < limit"
      using True by linarith
    moreover have "length (filter ?in (passed [t] (log_run limit ts [t]))) \<le> 1"
      by (simp add: passed_def)
    ultimately show ?thesis
      unfolding split filter_append length_append by linarith
  qed
qed

section \<open>Properties\<close>

text \<open>
  C23: a series of requests under one key, in order of time and with fresh members, is answered
  exactly as a plain log answers: a request passes when fewer than \<open>limit\<close> of the earlier
  requests, passed or not, came in the 60 seconds before it.
\<close>

theorem rate_limiter_is_log:
  assumes "redis_store R view" and "view s t (rl_key key) = None"
    and "0 < limit" and "0 \<le> t" and "sorted (t # map fst rs)" and "distinct (map snd rs)"
  shows "rl_run R cfg key (Some limit) rs s = log_run limit [] (map fst rs)"
  by (rule redis_store.rl_run_fresh [OF assms])

text \<open>
  In every window of 60 seconds at most \<open>limit\<close> requests of a key are let through.
\<close>

theorem rate_limiter_window_bound:
  assumes "redis_store R view" and "view s t (rl_key key) = None"
    and "0 < limit" and "0 \<le> t" and "sorted (t # map fst rs)" and "distinct (map snd rs)"
  shows "int (length (filter (\<lambda>x. w - 60 < x \<and> x \<le> w)
           (passed (map fst rs) (rl_run R cfg key (Some limit) rs s)))) \<le> limit"
  unfolding redis_store.rl_run_fresh [OF assms]
  by (rule log_run_window) (use assms(3,5) in simp_all)

text \<open>A limit that is not positive lets nothing through and leaves no trace in Redis.\<close>

lemma allow_request_no_limit:
  "m \<le> 0 \<Longrightarrow> allow_request R cfg key (Some m) u now s = (False, s)"
  by (simp add: allow_request_def)

section \<open>Closed examples\<close>

theorem rate_limiter_is_log_witness:
  "rl_run ref_redis default_settings ''k'' (Some 2) [(0, ''a''), (1, ''b''), (2, ''c''), (61, ''d''), (130, ''e'')] Map.empty =
   [True, True, False, True, True]"
  using rate_limiter_is_log [OF ref.redis_store_axioms, of Map.empty 0 "''k''" 2
      "[(0, ''a''), (1, ''b''), (2, ''c''), (61, ''d''), (130, ''e'')]" default_settings]
  by (simp add: ref_view_def recent_def)

theorem rate_limiter_window_bound_witness:
  "int (length (filter (\<lambda>x. 10 - 60 < x \<and> x \<le> 10)
     (passed [0, 1, 2] (rl_run ref_redis default_settings ''k'' (Some 2)
        [(0, ''a''), (1, ''b''), (2, ''c'')] Map.empty)))) \<le> 2"
  using rate_limiter_window_bound [OF ref.redis_store_axioms, of Map.empty 0 "''k''" 2
      "[(0, ''a''), (1, ''b''), (2, ''c'')]" 10 default_settings]
  by (simp add: ref_view_def)

end
