(* ===== verification/Ip_Address.thy ===== *)
theory Ip_Address
  imports Prelude
begin

text \<open>
  The part of the standard library's \<open>ipaddress\<close> that the program uses: reading IPv4 and IPv6
  addresses and networks from text, membership of an address in a network, and the address
  classes.  \<open>None\<close> stands for the \<open>ValueError\<close> of a text that is no address or network.
\<close>

datatype ip_addr = IPv4 nat | IPv6 nat "string option"

datatype ip_net = Net4 nat nat | Net6 nat nat

section \<open>Reading addresses\<close>

definition parse_octet :: "string \<Rightarrow> nat option" where
  "parse_octet s =
     (if s = [] \<or> \<not> list_all is_digit s \<or> 3 < length s \<or> (s \<noteq> ''0'' \<and> hd s = CHR ''0'')
      then None
      else let n = int_of_digits s in if 255 < n then None else Some n)"

definition v4 :: "nat \<Rightarrow> nat \<Rightarrow> nat \<Rightarrow> nat \<Rightarrow> nat" where
  "v4 a b c d = ((a * 256 + b) * 256 + c) * 256 + d"

definition parse_v4 :: "string \<Rightarrow> nat option" where
  "parse_v4 s =
     (case map parse_octet (py_split CHR ''.'' s) of
        [Some a, Some b, Some c, Some d] \<Rightarrow> Some (v4 a b c d)
      | _ \<Rightarrow> None)"

definition parse_hextet :: "string \<Rightarrow> nat option" where
  "parse_hextet s =
     (if s = [] \<or> 4 < length s \<or> list_ex (\<lambda>c. hex_digit c = None) s then None
      else Some (fold (\<lambda>c n. 16 * n + the (hex_digit c)) s 0))"

fun all_some :: "'a option list \<Rightarrow> 'a list option" where
  "all_some [] = Some []"
| "all_some (None # xs) = None"
| "all_some (Some x # xs) = map_option (Cons x) (all_some xs)"

text \<open>The hextets of an address: a dotted IPv4 tail stands for two of them.\<close>

definition v6_parts :: "string \<Rightarrow> nat option list option" where
  "v6_parts s =
     (let parts = py_split CHR '':'' s;
          plain = (\<lambda>ps. all_some (map (\<lambda>p. if p = [] then Some None
                                        else map_option Some (parse_hextet p)) ps))
      in if length parts < 3 then None
         else if CHR ''.'' \<in> set (last parts) then
           (case parse_v4 (last parts) of
              None \<Rightarrow> None
            | Some n \<Rightarrow> map_option (\<lambda>ps. ps @ [Some (n div 65536), Some (n mod 65536)])
                         (plain (butlast parts)))
         else plain parts)"

definition v6_int :: "nat list \<Rightarrow> nat" where
  "v6_int hs = fold (\<lambda>h n. 65536 * n + h) hs 0"

text \<open>
  \<open>None\<close> among the parts is an empty part; an empty part between others is the \<open>::\<close>, of which
  there is at most one, and an empty part at an end is allowed only next to it.
\<close>

definition v6_join :: "nat option list \<Rightarrow> nat option" where
  "v6_join parts =
     (let n = length parts;
          skips = filter (\<lambda>i. parts ! i = None) [1..<n - 1]
      in if 9 < n \<or> 1 < length skips then None
         else case skips of
           k # ks \<Rightarrow>
             (let hi = (if hd parts = None then k - 1 else k);
                  lo = (if last parts = None then n - k - 2 else n - k - 1)
              in if hd parts = None \<and> hi \<noteq> 0 \<or> last parts = None \<and> lo \<noteq> 0 \<or> 8 < hi + lo + 1 then None
                 else map_option (\<lambda>(h, l). v6_int (h @ replicate (8 - (hi + lo)) 0 @ l))
                   (case (all_some (take hi parts), all_some (drop (n - lo) parts)) of
                      (Some h, Some l) \<Rightarrow> Some (h, l) | _ \<Rightarrow> None))
         | [] \<Rightarrow> if n \<noteq> 8 then None else map_option v6_int (all_some parts))"

definition parse_v6 :: "string \<Rightarrow> (nat \<times> string option) option" where
  "parse_v6 s =
     (let (addr, sep, scope) = py_partition CHR ''%'' s
      in if CHR ''/'' \<in> set s \<or> sep \<and> (scope = [] \<or> CHR ''%'' \<in> set scope) then None
         else case v6_parts addr of
           None \<Rightarrow> None
         | Some parts \<Rightarrow> map_option (\<lambda>n. (n, if sep then Some scope else None)) (v6_join parts))"

definition ip_address :: "string \<Rightarrow> ip_addr option" where
  "ip_address s =
     (case parse_v4 s of
        Some n \<Rightarrow> Some (IPv4 n)
      | None \<Rightarrow> map_option (\<lambda>(n, scope). IPv6 n scope) (parse_v6 s))"

section \<open>Networks\<close>

definition prefix_of_digits :: "nat \<Rightarrow> string \<Rightarrow> nat option" where
  "prefix_of_digits width s =
     (if s \<noteq> [] \<and> list_all is_digit s \<and> int_of_digits s \<le> width then Some (int_of_digits s) else None)"

text \<open>A dotted netmask, or else a dotted hostmask, of \<open>p\<close> leading bits.\<close>

definition prefix_of_mask :: "string \<Rightarrow> nat option" where
  "prefix_of_mask s =
     (case parse_v4 s of
        None \<Rightarrow> None
      | Some m \<Rightarrow>
          (case find (\<lambda>p. m = 2 ^ 32 - 2 ^ (32 - p)) [0..<33] of
             Some p \<Rightarrow> Some p
           | None \<Rightarrow> find (\<lambda>p. 2 ^ 32 - 1 - m = 2 ^ 32 - 2 ^ (32 - p)) [0..<33]))"

definition network4 :: "string list \<Rightarrow> ip_net option" where
  "network4 w =
     (case w of
        [a] \<Rightarrow> map_option (\<lambda>n. Net4 n 32) (parse_v4 a)
      | [a, m] \<Rightarrow>
          (case (parse_v4 a, case prefix_of_digits 32 m of Some p \<Rightarrow> Some p | None \<Rightarrow> prefix_of_mask m) of
             (Some n, Some p) \<Rightarrow> Some (Net4 n p) | _ \<Rightarrow> None)
      | _ \<Rightarrow> None)"

definition network6 :: "string list \<Rightarrow> ip_net option" where
  "network6 w =
     (case w of
        [a] \<Rightarrow> map_option (\<lambda>(n, sc). Net6 n 128) (parse_v6 a)
      | [a, m] \<Rightarrow>
          (case (parse_v6 a, prefix_of_digits 128 m) of
             (Some (n, sc), Some p) \<Rightarrow> Some (Net6 n p) | _ \<Rightarrow> None)
      | _ \<Rightarrow> None)"

text \<open>\<open>ip_network(s, strict=False)\<close>: host bits of the address are dropped by the comparison below.\<close>

definition ip_network :: "string \<Rightarrow> ip_net option" where
  "ip_network s =
     (let w = py_split CHR ''/'' s
      in case network4 w of Some n \<Rightarrow> Some n | None \<Rightarrow> network6 w)"

fun in_net :: "ip_addr \<Rightarrow> ip_net \<Rightarrow> bool" where
  "in_net (IPv4 a) (Net4 n p) = (a div 2 ^ (32 - p) = n div 2 ^ (32 - p))"
| "in_net (IPv6 a sc) (Net6 n p) = (a div 2 ^ (128 - p) = n div 2 ^ (128 - p))"
| "in_net _ _ = False"

section \<open>Address classes\<close>

definition private4 :: "ip_net list" where
  "private4 = [Net4 (v4 0 0 0 0) 8, Net4 (v4 10 0 0 0) 8, Net4 (v4 127 0 0 0) 8, Net4 (v4 169 254 0 0) 16,
     Net4 (v4 172 16 0 0) 12, Net4 (v4 192 0 0 0) 24, Net4 (v4 192 0 0 170) 31, Net4 (v4 192 0 2 0) 24,
     Net4 (v4 192 168 0 0) 16, Net4 (v4 198 18 0 0) 15, Net4 (v4 198 51 100 0) 24,
     Net4 (v4 203 0 113 0) 24, Net4 (v4 240 0 0 0) 4, Net4 (v4 255 255 255 255) 32]"

definition private4_except :: "ip_net list" where
  "private4_except = [Net4 (v4 192 0 0 9) 32, Net4 (v4 192 0 0 10) 32]"

definition v6_top :: "nat \<Rightarrow> nat \<Rightarrow> nat \<Rightarrow> nat" where
  "v6_top a b c = ((a * 65536 + b) * 65536 + c) * 2 ^ 80"

definition private6 :: "ip_net list" where
  "private6 = [Net6 1 128, Net6 0 128, Net6 (65535 * 2 ^ 32) 96, Net6 (v6_top 0x64 0xff9b 1) 48,
     Net6 (v6_top 0x100 0 0) 64, Net6 (v6_top 0x2001 0 0) 23, Net6 (v6_top 0x2001 0xdb8 0) 32,
     Net6 (v6_top 0x2002 0 0) 16, Net6 (v6_top 0xfc00 0 0) 7, Net6 (v6_top 0xfe80 0 0) 10]"

definition private6_except :: "ip_net list" where
  "private6_except = [Net6 (v6_top 0x2001 1 0 + 1) 128, Net6 (v6_top 0x2001 1 0 + 2) 128,
     Net6 (v6_top 0x2001 3 0) 32, Net6 (v6_top 0x2001 4 0x112) 48, Net6 (v6_top 0x2001 0x20 0) 28,
     Net6 (v6_top 0x2001 0x30 0) 28]"

definition reserved6 :: "ip_net list" where
  "reserved6 = [Net6 0 8, Net6 (v6_top 0x100 0 0) 8, Net6 (v6_top 0x200 0 0) 7, Net6 (v6_top 0x400 0 0) 6,
     Net6 (v6_top 0x800 0 0) 5, Net6 (v6_top 0x1000 0 0) 4, Net6 (v6_top 0x4000 0 0) 3,
     Net6 (v6_top 0x6000 0 0) 3, Net6 (v6_top 0x8000 0 0) 3, Net6 (v6_top 0xA000 0 0) 3,
     Net6 (v6_top 0xC000 0 0) 3, Net6 (v6_top 0xE000 0 0) 4, Net6 (v6_top 0xF000 0 0) 5,
     Net6 (v6_top 0xF800 0 0) 6, Net6 (v6_top 0xFE00 0 0) 9]"

definition in_nets :: "ip_addr \<Rightarrow> ip_net list \<Rightarrow> bool" where
  "in_nets a ns = list_ex (in_net a) ns"

definition private_v4 :: "nat \<Rightarrow> bool" where
  "private_v4 n = (in_nets (IPv4 n) private4 \<and> \<not> in_nets (IPv4 n) private4_except)"

fun ip_private :: "ip_addr \<Rightarrow> bool" where
  "ip_private (IPv4 n) = private_v4 n"
| "ip_private (IPv6 n sc) =
     (if n div 2 ^ 32 = 0xFFFF then private_v4 (n mod 2 ^ 32)
      else in_nets (IPv6 n sc) private6 \<and> \<not> in_nets (IPv6 n sc) private6_except)"

fun ip_loopback :: "ip_addr \<Rightarrow> bool" where
  "ip_loopback (IPv4 n) = in_net (IPv4 n) (Net4 (v4 127 0 0 0) 8)"
| "ip_loopback (IPv6 n sc) = (n = 1)"

fun ip_link_local :: "ip_addr \<Rightarrow> bool" where
  "ip_link_local (IPv4 n) = in_net (IPv4 n) (Net4 (v4 169 254 0 0) 16)"
| "ip_link_local (IPv6 n sc) = in_net (IPv6 n sc) (Net6 (v6_top 0xfe80 0 0) 10)"

fun ip_multicast :: "ip_addr \<Rightarrow> bool" where
  "ip_multicast (IPv4 n) = in_net (IPv4 n) (Net4 (v4 224 0 0 0) 4)"
| "ip_multicast (IPv6 n sc) = in_net (IPv6 n sc) (Net6 (v6_top 0xff00 0 0) 8)"

fun ip_reserved :: "ip_addr \<Rightarrow> bool" where
  "ip_reserved (IPv4 n) = in_net (IPv4 n) (Net4 (v4 240 0 0 0) 4)"
| "ip_reserved (IPv6 n sc) = in_nets (IPv6 n sc) reserved6"

fun ip_unspecified :: "ip_addr \<Rightarrow> bool" where
  "ip_unspecified (IPv4 n) = (n = 0)"
| "ip_unspecified (IPv6 n sc) = (n = 0)"

section \<open>Dotted text\<close>

definition dotted :: "nat \<Rightarrow> nat \<Rightarrow> nat \<Rightarrow> nat \<Rightarrow> string" where
  "dotted a b c d = show_nat a @ CHR ''.'' # show_nat b @ CHR ''.'' # show_nat c @ CHR ''.'' # show_nat d"

lemma show_nat_length: "n < 1000 \<Longrightarrow> length (show_nat n) \<le> 3"
  by (simp add: show_nat.simps [of n] show_nat.simps [of "n div 10"] show_nat.simps [of "n div 10 div 10"])

lemma parse_octet_show:
  assumes "n < 256"
  shows "parse_octet (show_nat n) = Some n"
proof -
  have "show_nat n = ''0'' \<or> hd (show_nat n) \<noteq> CHR ''0''"
  proof (cases "n = 0")
    case True
    then show ?thesis by (simp add: show_nat.simps digit_char_def)
  next
    case False
    then show ?thesis using show_nat_head by simp
  qed
  moreover have "length (show_nat n) \<le> 3"
    using assms by (intro show_nat_length) simp
  ultimately show ?thesis
    using assms by (auto simp: parse_octet_def show_nat_nonempty show_nat_digits int_of_show_nat Let_def)
qed

lemma py_split_join: "c \<notin> set w \<Longrightarrow> py_split c (w @ c # s) = w # py_split c s"
  by (induction w) auto

lemma parse_v4_dotted:
  assumes "a < 256" "b < 256" "c < 256" "d < 256"
  shows "parse_v4 (dotted a b c d) = Some (v4 a b c d)"
proof -
  have dot: "CHR ''.'' \<notin> set (show_nat n)" for n
    by (rule show_nat_no) (simp add: is_digit_def)
  have "py_split CHR ''.'' (dotted a b c d) = [show_nat a, show_nat b, show_nat c, show_nat d]"
    unfolding dotted_def by (simp add: py_split_join dot py_split_absent)
  with assms show ?thesis by (simp add: parse_v4_def parse_octet_show)
qed

lemma set_dotted: "x \<in> set (dotted a b c d) \<Longrightarrow> x = CHR ''.'' \<or> is_digit x"
  using show_nat_digits by (auto simp: dotted_def list_all_iff)

end
