(* ===== verification/Uuid.thy ===== *)
theory Uuid
  imports Prelude
begin

text \<open>
  Identifiers.  Every primary key of the program is a \<open>uuid.UUID\<close>: 128 bits, here a word.  The
  handlers print one with \<open>str\<close> (into Kafka messages, Redis keys and responses) and read one
  back with \<open>uuid.UUID\<close>; both follow the standard library, with its liberal input syntax.
\<close>

type_synonym uuid = "128 word"

definition hex_char :: "nat \<Rightarrow> char" where
  "hex_char d = (if d < 10 then char_of (48 + d) else char_of (87 + d))"

definition hex_val :: "char \<Rightarrow> nat option" where
  "hex_val c =
     (if 48 \<le> ch c \<and> ch c \<le> 57 then Some (ch c - 48)
      else if 97 \<le> ch c \<and> ch c \<le> 102 then Some (ch c - 87)
      else if 65 \<le> ch c \<and> ch c \<le> 70 then Some (ch c - 55)
      else None)"

text \<open>\<open>'%0kx' % n\<close>: the last \<open>k\<close> hexadecimal digits of \<open>n\<close>.\<close>

fun to_hex :: "nat \<Rightarrow> nat \<Rightarrow> string" where
  "to_hex 0 n = []"
| "to_hex (Suc k) n = to_hex k (n div 16) @ [hex_char (n mod 16)]"

definition uuid_str :: "uuid \<Rightarrow> string" where
  "uuid_str u =
     (let h = to_hex 32 (unat u)
      in take 8 h @ ''-'' @ take 4 (drop 8 h) @ ''-'' @ take 4 (drop 12 h) @ ''-''
           @ take 4 (drop 16 h) @ ''-'' @ drop 20 h)"

text \<open>
  \<open>int(s, 16)\<close>: surrounding white space, a sign, a \<open>0x\<close> prefix and single underscores between
  digits are accepted.  The flag says whether an underscore may come next.
\<close>

fun read_hex :: "bool \<Rightarrow> nat \<Rightarrow> string \<Rightarrow> nat option" where
  "read_hex ok acc [] = (if ok then Some acc else None)"
| "read_hex ok acc (c # cs) =
     (if c = CHR ''_'' then (if ok then read_hex False acc cs else None)
      else case hex_val c of None \<Rightarrow> None | Some d \<Rightarrow> read_hex True (16 * acc + d) cs)"

definition int_base16 :: "string \<Rightarrow> int option" where
  "int_base16 s =
     (let t = py_strip is_space s;
          neg = starts_with t ''-'';
          u = (if neg \<or> starts_with t ''+'' then tl t else t);
          v = (if starts_with (py_lower u) ''0x'' then drop 2 u else u);
          w = (if starts_with (py_lower u) ''0x'' \<and> starts_with v ''_'' then tl v else v)
      in map_option (\<lambda>n. if neg then - int n else int n) (read_hex False 0 w))"

definition uuid_parse :: "string \<Rightarrow> uuid res" where
  "uuid_parse s =
     (let h = remove_char CHR ''-''
                (py_strip (\<lambda>c. c \<in> set ''{}'') (remove_sub ''uuid:'' (remove_sub ''urn:'' s)))
      in if length h \<noteq> 32 then Inl (ValueError ''badly formed hexadecimal UUID string'')
         else case int_base16 h of
           None \<Rightarrow> Inl (ValueError ''invalid literal for int() with base 16'')
         | Some i \<Rightarrow> if 0 \<le> i \<and> i < 2 ^ 128 then Inr (word_of_int i)
                     else Inl (ValueError ''int is out of range (need a 128-bit value)''))"

section \<open>Printing and reading back\<close>

lemma hex_val_char [simp]: "d < 16 \<Longrightarrow> hex_val (hex_char d) = Some d"
  by (auto simp: hex_val_def hex_char_def)

lemma ch_hex_char: "d < 16 \<Longrightarrow> ch (hex_char d) = (if d < 10 then 48 + d else 87 + d)"
  by (simp add: hex_char_def)

lemma length_to_hex [simp]: "length (to_hex k n) = k"
  by (induction k arbitrary: n) auto

lemma set_to_hex: "c \<in> set (to_hex k n) \<Longrightarrow> \<exists>d < 16. c = hex_char d"
  by (induction k arbitrary: n) (auto intro: exI [of _ "n mod 16" for n])

lemma ch_to_hex:
  assumes "c \<in> set (to_hex k n)"
  shows "48 \<le> ch c \<and> ch c \<le> 57 \<or> 97 \<le> ch c \<and> ch c \<le> 102"
proof -
  from assms obtain d where "d < 16" "c = hex_char d"
    using set_to_hex by blast
  then show ?thesis by (auto simp: ch_hex_char)
qed

lemma to_hex_noteq: "ch x < 48 \<or> 57 < ch x \<and> ch x < 97 \<or> 102 < ch x \<Longrightarrow> x \<notin> set (to_hex k n)"
  using ch_to_hex by fastforce

lemma read_hex_append:
  "read_hex ok acc (to_hex k n @ s) =
     (if k = 0 then read_hex ok acc s else read_hex True (16 ^ k * acc + n mod 16 ^ k) s)"
proof (induction k arbitrary: n s acc ok)
  case 0
  then show ?case by simp
next
  case (Suc k)
  have us: "hex_char (n mod 16) \<noteq> CHR ''_''"
  proof
    assume "hex_char (n mod 16) = CHR ''_''"
    then have "ch (hex_char (n mod 16)) = 95" by simp
    then show False by (simp add: ch_hex_char split: if_splits)
  qed
  have mod: "n mod (16 * 16 ^ k) = 16 * (n div 16 mod 16 ^ k) + n mod 16"
    by (simp add: mod_mult2_eq)
  show ?case
    using us by (cases "k = 0") (simp_all add: Suc.IH mod algebra_simps)
qed

lemma read_hex_to_hex: "n < 16 ^ k \<Longrightarrow> 0 < k \<Longrightarrow> read_hex False 0 (to_hex k n) = Some n"
  using read_hex_append [of False 0 k n "[]"] by simp

lemma int_base16_to_hex:
  assumes "n < 16 ^ k" "0 < k"
  shows "int_base16 (to_hex k n) = Some (int n)"
proof -
  let ?h = "to_hex k n"
  have nospace: "py_strip is_space ?h = ?h"
    by (rule py_strip_absent) (auto simp: is_space_def dest!: ch_to_hex)
  from assms(2) obtain c cs where h: "?h = c # cs"
    by (metis length_to_hex length_greater_0_conv neq_Nil_conv)
  have sign: "\<not> starts_with ?h ''-''" "\<not> starts_with ?h ''+''"
    using ch_to_hex [of c k n] by (auto simp: h starts_with_def)
  have nox: "\<not> starts_with (py_lower ?h) ''0x''"
  proof
    assume "starts_with (py_lower ?h) ''0x''"
    then obtain y ys where cs: "cs = y # ys" and y: "lower_char y = CHR ''x''"
      by (cases cs) (auto simp: h starts_with_def py_lower_def)
    from cs h have "y \<in> set ?h" by simp
    then have "48 \<le> ch y \<and> ch y \<le> 57 \<or> 97 \<le> ch y \<and> ch y \<le> 102" by (rule ch_to_hex)
    moreover from y have "ch (lower_char y) = 120" by simp
    ultimately show False by (auto simp: lower_char_def)
  qed
  show ?thesis
    using sign nox by (simp add: int_base16_def nospace Let_def read_hex_to_hex [OF assms])
qed

lemma remove_char_uuid_str: "remove_char CHR ''-'' (uuid_str u) = to_hex 32 (unat u)"
proof -
  let ?h = "to_hex 32 (unat u)"
  have keep: "filter (\<lambda>x. x \<noteq> CHR ''-'') s = s" if "set s \<subseteq> set ?h" for s
    using that to_hex_noteq [of "CHR ''-''" 32 "unat u"] by (auto simp: filter_id_conv)
  have sub: "set (take m (drop j ?h)) \<subseteq> set ?h" "set (take m ?h) \<subseteq> set ?h"
    "set (drop j ?h) \<subseteq> set ?h" for m j
    by (meson in_set_dropD in_set_takeD subsetI)+
  have "remove_char CHR ''-'' (uuid_str u) =
      take 8 ?h @ take 4 (drop 8 ?h) @ take 4 (drop 12 ?h) @ take 4 (drop 16 ?h) @ drop 20 ?h"
    by (simp add: remove_char_def uuid_str_def Let_def keep sub)
  also have "\<dots> = ?h"
    using take_drop_join [of 4 16 ?h] take_drop_join [of 4 12 ?h] take_drop_join [of 4 8 ?h]
      append_take_drop_id [of 8 ?h] by simp
  finally show ?thesis .
qed

lemma set_uuid_str: "c \<in> set (uuid_str u) \<Longrightarrow> c = CHR ''-'' \<or> c \<in> set (to_hex 32 (unat u))"
  by (auto simp: uuid_str_def Let_def dest: in_set_takeD in_set_dropD)

lemma uuid_str_noteq:
  assumes "ch x < 48 \<or> 57 < ch x \<and> ch x < 97 \<or> 102 < ch x" "x \<noteq> CHR ''-''"
  shows "x \<notin> set (uuid_str u)"
  using set_uuid_str to_hex_noteq [OF assms(1)] assms(2) by blast

lemma length_uuid_str: "length (uuid_str u) = 36"
  by (simp add: uuid_str_def Let_def)

lemma uuid_parse_str [simp]: "uuid_parse (uuid_str u) = Inr u"
proof -
  have u: "CHR ''u'' \<notin> set (uuid_str u)"
    by (rule uuid_str_noteq) simp_all
  have nosub: "remove_sub ''uuid:'' (remove_sub ''urn:'' (uuid_str u)) = uuid_str u"
    using u by (simp add: remove_sub_absent)
  have "CHR ''{'' \<notin> set (uuid_str u)" "CHR ''}'' \<notin> set (uuid_str u)"
    by (rule uuid_str_noteq; simp)+
  then have strip: "py_strip (\<lambda>c. c \<in> set ''{}'') (uuid_str u) = uuid_str u"
    by (intro py_strip_absent) auto
  have "unat u < 2 ^ 128"
    using unsigned_less [of u, where ?'a = nat] by simp
  then have bound: "unat u < 16 ^ 32" by simp
  have "int (unat u) < 2 ^ 128"
    using \<open>unat u < 2 ^ 128\<close> by (metis of_nat_less_iff of_nat_numeral of_nat_power)
  then show ?thesis
    using bound
    by (simp only: uuid_parse_def nosub strip remove_char_uuid_str Let_def length_to_hex
        int_base16_to_hex [OF bound] option.case) simp
qed

lemma uuid_str_inj: "uuid_str u = uuid_str v \<longleftrightarrow> u = v"
  by (metis uuid_parse_str Inr_inject)

end
