(* ===== verification/Data_Model.thy ===== *)
theory Data_Model
  imports Uuid Json
begin

text \<open>
  The tables of \<open>app/models\<close>: a record per row type, the database as the lists of its rows in
  insertion order, the declared constraints (primary keys, unique columns, foreign keys, column
  widths), and \<open>commit\<close>.  A column declared NOT NULL has a plain type, a nullable one an option.
  PostgreSQL is not part of the sources; what is modelled of it is what the declarations ask
  for.
\<close>

section \<open>Identifiers in payloads\<close>

text \<open>\<open>uuid.UUID(v)\<close> of a value that is no text raises an \<open>AttributeError\<close>.\<close>

definition json_uuid :: "json \<Rightarrow> uuid res" where
  "json_uuid v = (case v of JStr s \<Rightarrow> uuid_parse s | _ \<Rightarrow> Inl (OtherError ''AttributeError'' ''replace''))"

section \<open>Rows\<close>

record user_row =
  u_id :: uuid
  u_email :: string
  u_display_name :: string
  u_password_hash :: string
  u_is_active :: bool
  u_created_at :: time
  u_updated_at :: time

record workspace_row =
  ws_id :: uuid
  ws_name :: string
  ws_slug :: string
  ws_created_at :: time
  ws_updated_at :: time

record membership_row =
  mb_user_id :: uuid
  mb_workspace_id :: uuid
  mb_role :: string
  mb_joined_at :: time

record endpoint_row =
  ep_id :: uuid
  ep_workspace_id :: uuid
  ep_name :: string
  ep_hmac_secret :: string
  ep_is_active :: bool
  ep_rate_limit_rps :: "int option"
  ep_ip_allowlist :: "string list option"
  ep_request_body_schema :: "string option"
  ep_created_at :: time
  ep_updated_at :: time

record route_row =
  rt_id :: uuid
  rt_endpoint_id :: uuid
  rt_name :: string
  rt_url :: string
  rt_method :: string
  rt_headers :: "(string \<times> string) list option"
  rt_transform_pipeline :: "dict list option"
  rt_rate_limit_rpm :: "int option"
  rt_timeout_ms :: int
  rt_max_retries :: int
  rt_retry_backoff_ms :: int
  rt_is_active :: bool
  rt_filter_expression :: "string option"
  rt_created_at :: time

record event_row =
  ev_id :: uuid
  ev_endpoint_id :: uuid
  ev_idempotency_key :: "string option"
  ev_request_body :: json
  ev_request_headers :: "(string \<times> string) list option"
  ev_status :: string
  ev_retry_at :: "time option"
  ev_received_at :: time
  ev_is_discarded :: bool
  ev_discarded_at :: "time option"

record attempt_row =
  at_id :: uuid
  at_event_id :: uuid
  at_route_id :: uuid
  at_attempt_number :: int
  at_request_url :: string
  at_request_body :: json
  at_response_status :: "int option"
  at_response_body :: "string option"
  at_error :: "string option"
  at_duration_ms :: "int option"
  at_attempted_at :: time

record outbox_row =
  ob_id :: uuid
  ob_event_id :: uuid
  ob_status :: string
  ob_publish_key :: string
  ob_publish_topic :: string
  ob_attempts :: int
  ob_last_error :: "string option"
  ob_created_at :: time
  ob_processed_at :: "time option"

record db =
  users :: "user_row list"
  workspaces :: "workspace_row list"
  memberships :: "membership_row list"
  endpoints :: "endpoint_row list"
  routes :: "route_row list"
  events :: "event_row list"
  attempts :: "attempt_row list"
  outbox :: "outbox_row list"

definition empty_db :: db where
  "empty_db = \<lparr>users = [], workspaces = [], memberships = [], endpoints = [], routes = [], events = [],
     attempts = [], outbox = []\<rparr>"

section \<open>Lookups\<close>

text \<open>\<open>session.get\<close> and \<open>scalar_one_or_none\<close> on a unique column: the first row with that key.\<close>

definition by_key :: "('r \<Rightarrow> 'k) \<Rightarrow> 'k \<Rightarrow> 'r list \<Rightarrow> 'r option" where
  "by_key f k rows = find (\<lambda>r. f r = k) rows"

abbreviation mb_key :: "membership_row \<Rightarrow> uuid \<times> uuid" where
  "mb_key m \<equiv> (mb_user_id m, mb_workspace_id m)"

text \<open>The update of the row with a given key, and its removal.\<close>

definition put_row :: "('r \<Rightarrow> 'k) \<Rightarrow> 'r \<Rightarrow> 'r list \<Rightarrow> 'r list" where
  "put_row f r rows = map (\<lambda>x. if f x = f r then r else x) rows"

definition drop_row :: "('r \<Rightarrow> 'k) \<Rightarrow> 'k \<Rightarrow> 'r list \<Rightarrow> 'r list" where
  "drop_row f k rows = filter (\<lambda>x. f x \<noteq> k) rows"

section \<open>Constraints\<close>

definition keyed :: "('r \<Rightarrow> 'k) \<Rightarrow> 'r list \<Rightarrow> bool" where
  "keyed f rows = distinct (map f rows)"

definition refers :: "('r \<Rightarrow> 'k) \<Rightarrow> 'r list \<Rightarrow> ('q \<Rightarrow> 'k) \<Rightarrow> 'q list \<Rightarrow> bool" where
  "refers f rows g targets = list_all (\<lambda>r. f r \<in> set (map g targets)) rows"

definition integrity :: "db \<Rightarrow> bool" where
  "integrity d \<longleftrightarrow>
     keyed u_id (users d) \<and> keyed u_email (users d) \<and>
     keyed ws_id (workspaces d) \<and> keyed ws_slug (workspaces d) \<and>
     keyed mb_key (memberships d) \<and>
     refers mb_user_id (memberships d) u_id (users d) \<and>
     refers mb_workspace_id (memberships d) ws_id (workspaces d) \<and>
     keyed ep_id (endpoints d) \<and> refers ep_workspace_id (endpoints d) ws_id (workspaces d) \<and>
     keyed rt_id (routes d) \<and> refers rt_endpoint_id (routes d) ep_id (endpoints d) \<and>
     keyed ev_id (events d) \<and> refers ev_endpoint_id (events d) ep_id (endpoints d) \<and>
     keyed at_id (attempts d) \<and> refers at_event_id (attempts d) ev_id (events d) \<and>
     refers at_route_id (attempts d) rt_id (routes d) \<and>
     keyed ob_id (outbox d) \<and> refers ob_event_id (outbox d) ev_id (events d)"

text \<open>Column widths: \<open>VARCHAR(n)\<close> and the 32 bits of an \<open>INTEGER\<close>.\<close>

definition int4 :: "int \<Rightarrow> bool" where
  "int4 i \<longleftrightarrow> - (2 ^ 31) \<le> i \<and> i < 2 ^ 31"

definition short :: "string \<Rightarrow> bool" where
  "short s \<longleftrightarrow> length s \<le> 255"

definition opt_ok :: "('a \<Rightarrow> bool) \<Rightarrow> 'a option \<Rightarrow> bool" where
  "opt_ok p x = (case x of None \<Rightarrow> True | Some v \<Rightarrow> p v)"

definition fits_user :: "user_row \<Rightarrow> bool" where
  "fits_user u \<longleftrightarrow> short (u_email u) \<and> short (u_display_name u) \<and> short (u_password_hash u)"

definition fits_workspace :: "workspace_row \<Rightarrow> bool" where
  "fits_workspace w \<longleftrightarrow> short (ws_name w) \<and> short (ws_slug w)"

definition fits_membership :: "membership_row \<Rightarrow> bool" where
  "fits_membership m \<longleftrightarrow> length (mb_role m) \<le> 20"

definition fits_endpoint :: "endpoint_row \<Rightarrow> bool" where
  "fits_endpoint e \<longleftrightarrow> short (ep_name e) \<and> short (ep_hmac_secret e) \<and> opt_ok int4 (ep_rate_limit_rps e)"

definition fits_route :: "route_row \<Rightarrow> bool" where
  "fits_route r \<longleftrightarrow>
     short (rt_name r) \<and> length (rt_method r) \<le> 10 \<and> opt_ok int4 (rt_rate_limit_rpm r) \<and>
     int4 (rt_timeout_ms r) \<and> int4 (rt_max_retries r) \<and> int4 (rt_retry_backoff_ms r)"

definition fits_event :: "event_row \<Rightarrow> bool" where
  "fits_event e \<longleftrightarrow> opt_ok short (ev_idempotency_key e) \<and> length (ev_status e) \<le> 32"

definition fits_attempt :: "attempt_row \<Rightarrow> bool" where
  "fits_attempt a \<longleftrightarrow>
     int4 (at_attempt_number a) \<and> opt_ok int4 (at_response_status a) \<and> opt_ok int4 (at_duration_ms a)"

definition fits_outbox :: "outbox_row \<Rightarrow> bool" where
  "fits_outbox r \<longleftrightarrow>
     length (ob_status r) \<le> 16 \<and> short (ob_publish_key r) \<and> short (ob_publish_topic r) \<and>
     int4 (ob_attempts r)"

definition fits :: "db \<Rightarrow> bool" where
  "fits d \<longleftrightarrow>
     list_all fits_user (users d) \<and> list_all fits_workspace (workspaces d) \<and>
     list_all fits_membership (memberships d) \<and> list_all fits_endpoint (endpoints d) \<and>
     list_all fits_route (routes d) \<and> list_all fits_event (events d) \<and>
     list_all fits_attempt (attempts d) \<and> list_all fits_outbox (outbox d)"

section \<open>Transactions\<close>

text \<open>
  The end of a transaction: the database with the session's changes, or the exception and the
  database as it was.  \<open>fault\<close> is a failure of the connection.
\<close>

definition commit :: "exc option \<Rightarrow> db \<Rightarrow> db res" where
  "commit fault d =
     (case fault of
        Some e \<Rightarrow> Inl e
      | None \<Rightarrow> if \<not> fits d then Inl (OtherError ''DBAPIError'' ''value out of range'')
                else if \<not> integrity d then Inl IntegrityError else Inr d)"

definition committed :: "db \<Rightarrow> db res \<Rightarrow> db" where
  "committed before r = (case r of Inl e \<Rightarrow> before | Inr d \<Rightarrow> d)"

definition db_ok :: "db \<Rightarrow> bool" where
  "db_ok d \<longleftrightarrow> fits d \<and> integrity d"

lemma db_ok_store:
  assumes "db_ok d" and "ev_id ev \<notin> ev_id ` set (events d)" and "ob_id ob \<notin> ob_id ` set (outbox d)"
    and "fits_event ev" and "fits_outbox ob" and "ev_endpoint_id ev \<in> ep_id ` set (endpoints d)" and "ob_event_id ob = ev_id ev"
  shows "db_ok (d\<lparr>events := events d @ [ev], outbox := outbox d @ [ob]\<rparr>)"
  using assms by (auto simp: db_ok_def fits_def integrity_def keyed_def refers_def list_all_iff)

lemma integrity_refers:
  "integrity d \<Longrightarrow> ev \<in> set (events d) \<Longrightarrow> ev_endpoint_id ev \<in> ep_id ` set (endpoints d)"
  "integrity d \<Longrightarrow> att \<in> set (attempts d) \<Longrightarrow> at_route_id att \<in> rt_id ` set (routes d)"
  "integrity d \<Longrightarrow> att \<in> set (attempts d) \<Longrightarrow> at_event_id att \<in> ev_id ` set (events d)"
  "integrity d \<Longrightarrow> ob \<in> set (outbox d) \<Longrightarrow> ob_event_id ob \<in> ev_id ` set (events d)"
  "integrity d \<Longrightarrow> e \<in> set (endpoints d) \<Longrightarrow> ep_workspace_id e \<in> ws_id ` set (workspaces d)"
  "integrity d \<Longrightarrow> r \<in> set (routes d) \<Longrightarrow> rt_endpoint_id r \<in> ep_id ` set (endpoints d)"
  by (auto simp: integrity_def refers_def list_all_iff)

lemma commit_ok: "commit f d = Inr d' \<longleftrightarrow> f = None \<and> db_ok d \<and> d' = d"
  by (auto simp: commit_def db_ok_def split: option.splits if_splits)

lemma committed_ok: "db_ok before \<Longrightarrow> db_ok (committed before (commit f d))"
  by (cases "commit f d") (auto simp: committed_def dest: commit_ok [THEN iffD1])

lemma empty_db_ok: "db_ok empty_db"
  by (simp add: db_ok_def fits_def integrity_def empty_db_def keyed_def refers_def)

section \<open>Lemmas on rows\<close>

lemma by_key_Some: "by_key f k rows = Some r \<Longrightarrow> r \<in> set rows \<and> f r = k"
  by (auto simp: by_key_def find_Some_iff)

lemma by_key_None: "by_key f k rows = None \<longleftrightarrow> k \<notin> f ` set rows"
  by (auto simp: by_key_def find_None_iff)

lemma by_key_in:
  "keyed f rows \<Longrightarrow> r \<in> set rows \<Longrightarrow> by_key f (f r) rows = Some r"
proof (induction rows)
  case Nil
  then show ?case by simp
next
  case (Cons x xs)
  then show ?case
    by (cases "f x = f r") (auto simp: by_key_def keyed_def)
qed

lemma map_put_row [simp]: "map f (put_row f r rows) = map f rows"
  by (simp add: put_row_def comp_def)

lemma length_put_row [simp]: "length (put_row f r rows) = length rows"
  by (simp add: put_row_def)

lemma set_put_row: "x \<in> set (put_row f r rows) \<Longrightarrow> x = r \<or> x \<in> set rows \<and> f x \<noteq> f r"
  by (auto simp: put_row_def split: if_splits)

lemma put_row_absent: "f r \<notin> f ` set rows \<Longrightarrow> put_row f r rows = rows"
  by (induction rows) (auto simp: put_row_def)

lemma set_drop_row: "x \<in> set (drop_row f k rows) \<longleftrightarrow> x \<in> set rows \<and> f x \<noteq> k"
  by (auto simp: drop_row_def)

lemma keyed_Cons: "keyed f (x # xs) \<longleftrightarrow> f x \<notin> f ` set xs \<and> keyed f xs"
  by (auto simp: keyed_def)

lemma keyed_append_new: "keyed f rows \<Longrightarrow> f r \<notin> f ` set rows \<Longrightarrow> keyed f (rows @ [r])"
  by (auto simp: keyed_def)

lemma by_key_put_row:
  "by_key f k rows \<noteq> None \<Longrightarrow> by_key f k (put_row f r rows) = (if f r = k then Some r else by_key f k rows)"
  by (induction rows) (auto simp: by_key_def put_row_def)

text \<open>A series of updates of different rows, each computed from the row itself.\<close>

lemma put_row_map:
  assumes "keyed f rows" "r \<in> set rows" "\<And>x. f (h x) = f x" "f y = f r"
  shows "put_row f y (map h rows) = map (\<lambda>x. if x = r then y else h x) rows"
proof -
  have "f x = f r \<longleftrightarrow> x = r" if "x \<in> set rows" for x
    using that assms(1,2) by (auto simp: keyed_def distinct_map inj_on_def)
  then show ?thesis
    using assms(3,4) by (auto simp: put_row_def)
qed

lemma fold_put_row:
  assumes "keyed f rows" "set rs \<subseteq> set rows" "distinct rs" "\<And>x. f (g x) = f x" "\<And>x. f (h x) = f x"
  shows "fold (\<lambda>r. put_row f (g r)) rs (map h rows) = map (\<lambda>x. if x \<in> set rs then g x else h x) rows"
  using assms(2,3,5)
proof (induction rs arbitrary: h)
  case Nil
  then show ?case by simp
next
  case (Cons r rs)
  let ?h = "\<lambda>x. if x = r then g r else h x"
  have "put_row f (g r) (map h rows) = map ?h rows"
    using put_row_map [OF assms(1), of r h "g r"] Cons.prems assms(4) by simp
  moreover have "f (?h x) = f x" for x
    using Cons.prems assms(4) by simp
  ultimately have "fold (\<lambda>r. put_row f (g r)) (r # rs) (map h rows) =
      map (\<lambda>x. if x \<in> set rs then g x else ?h x) rows"
    using Cons by simp
  also have "\<dots> = map (\<lambda>x. if x \<in> set (r # rs) then g x else h x) rows"
    by auto
  finally show ?case .
qed

lemma keyed_map: "(\<And>x. f (g x) = f x) \<Longrightarrow> keyed f (map g rows) \<longleftrightarrow> keyed f rows"
  by (simp add: keyed_def comp_def)

lemma refers_map_from: "(\<And>x. f (g x) = f x) \<Longrightarrow> refers f (map g rows) h targets \<longleftrightarrow> refers f rows h targets"
  by (simp add: refers_def list_all_iff)

lemma refers_map_to: "(\<And>x. h (g x) = h x) \<Longrightarrow> refers f rows h (map g targets) \<longleftrightarrow> refers f rows h targets"
  by (simp add: refers_def list_all_iff image_image)

lemmas refers_map = refers_map_from refers_map_to

end
