(* ===== verification/Hmac.thy ===== *)
theory Hmac
  imports Json
begin

text \<open>
  \<open>hmac.new(key, message, hashlib.sha256).hexdigest()\<close> of the standard library, on bytes, one \<^typ>\<open>char\<close>
  per byte; and \<open>str.encode()\<close>.  Words have 32 bits and their addition wraps round.  The constants of the
  hash are proved to be what its standard says: fractional parts of roots of the first primes.
\<close>

unbundle bit_operations_syntax

section \<open>Bytes and words\<close>

type_synonym w32 = "32 word"

text \<open>UTF-8 of a text whose code points are below 256.\<close>

definition utf8_char :: "char \<Rightarrow> string" where
  "utf8_char c = (if ch c < 128 then [c] else [char_of (192 + ch c div 64), char_of (128 + ch c mod 64)])"

definition utf8 :: "string \<Rightarrow> string" where
  "utf8 s = concat (map utf8_char s)"

fun big_endian :: "nat \<Rightarrow> int \<Rightarrow> string" where
  "big_endian 0 x = []"
| "big_endian (Suc n) x = big_endian n (x div 256) @ [char_of (nat (x mod 256))]"

fun words_of :: "string \<Rightarrow> w32 list" where
  "words_of (a # b # c # d # s) = of_int (((int (ch a) * 256 + int (ch b)) * 256 + int (ch c)) * 256 + int (ch d)) # words_of s"
| "words_of s = []"

definition rotate_right :: "nat \<Rightarrow> w32 \<Rightarrow> w32" where
  "rotate_right n x = (drop_bit n x OR push_bit (32 - n) x)"

section \<open>SHA-256\<close>

definition primes :: "int list" where
  "primes =
    [2, 3, 5, 7, 11, 13, 17, 19, 23, 29, 31, 37, 41, 43, 47, 53, 59, 61, 67, 71, 73, 79, 83, 89, 97,
     101, 103, 107, 109, 113, 127, 131, 137, 139, 149, 151, 157, 163, 167, 173, 179, 181, 191, 193, 197,
     199, 211, 223, 227, 229, 233, 239, 241, 251, 257, 263, 269, 271, 277, 281, 283, 293, 307, 311]"

definition round_constants :: "int list" where
  "round_constants =
    [1116352408, 1899447441, 3049323471, 3921009573, 961987163, 1508970993, 2453635748, 2870763221,
     3624381080, 310598401, 607225278, 1426881987, 1925078388, 2162078206, 2614888103, 3248222580,
     3835390401, 4022224774, 264347078, 604807628, 770255983, 1249150122, 1555081692, 1996064986,
     2554220882, 2821834349, 2952996808, 3210313671, 3336571891, 3584528711, 113926993, 338241895,
     666307205, 773529912, 1294757372, 1396182291, 1695183700, 1986661051, 2177026350, 2456956037,
     2730485921, 2820302411, 3259730800, 3345764771, 3516065817, 3600352804, 4094571909, 275423344,
     430227734, 506948616, 659060556, 883997877, 958139571, 1322822218, 1537002063, 1747873779,
     1955562222, 2024104815, 2227730452, 2361852424, 2428436474, 2756734187, 3204031479, 3329325298]"

definition start_values :: "int list" where
  "start_values =
    [1779033703, 3144134277, 1013904242, 2773480762, 1359893119, 2600822924, 528734635, 1541459225]"

type_synonym hash_state = "w32 \<times> w32 \<times> w32 \<times> w32 \<times> w32 \<times> w32 \<times> w32 \<times> w32"

definition hash_start :: hash_state where
  "hash_start = (let v = (\<lambda>i. of_int (start_values ! i)) in (v 0, v 1, v 2, v 3, v 4, v 5, v 6, v 7))"

definition pad_message :: "string \<Rightarrow> string" where
  "pad_message m =
     m @ [char_of (128 :: nat)] @ replicate ((119 - length m mod 64) mod 64) (char_of (0 :: nat)) @ big_endian 8 (8 * int (length m))"

text \<open>The message schedule, the latest word first.\<close>

fun extend_words :: "nat \<Rightarrow> w32 list \<Rightarrow> w32 list" where
  "extend_words 0 ws = ws"
| "extend_words (Suc n) ws =
     (let x = ws ! 1; y = ws ! 14;
          s1 = rotate_right 17 x XOR rotate_right 19 x XOR drop_bit 10 x;
          s0 = rotate_right 7 y XOR rotate_right 18 y XOR drop_bit 3 y
      in extend_words n ((s1 + ws ! 6 + s0 + ws ! 15) # ws))"

fun hash_round :: "hash_state \<Rightarrow> w32 \<Rightarrow> hash_state" where
  "hash_round (a, b, c, d, e, f, g, h) kw =
     (let s1 = rotate_right 6 e XOR rotate_right 11 e XOR rotate_right 25 e;
          t1 = h + s1 + ((e AND f) XOR (NOT e AND g)) + kw;
          s0 = rotate_right 2 a XOR rotate_right 13 a XOR rotate_right 22 a;
          t2 = s0 + ((a AND b) XOR (a AND c) XOR (b AND c))
      in (t1 + t2, a, b, c, d + t1, e, f, g))"

fun add_state :: "hash_state \<Rightarrow> hash_state \<Rightarrow> hash_state" where
  "add_state (a, b, c, d, e, f, g, h) (a', b', c', d', e', f', g', h') =
     (a + a', b + b', c + c', d + d', e + e', f + f', g + g', h + h')"

definition hash_block :: "hash_state \<Rightarrow> w32 list \<Rightarrow> hash_state" where
  "hash_block st block =
     add_state st (foldl hash_round st (map2 (\<lambda>k w. of_int k + w) round_constants (rev (extend_words 48 (rev block)))))"

fun hash_blocks :: "nat \<Rightarrow> hash_state \<Rightarrow> w32 list \<Rightarrow> hash_state" where
  "hash_blocks 0 st ws = st"
| "hash_blocks (Suc n) st ws = hash_blocks n (hash_block st (take 16 ws)) (drop 16 ws)"

fun state_bytes :: "hash_state \<Rightarrow> string" where
  "state_bytes (a, b, c, d, e, f, g, h) = concat (map (\<lambda>x. big_endian 4 (uint x)) [a, b, c, d, e, f, g, h])"

definition sha256 :: "string \<Rightarrow> string" where
  "sha256 m = (let ws = words_of (pad_message m) in state_bytes (hash_blocks (length ws div 16) hash_start ws))"

section \<open>HMAC\<close>

definition xor_pad :: "nat \<Rightarrow> string \<Rightarrow> string" where
  "xor_pad p key = map (\<lambda>c. char_of (p XOR ch c)) key"

definition hmac_key :: "string \<Rightarrow> string" where
  "hmac_key key = (let k = (if 64 < length key then sha256 key else key) in k @ replicate (64 - length k) (char_of (0 :: nat)))"

definition hexdigest :: "string \<Rightarrow> string" where
  "hexdigest bytes = concat (map (\<lambda>c. hex2 (ch c)) bytes)"

definition hmac_sha256 :: "string \<Rightarrow> string \<Rightarrow> string" where
  "hmac_sha256 key m =
     (let k = hmac_key key in hexdigest (sha256 (xor_pad 92 k @ sha256 (xor_pad 54 k @ m))))"


section \<open>The constants\<close>

text \<open>
  The first 32 bits after the point of the cube roots of the first 64 primes, and of the square roots of
  the first eight.
\<close>

definition root_bits :: "nat \<Rightarrow> int \<Rightarrow> int \<Rightarrow> int \<Rightarrow> bool" where
  "root_bits n p whole bits \<longleftrightarrow>
     0 \<le> bits \<and> bits < 2 ^ 32 \<and> (whole * 2 ^ 32 + bits) ^ n \<le> p * 2 ^ (32 * n) \<and> p * 2 ^ (32 * n) < (whole * 2 ^ 32 + bits + 1) ^ n"

lemma hash_constants:
  "list_all2 (\<lambda>p k. \<exists>whole \<in> {1..6}. root_bits 3 p whole k) primes round_constants"
  "list_all2 (\<lambda>p k. \<exists>whole \<in> {1..4}. root_bits 2 p whole k) (take 8 primes) start_values"
  by code_simp+

section \<open>The shape of a digest\<close>

lemma length_big_endian [simp]: "length (big_endian n x) = n"
  by (induction n x rule: big_endian.induct) auto

lemma length_state_bytes: "length (state_bytes st) = 32"
  by (cases st rule: state_bytes.cases) simp

lemma length_sha256 [simp]: "length (sha256 m) = 32"
  by (simp add: sha256_def Let_def length_state_bytes)

lemma length_hmac_key [simp]: "length (hmac_key key) = 64"
  by (simp add: hmac_key_def Let_def)

text \<open>The padded message is a whole number of blocks of 64 bytes.\<close>

lemma length_pad_message: "length (pad_message m) mod 64 = 0"
proof -
  define q r where "q = length m div 64" and "r = length m mod 64"
  have m: "length m = 64 * q + r" and r: "r < 64" by (simp_all add: q_def r_def)
  have "length (pad_message m) = length m + 9 + (119 - r) mod 64"
    by (simp add: pad_message_def r_def)
  moreover have "(119 - r) mod 64 = (if r \<le> 55 then 55 - r else 119 - r)"
    using r by (auto simp: mod_if)
  ultimately have "length (pad_message m) = 64 * (if r \<le> 55 then q + 1 else q + 2)"
    using m r by simp
  then show ?thesis by simp
qed

definition hex_digits :: "string" where
  "hex_digits = ''0123456789abcdef''"

lemma hex2_hex: "n < 256 \<Longrightarrow> length (hex2 n) = 2 \<and> set (hex2 n) \<subseteq> set hex_digits"
proof -
  assume n: "n < 256"
  have "list_all (\<lambda>d. (if d < 10 then char_of (48 + d) else char_of (87 + d)) \<in> set hex_digits) [0..<16]"
    by code_simp
  then have digit: "(if d < 10 then char_of (48 + d) else char_of (87 + d :: nat)) \<in> set hex_digits" if "d < 16" for d :: nat
    using that by (simp add: list_all_iff)
  have "n div 16 < 16" "n mod 16 < 16" using n by auto
  then show ?thesis using digit by (simp add: hex2_def Let_def)
qed

lemma hexdigest_hex: "length (hexdigest b) = 2 * length b \<and> set (hexdigest b) \<subseteq> set hex_digits"
proof (induction b)
  case (Cons c b)
  then show ?case using hex2_hex [OF ch_bound, of c] by (simp add: hexdigest_def)
qed (simp add: hexdigest_def)

lemma hex_ascii: "set s \<subseteq> set hex_digits \<Longrightarrow> is_ascii s"
proof -
  have "list_all (\<lambda>c. ch c < 128) hex_digits" by (simp add: hex_digits_def)
  then show "set s \<subseteq> set hex_digits \<Longrightarrow> is_ascii s" by (auto simp: is_ascii_def list_all_iff)
qed

lemma hmac_hex: "length (hmac_sha256 key m) = 64 \<and> set (hmac_sha256 key m) \<subseteq> set hex_digits"
  using hexdigest_hex by (simp add: hmac_sha256_def Let_def)

lemma hmac_length [simp]: "length (hmac_sha256 key m) = 64"
  using hmac_hex by blast

lemma hmac_ascii [simp]: "is_ascii (hmac_sha256 key m)"
  using hmac_hex hex_ascii by blast

lemma hmac_nonempty [simp]: "hmac_sha256 key m \<noteq> []"
  using hmac_length [of key m] by fastforce

lemma utf8_ascii: "is_ascii s \<Longrightarrow> utf8 s = s"
  by (induction s) (simp_all add: utf8_def utf8_char_def is_ascii_def)

end
