(* ===== verification/Gateway.thy ===== *)
theory Gateway
  imports Rate_Limiter Ip_Address Data_Model Hmac
begin

text \<open>
  The webhook gateway of \<open>app/gateway/handler.py\<close>: the bounded reading of the body, the client
  allow-list, the signature, the payload and its schema, the de-duplication, and the transaction
  that stores the event with its outbox record.  The JSON parser, on the raw bytes, and the schema
  validator are parameters.  The state is the Redis handle and the database.
\<close>

section \<open>Inputs\<close>

record webhook_request =
  wr_chunks :: "string list"
  wr_client :: "string option"
  wr_headers :: "(string \<times> string) list"

record 's gateway_env =
  ge_redis :: "'s redis_ops"
  ge_cfg :: settings
  ge_json_loads :: "string \<Rightarrow> json res"
  ge_schema :: "json \<Rightarrow> json \<Rightarrow> unit res"

text \<open>What a request draws from outside: fresh identifiers, the instant, a fault of the commit.\<close>

record draw =
  dr_now :: time
  dr_member :: string
  dr_event_id :: uuid
  dr_outbox_id :: uuid
  dr_fault :: "exc option"

datatype webhook_answer = Accepted uuid | Duplicate

text \<open>\<open>request.headers.get\<close>: the names are compared without case, the first one counts.\<close>

definition header_get :: "string \<Rightarrow> (string \<times> string) list \<Rightarrow> string option" where
  "header_get name headers = map_option snd (find (\<lambda>p. py_lower (fst p) = name) headers)"

section \<open>The operations\<close>

fun read_chunks :: "int \<Rightarrow> string \<Rightarrow> string list \<Rightarrow> string res" where
  "read_chunks limit body [] = Inr body"
| "read_chunks limit body (chunk # chunks) =
     (let body' = body @ chunk
      in if limit < int (length body') then Inl (HTTPException 413 ''request body too large'')
         else read_chunks limit body' chunks)"

definition read_limited_body :: "settings \<Rightarrow> webhook_request \<Rightarrow> string res" where
  "read_limited_body cfg request = read_chunks (max_webhook_body_bytes cfg) [] (wr_chunks request)"

definition client_ip_allowed :: "string option \<Rightarrow> string list option \<Rightarrow> bool" where
  "client_ip_allowed client allowlist =
     (case allowlist of
        None \<Rightarrow> True
      | Some entries \<Rightarrow>
          if entries = [] then True
          else (case client of
                  None \<Rightarrow> False
                | Some host \<Rightarrow>
                    if host = [] then False
                    else (case ip_address host of
                            None \<Rightarrow> False
                          | Some ip \<Rightarrow>
                              list_ex (\<lambda>entry. case ip_network entry of None \<Rightarrow> False | Some net \<Rightarrow> in_net ip net)
                                entries)))"

definition find_endpoint :: "db \<Rightarrow> string \<Rightarrow> webhook_request \<Rightarrow> endpoint_row res" where
  "find_endpoint d endpoint_id request =
     (case uuid_parse endpoint_id of
        Inl e \<Rightarrow> Inl (HTTPException 400 ''invalid endpoint id'')
      | Inr uid \<Rightarrow>
          (case by_key ep_id uid (endpoints d) of
             None \<Rightarrow> Inl (HTTPException 404 ''endpoint not found'')
           | Some endpoint \<Rightarrow>
               if \<not> ep_is_active endpoint then Inl (HTTPException 410 ''endpoint is disabled'')
               else if \<not> client_ip_allowed (wr_client request) (ep_ip_allowlist endpoint)
               then Inl (HTTPException 403 ''sender ip is not allowed'')
               else Inr endpoint))"

text \<open>The rate limit of the endpoint, per minute; a limit that allows nothing is answered without Redis.\<close>

definition check_rate :: "'s gateway_env \<Rightarrow> draw \<Rightarrow> endpoint_row \<Rightarrow> 's option \<Rightarrow> unit res \<times> 's option" where
  "check_rate E dr endpoint redis =
     (case ep_rate_limit_rps endpoint of
        None \<Rightarrow> (Inr (), redis)
      | Some rps \<Rightarrow>
          if rps * 60 \<le> 0 then (Inl (HTTPException 429 ''endpoint rate limit exceeded''), redis)
          else (case get_redis redis of
                  Inl e \<Rightarrow> (Inl e, redis)
                | Inr s \<Rightarrow>
                    (let (ok, s') = allow_request (ge_redis E) (ge_cfg E) (''ingress:ep:'' @ uuid_str (ep_id endpoint))
                                      (Some (rps * 60)) (dr_member dr) (dr_now dr) s
                     in (if ok then Inr () else Inl (HTTPException 429 ''endpoint rate limit exceeded''), Some s'))))"

text \<open>\<open>hmac.compare_digest\<close> on texts refuses characters outside ASCII with a \<open>TypeError\<close>.\<close>

definition compare_digest :: "string \<Rightarrow> string \<Rightarrow> bool res" where
  "compare_digest a b =
     (if is_ascii a \<and> is_ascii b then Inr (a = b)
      else Inl (TypeError ''comparing strings with non-ASCII characters is not supported''))"

definition check_signature :: "'s gateway_env \<Rightarrow> string \<Rightarrow> string option \<Rightarrow> string \<Rightarrow> unit res" where
  "check_signature E secret header raw_body =
     (if secret = [] then Inr ()
      else case header of
             None \<Rightarrow> Inl (HTTPException 401 ''missing signature header'')
           | Some h \<Rightarrow>
               if h = [] then Inl (HTTPException 401 ''missing signature header'')
               else if \<not> starts_with h ''sha256='' then Inl (HTTPException 401 ''invalid signature format'')
               else bind_res (compare_digest (drop 7 h) (hmac_sha256 (utf8 secret) raw_body)) (\<lambda>same.
                      if same then Inr () else Inl (HTTPException 401 ''invalid signature'')))"

definition parse_payload :: "'s gateway_env \<Rightarrow> string \<Rightarrow> json res" where
  "parse_payload E raw_body =
     (case ge_json_loads E raw_body of
        Inl JSONDecodeError \<Rightarrow> Inl (HTTPException 400 ''invalid JSON payload'')
      | r \<Rightarrow> r)"

text \<open>The validator reports an invalid payload as \<open>ValidationError\<close>; its other exceptions pass through.\<close>

definition check_schema :: "'s gateway_env \<Rightarrow> string option \<Rightarrow> json \<Rightarrow> unit res" where
  "check_schema E stored payload =
     (case stored of
        None \<Rightarrow> Inr ()
      | Some source \<Rightarrow>
          if source = [] then Inr ()
          else (case bind_res (ge_json_loads E source) (ge_schema E payload) of
                  Inl JSONDecodeError \<Rightarrow> Inl (HTTPException 422 (exc_msg JSONDecodeError))
                | Inl (OtherError name msg) \<Rightarrow>
                    Inl (if name = ''ValidationError'' then HTTPException 422 msg else OtherError name msg)
                | r \<Rightarrow> r))"

definition dedup_key :: "endpoint_row \<Rightarrow> string \<Rightarrow> string" where
  "dedup_key endpoint key = ''idem:'' @ uuid_str (ep_id endpoint) @ '':'' @ key"

text \<open>\<open>Inr True\<close>: the key was there already.\<close>

definition check_duplicate :: "'s gateway_env \<Rightarrow> draw \<Rightarrow> endpoint_row \<Rightarrow> string option \<Rightarrow> 's option \<Rightarrow>
    bool res \<times> 's option" where
  "check_duplicate E dr endpoint idempotency_key redis =
     (case idempotency_key of
        None \<Rightarrow> (Inr False, redis)
      | Some key \<Rightarrow>
          if key = [] then (Inr False, redis)
          else (case get_redis redis of
                  Inl e \<Rightarrow> (Inl e, redis)
                | Inr s \<Rightarrow>
                    (let (fresh, s') = op_set_nx_ex (ge_redis E) (dr_now dr) (dedup_key endpoint key) (RStr ''1'')
                                         (idempotency_ttl_s (ge_cfg E)) s
                     in (Inr (\<not> fresh), Some s'))))"

definition excluded_headers :: "string list" where
  "excluded_headers = [''authorization'', ''cookie'', ''set-cookie'']"

definition kept_headers :: "(string \<times> string) list \<Rightarrow> (string \<times> string) list" where
  "kept_headers headers =
     fold (\<lambda>(key, value) acc.
       if py_lower key \<in> set excluded_headers then acc else AList.update (py_lower key) value acc) headers []"

definition new_event :: "draw \<Rightarrow> endpoint_row \<Rightarrow> string option \<Rightarrow> json \<Rightarrow> (string \<times> string) list \<Rightarrow> event_row" where
  "new_event dr endpoint idempotency_key payload headers =
     \<lparr>ev_id = dr_event_id dr, ev_endpoint_id = ep_id endpoint, ev_idempotency_key = idempotency_key,
      ev_request_body = payload, ev_request_headers = Some (kept_headers headers), ev_status = ''pending'',
      ev_retry_at = None, ev_received_at = dr_now dr, ev_is_discarded = False, ev_discarded_at = None\<rparr>"

definition new_outbox :: "settings \<Rightarrow> draw \<Rightarrow> endpoint_row \<Rightarrow> outbox_row" where
  "new_outbox cfg dr endpoint =
     \<lparr>ob_id = dr_outbox_id dr, ob_event_id = dr_event_id dr, ob_status = ''pending'',
      ob_publish_key = uuid_str (ep_id endpoint), ob_publish_topic = kafka_topic_raw_events cfg,
      ob_attempts = 0, ob_last_error = None, ob_created_at = dr_now dr, ob_processed_at = None\<rparr>"

definition store_event :: "settings \<Rightarrow> draw \<Rightarrow> endpoint_row \<Rightarrow> string option \<Rightarrow> json \<Rightarrow> (string \<times> string) list \<Rightarrow>
    db \<Rightarrow> db res" where
  "store_event cfg dr endpoint idempotency_key payload headers d =
     commit (dr_fault dr)
       (d\<lparr>events := events d @ [new_event dr endpoint idempotency_key payload headers],
          outbox := outbox d @ [new_outbox cfg dr endpoint]\<rparr>)"

text \<open>The checks that come before the de-duplication, in the order of the code.\<close>

definition admit :: "'s gateway_env \<Rightarrow> draw \<Rightarrow> string \<Rightarrow> webhook_request \<Rightarrow> 's option \<Rightarrow> db \<Rightarrow>
    (endpoint_row \<times> json) res \<times> 's option" where
  "admit E dr endpoint_id request redis d =
     (case bind_res (read_limited_body (ge_cfg E) request) (\<lambda>raw.
             bind_res (find_endpoint d endpoint_id request) (\<lambda>endpoint. Inr (raw, endpoint))) of
        Inl e \<Rightarrow> (Inl e, redis)
      | Inr (raw, endpoint) \<Rightarrow>
          (let (rate, redis') = check_rate E dr endpoint redis
           in (bind_res rate (\<lambda>_.
               bind_res (check_signature E (ep_hmac_secret endpoint)
                          (header_get ''x-hub-signature-256'' (wr_headers request)) raw) (\<lambda>_.
               bind_res (parse_payload E raw) (\<lambda>payload.
               bind_res (check_schema E (ep_request_body_schema endpoint) payload) (\<lambda>_.
               Inr (endpoint, payload))))), redis')))"

definition receive_webhook :: "'s gateway_env \<Rightarrow> draw \<Rightarrow> string \<Rightarrow> webhook_request \<Rightarrow> 's option \<Rightarrow> db \<Rightarrow>
    webhook_answer res \<times> 's option \<times> db" where
  "receive_webhook E dr endpoint_id request redis d =
     (let idempotency_key = header_get ''x-idempotency-key'' (wr_headers request)
      in case admit E dr endpoint_id request redis d of
           (Inl e, redis1) \<Rightarrow> (Inl e, redis1, d)
         | (Inr (endpoint, payload), redis1) \<Rightarrow>
             (case check_duplicate E dr endpoint idempotency_key redis1 of
                (Inl e, redis2) \<Rightarrow> (Inl e, redis2, d)
              | (Inr True, redis2) \<Rightarrow> (Inr Duplicate, redis2, d)
              | (Inr False, redis2) \<Rightarrow>
                  (case store_event (ge_cfg E) dr endpoint idempotency_key payload (wr_headers request) d of
                     Inl e \<Rightarrow> (Inl e, redis2, d)
                   | Inr d' \<Rightarrow> (Inr (Accepted (dr_event_id dr)), redis2, d'))))"

section \<open>Lemmas\<close>

lemma read_chunks_eq:
  "int (length body) \<le> limit \<Longrightarrow>
   read_chunks limit body chunks =
     (if int (length (body @ concat chunks)) \<le> limit then Inr (body @ concat chunks)
      else Inl (HTTPException 413 ''request body too large''))"
  by (induction chunks arbitrary: body) (auto simp: Let_def)

lemma find_endpoint_ok:
  "find_endpoint d endpoint_id request = Inr ep \<longleftrightarrow>
     (\<exists>uid. uuid_parse endpoint_id = Inr uid \<and> by_key ep_id uid (endpoints d) = Some ep) \<and>
     ep_is_active ep \<and> client_ip_allowed (wr_client request) (ep_ip_allowlist ep)"
  by (auto simp: find_endpoint_def split: sum.splits option.splits if_splits)

lemma check_signature_ok:
  "check_signature E secret header raw = Inr () \<longleftrightarrow>
     secret = [] \<or> header = Some (''sha256='' @ hmac_sha256 (utf8 secret) raw)"
proof (cases "secret = [] \<or> header = None")
  case True
  then show ?thesis by (auto simp: check_signature_def)
next
  case False
  then obtain h where h: "header = Some h" and s: "secret \<noteq> []" by auto
  let ?m = "hmac_sha256 (utf8 secret) raw"
  have "check_signature E secret header raw = Inr () \<longleftrightarrow>
      h \<noteq> [] \<and> starts_with h ''sha256='' \<and> drop 7 h = ?m"
    using s by (auto simp: check_signature_def h compare_digest_def bind_res_def split: if_splits)
  also have "\<dots> \<longleftrightarrow> h = ''sha256='' @ ?m"
    by (auto simp: starts_with_iff)
  finally show ?thesis using s h by simp
qed

lemma parse_payload_ok: "parse_payload E raw = Inr v \<longleftrightarrow> ge_json_loads E raw = Inr v"
  by (auto simp: parse_payload_def split: sum.splits exc.splits)

lemma check_schema_ok:
  "check_schema E stored payload = Inr () \<longleftrightarrow>
     (case stored of None \<Rightarrow> True
      | Some source \<Rightarrow> source = [] \<or> (\<exists>schema. ge_json_loads E source = Inr schema \<and> ge_schema E payload schema = Inr ()))"
  by (auto simp: check_schema_def bind_res_def split: option.splits sum.splits exc.splits if_splits)

lemma admit_ok:
  assumes "admit E dr endpoint_id request redis d = (Inr (ep, payload), redis')"
  shows "\<exists>raw uid. read_limited_body (ge_cfg E) request = Inr raw \<and> uuid_parse endpoint_id = Inr uid \<and>
    by_key ep_id uid (endpoints d) = Some ep \<and> ep_is_active ep \<and>
    client_ip_allowed (wr_client request) (ep_ip_allowlist ep) \<and> check_rate E dr ep redis = (Inr (), redis') \<and>
    check_signature E (ep_hmac_secret ep) (header_get ''x-hub-signature-256'' (wr_headers request)) raw = Inr () \<and>
    ge_json_loads E raw = Inr payload \<and> check_schema E (ep_request_body_schema ep) payload = Inr ()"
  using assms
  by (auto simp: admit_def find_endpoint_ok bind_res_eq_Inr parse_payload_ok split: sum.splits prod.splits)

section \<open>De-duplication\<close>

context redis_store
begin

lemma dedup_fresh:
  assumes "ge_redis E = R" and "key \<noteq> []" and "0 < idempotency_ttl_s (ge_cfg E)"
    and "check_duplicate E dr ep (Some key) (Some s) = (Inr False, Some s')"
  shows "view s' (dr_now dr) (dedup_key ep key) =
    Some (RStr ''1'', Some (dr_now dr + of_int (idempotency_ttl_s (ge_cfg E))))"
proof -
  let ?op = "op_set_nx_ex R (dr_now dr) (dedup_key ep key) (RStr ''1'') (idempotency_ttl_s (ge_cfg E)) s"
  have r: "fst ?op" "snd ?op = s'"
    using assms by (auto simp: check_duplicate_def get_redis_def Let_def split: prod.splits)
  then have "view s (dr_now dr) (dedup_key ep key) = None"
    using set_nx_ex_old by blast
  from set_nx_ex_new [OF this assms(3), of "RStr ''1''"] show ?thesis by (simp add: r(2) [simplified])
qed

lemma dedup_again:
  assumes "ge_redis E = R" and "key \<noteq> []" and "view s t (dedup_key ep key) = Some (v, Some (t + ttl))"
    and "t \<le> dr_now dr" "dr_now dr < t + ttl"
  shows "\<exists>s'. check_duplicate E dr ep (Some key) (Some s) = (Inr True, Some s')"
proof -
  let ?op = "op_set_nx_ex R (dr_now dr) (dedup_key ep key) (RStr ''1'') (idempotency_ttl_s (ge_cfg E)) s"
  have "view s (dr_now dr) (dedup_key ep key) \<noteq> None"
    using later_live [OF assms(3-5)] by simp
  then have "\<not> fst ?op" using set_nx_ex_old by blast
  then show ?thesis
    using assms(1,2) by (cases ?op) (simp add: check_duplicate_def get_redis_def)
qed

end

text \<open>Without a rate limit on the endpoint the checks leave the Redis handle alone.\<close>

lemma admit_redis:
  assumes "uuid_parse endpoint_id = Inr uid" and "by_key ep_id uid (endpoints d) = Some ep"
    and "ep_rate_limit_rps ep = None"
  shows "snd (admit E dr endpoint_id request redis d) = redis"
  using assms by (auto simp: admit_def bind_res_def find_endpoint_ok check_rate_def split: sum.splits prod.splits)

lemma admit_endpoint:
  assumes "admit E dr endpoint_id request redis d = (Inr (ep, payload), redis')" and "uuid_parse endpoint_id = Inr uid"
  shows "ep_id ep = uid" and "by_key ep_id uid (endpoints d) = Some ep"
  using admit_ok [OF assms(1)] assms(2) by (auto dest: by_key_Some)

lemma check_duplicate_cong: "ep_id a = ep_id b \<Longrightarrow> check_duplicate E dr a = check_duplicate E dr b"
proof -
  assume "ep_id a = ep_id b"
  then have same: "dedup_key a = dedup_key b"
    by (intro ext) (simp add: dedup_key_def)
  show ?thesis
    by (intro ext) (unfold check_duplicate_def same, rule refl)
qed

lemma accepted_steps:
  assumes "receive_webhook E dr endpoint_id request redis d = (Inr (Accepted i), redis', d')"
  shows "\<exists>ep payload redis1. admit E dr endpoint_id request redis d = (Inr (ep, payload), redis1) \<and>
    check_duplicate E dr ep (header_get ''x-idempotency-key'' (wr_headers request)) redis1 = (Inr False, redis') \<and>
    store_event (ge_cfg E) dr ep (header_get ''x-idempotency-key'' (wr_headers request)) payload (wr_headers request) d =
      Inr d' \<and> i = dr_event_id dr"
  using assms by (auto simp: receive_webhook_def Let_def split: prod.splits sum.splits bool.splits)

section \<open>Properties\<close>

text \<open>
  The bounded read is a length check.  Reading the body chunk by chunk gives the whole body exactly
  when it is within the limit, however it is cut into chunks, and 413 otherwise.
\<close>
theorem limited_body_is_length_check:
  assumes "0 \<le> max_webhook_body_bytes cfg"
  shows "read_limited_body cfg request =
    (if int (length (concat (wr_chunks request))) \<le> max_webhook_body_bytes cfg
     then Inr (concat (wr_chunks request)) else Inl (HTTPException 413 ''request body too large''))"
  using read_chunks_eq [of "[]"] assms by (simp add: read_limited_body_def)

text \<open>
  C3: what an accepted webhook went through and what it leaves.  If the answer is \<open>accepted\<close>, the
  endpoint exists, is active and allows the client; if it has a secret, the signature header is
  \<open>sha256=\<close> followed by the HMAC of the whole body; the body parses and satisfies the stored schema;
  and the transaction has added exactly one pending event with this payload and one pending outbox
  record for it, addressed to the endpoint's key, to a database that satisfies all its constraints.
\<close>
theorem accepted_webhook:
  assumes "receive_webhook E dr endpoint_id request redis d = (Inr (Accepted i), redis', d')"
  shows "\<exists>raw ep payload. read_limited_body (ge_cfg E) request = Inr raw \<and>
    uuid_parse endpoint_id = Inr (ep_id ep) \<and> ep \<in> set (endpoints d) \<and> ep_is_active ep \<and>
    client_ip_allowed (wr_client request) (ep_ip_allowlist ep) \<and>
    (ep_hmac_secret ep = [] \<or>
     header_get ''x-hub-signature-256'' (wr_headers request) = Some (''sha256='' @ hmac_sha256 (utf8 (ep_hmac_secret ep)) raw)) \<and>
    ge_json_loads E raw = Inr payload \<and> check_schema E (ep_request_body_schema ep) payload = Inr () \<and>
    i = dr_event_id dr \<and> db_ok d' \<and>
    d' = d\<lparr>events := events d @
             [new_event dr ep (header_get ''x-idempotency-key'' (wr_headers request)) payload (wr_headers request)],
           outbox := outbox d @ [new_outbox (ge_cfg E) dr ep]\<rparr>"
proof -
  obtain ep payload redis1 where
    a: "admit E dr endpoint_id request redis d = (Inr (ep, payload), redis1)" and
    s: "store_event (ge_cfg E) dr ep (header_get ''x-idempotency-key'' (wr_headers request)) payload
         (wr_headers request) d = Inr d'" and i: "i = dr_event_id dr"
    using accepted_steps [OF assms] by blast
  obtain raw uid where raw: "read_limited_body (ge_cfg E) request = Inr raw" "uuid_parse endpoint_id = Inr uid"
    "by_key ep_id uid (endpoints d) = Some ep" "ep_is_active ep" "client_ip_allowed (wr_client request) (ep_ip_allowlist ep)"
    "check_signature E (ep_hmac_secret ep) (header_get ''x-hub-signature-256'' (wr_headers request)) raw = Inr ()"
    "ge_json_loads E raw = Inr payload" "check_schema E (ep_request_body_schema ep) payload = Inr ()"
    using admit_ok [OF a] by blast
  have "uid = ep_id ep" "ep \<in> set (endpoints d)"
    using by_key_Some [OF raw(3)] by simp_all
  then show ?thesis
    using raw s i by (intro exI [of _ raw] exI [of _ ep] exI [of _ payload])
      (simp add: check_signature_ok store_event_def commit_ok)
qed

text \<open>
  C21: an idempotency key is honoured.  After a webhook with a non-empty key was accepted at an endpoint,
  another one with the same key at the same endpoint is never accepted before the key's lifetime is
  over, and leaves the database as it is (the endpoint having no rate limit of its own at that time).
\<close>
theorem idempotency_key_honoured:
  assumes "redis_store (ge_redis E) view" and "0 < idempotency_ttl_s (ge_cfg E)" and "key \<noteq> []"
    and "header_get ''x-idempotency-key'' (wr_headers request) = Some key"
    and "header_get ''x-idempotency-key'' (wr_headers again) = Some key"
    and "receive_webhook E dr endpoint_id request (Some s) d = (Inr (Accepted i), Some s1, d1)"
    and "by_key ep_id uid (endpoints d2) = Some ep2" and "ep_rate_limit_rps ep2 = None"
    and "uuid_parse endpoint_id = Inr uid"
    and "dr_now dr \<le> dr_now dr2" and "dr_now dr2 < dr_now dr + of_int (idempotency_ttl_s (ge_cfg E))"
    and "receive_webhook E dr2 endpoint_id again (Some s1) d2 = (r, redis3, d3)"
  shows "(\<forall>j. r \<noteq> Inr (Accepted j)) \<and> d3 = d2"
proof -
  obtain ep payload redis1 where
    a: "admit E dr endpoint_id request (Some s) d = (Inr (ep, payload), redis1)" and
    c: "check_duplicate E dr ep (Some key) redis1 = (Inr False, Some s1)"
    using accepted_steps [OF assms(6)] assms(4) by auto
  obtain s0 where s0: "redis1 = Some s0"
    using c assms(3) by (cases redis1) (auto simp: check_duplicate_def get_redis_def)
  have fresh: "view s1 (dr_now dr) (dedup_key ep key) =
      Some (RStr ''1'', Some (dr_now dr + of_int (idempotency_ttl_s (ge_cfg E))))"
    using redis_store.dedup_fresh [OF assms(1) refl assms(3,2)] c s0 by blast
  have "ep_id ep = uid" "ep_id ep2 = uid"
    using admit_endpoint [OF a assms(9)] by_key_Some [OF assms(7)] by simp_all
  then have same: "check_duplicate E dr2 ep2 = check_duplicate E dr2 ep"
    by (simp add: check_duplicate_cong)
  obtain s2 where dup: "check_duplicate E dr2 ep2 (Some key) (Some s1) = (Inr True, Some s2)"
    using redis_store.dedup_again [OF assms(1) refl assms(3) fresh assms(10,11)] same by auto
  have red: "snd (admit E dr2 endpoint_id again (Some s1) d2) = Some s1"
    by (rule admit_redis [OF assms(9,7,8)])
  show ?thesis
  proof (cases "fst (admit E dr2 endpoint_id again (Some s1) d2)")
    case (Inl e)
    with red assms(12) show ?thesis
      by (cases "admit E dr2 endpoint_id again (Some s1) d2") (auto simp: receive_webhook_def)
  next
    case (Inr p)
    obtain ep3 pl where p: "p = (ep3, pl)" by (cases p)
    have adm: "admit E dr2 endpoint_id again (Some s1) d2 = (Inr (ep3, pl), Some s1)"
      using Inr red p by (metis prod.collapse)
    then have "ep3 = ep2"
      using admit_endpoint(2) [OF adm assms(9)] assms(7) by simp
    with adm dup assms(5,12) show ?thesis
      by (auto simp: receive_webhook_def)
  qed
qed

text \<open>
  C32: a failed commit burns the key.  When a webhook with a fresh key passes every check but the
  commit fails, the sender gets the error and nothing is stored; yet a retry with the same key within
  the key's lifetime that passes the checks again is answered \<open>duplicate\<close>, with nothing stored either.
\<close>
theorem failed_commit_burns_key:
  assumes "redis_store (ge_redis E) view" and "0 < idempotency_ttl_s (ge_cfg E)" and "key \<noteq> []"
    and "header_get ''x-idempotency-key'' (wr_headers request) = Some key"
    and "admit E dr endpoint_id request (Some s) d = (Inr (ep, payload), Some s0)"
    and "view s0 (dr_now dr) (dedup_key ep key) = None" and "dr_fault dr = Some e"
    and "\<And>s1. admit E dr2 endpoint_id request (Some s1) d = (Inr (ep, payload), Some s1)"
    and "dr_now dr \<le> dr_now dr2" and "dr_now dr2 < dr_now dr + of_int (idempotency_ttl_s (ge_cfg E))"
  shows "\<exists>s1 s2. receive_webhook E dr endpoint_id request (Some s) d = (Inl e, Some s1, d) \<and>
    receive_webhook E dr2 endpoint_id request (Some s1) d = (Inr Duplicate, Some s2, d)"
proof -
  let ?op = "op_set_nx_ex (ge_redis E) (dr_now dr) (dedup_key ep key) (RStr ''1'') (idempotency_ttl_s (ge_cfg E)) s0"
  have "fst ?op"
    using redis_store.set_nx_ex_new [OF assms(1,6,2)] by blast
  then obtain s1 where c: "check_duplicate E dr ep (Some key) (Some s0) = (Inr False, Some s1)"
    using assms(3) by (cases ?op) (simp add: check_duplicate_def get_redis_def)
  have fresh: "view s1 (dr_now dr) (dedup_key ep key) =
      Some (RStr ''1'', Some (dr_now dr + of_int (idempotency_ttl_s (ge_cfg E))))"
    by (rule redis_store.dedup_fresh [OF assms(1) refl assms(3,2) c])
  obtain s2 where dup: "check_duplicate E dr2 ep (Some key) (Some s1) = (Inr True, Some s2)"
    using redis_store.dedup_again [OF assms(1) refl assms(3) fresh assms(9,10)] by blast
  have "receive_webhook E dr endpoint_id request (Some s) d = (Inl e, Some s1, d)"
    using assms(4,5,7) c by (simp add: receive_webhook_def store_event_def commit_def)
  moreover have "receive_webhook E dr2 endpoint_id request (Some s1) d = (Inr Duplicate, Some s2, d)"
    using assms(4,8) dup by (simp add: receive_webhook_def)
  ultimately show ?thesis by blast
qed

section \<open>Closed examples\<close>

definition ex_endpoint :: endpoint_row where
  "ex_endpoint = \<lparr>ep_id = 2, ep_workspace_id = 1, ep_name = ''e'', ep_hmac_secret = ''s'', ep_is_active = True,
     ep_rate_limit_rps = None, ep_ip_allowlist = None, ep_request_body_schema = None, ep_created_at = 0,
     ep_updated_at = 0\<rparr>"

definition ex_hook_db :: db where
  "ex_hook_db = empty_db\<lparr>
     workspaces := [\<lparr>ws_id = 1, ws_name = ''w'', ws_slug = ''w'', ws_created_at = 0, ws_updated_at = 0\<rparr>],
     endpoints := [ex_endpoint]\<rparr>"

definition ex_gateway :: "ref_state gateway_env" where
  "ex_gateway = \<lparr>ge_redis = ref_redis, ge_cfg = default_settings, 
     ge_json_loads = (\<lambda>s. Inr (JObj [])), ge_schema = (\<lambda>p s. Inr ())\<rparr>"

definition ex_signature :: string where
  "ex_signature = ''sha256='' @ hmac_sha256 ''s'' ''{}''"

definition ex_webhook :: webhook_request where
  "ex_webhook = \<lparr>wr_chunks = [''{'', ''}''], wr_client = Some ''192.0.2.1'',
     wr_headers = [(''x-hub-signature-256'', ex_signature), (''x-idempotency-key'', ''k'')]\<rparr>"

definition ex_draw :: "time \<Rightarrow> exc option \<Rightarrow> draw" where
  "ex_draw t fault = \<lparr>dr_now = t, dr_member = ''m'', dr_event_id = 4, dr_outbox_id = 5, dr_fault = fault\<rparr>"

lemma ex_headers:
  "header_get ''x-idempotency-key'' (wr_headers ex_webhook) = Some ''k''"
  "header_get ''x-hub-signature-256'' (wr_headers ex_webhook) = Some ex_signature"
  by (simp_all add: header_get_def ex_webhook_def py_lower_def lower_char_def)

lemma ex_by_key: "by_key ep_id 2 (endpoints ex_hook_db) = Some ex_endpoint"
  by (simp add: by_key_def ex_hook_db_def ex_endpoint_def)

lemma ex_admit:
  "admit ex_gateway dr (uuid_str 2) ex_webhook redis ex_hook_db = (Inr (ex_endpoint, JObj []), redis)"
proof -
  have f: "find_endpoint ex_hook_db (uuid_str 2) ex_webhook = Inr ex_endpoint"
    by (simp add: find_endpoint_ok ex_by_key) (simp add: ex_endpoint_def client_ip_allowed_def)
  have b: "read_limited_body (ge_cfg ex_gateway) ex_webhook = Inr ''{}''"
    by (simp add: read_limited_body_def ex_gateway_def default_settings_def ex_webhook_def)
  have s: "check_signature ex_gateway (ep_hmac_secret ex_endpoint) (Some ex_signature) ''{}'' = Inr ()"
    by (simp add: check_signature_ok ex_endpoint_def ex_signature_def utf8_ascii is_ascii_def)
  show ?thesis
    by (simp add: admit_def f b check_rate_def ex_headers s) (simp add: ex_endpoint_def check_schema_def parse_payload_def ex_gateway_def)
qed

lemma ex_accepted:
  "\<exists>s d. receive_webhook ex_gateway (ex_draw 0 None) (uuid_str 2) ex_webhook (Some Map.empty) ex_hook_db =
     (Inr (Accepted 4), Some s, d)"
proof -
  have "\<exists>d. store_event default_settings (ex_draw 0 None) ex_endpoint (Some ''k'') (JObj []) (wr_headers ex_webhook) ex_hook_db = Inr d"
    by (simp add: store_event_def commit_def fits_def integrity_def ex_hook_db_def empty_db_def keyed_def refers_def
        fits_workspace_def fits_endpoint_def fits_event_def fits_outbox_def short_def opt_ok_def int4_def ex_draw_def
        new_event_def new_outbox_def ex_endpoint_def default_settings_def length_uuid_str)
  then obtain d where st: "store_event (ge_cfg ex_gateway) (ex_draw 0 None) ex_endpoint (Some ''k'') (JObj []) (wr_headers ex_webhook)
      ex_hook_db = Inr d"
    by (auto simp: ex_gateway_def)
  have "\<exists>s. check_duplicate ex_gateway (ex_draw 0 None) ex_endpoint (Some ''k'') (Some Map.empty) = (Inr False, Some s)"
    by (simp add: check_duplicate_def get_redis_def ex_gateway_def ref_redis_def ref_put_new_def ref_view_def)
  then obtain s where du: "check_duplicate ex_gateway (ex_draw 0 None) ex_endpoint (Some ''k'') (Some Map.empty) = (Inr False, Some s)" ..
  have "dr_event_id (ex_draw 0 None) = 4" by (simp add: ex_draw_def)
  then show ?thesis
    by (simp add: receive_webhook_def ex_admit ex_headers du st)
qed

theorem limited_body_is_length_check_witness:
  "read_limited_body default_settings ex_webhook = Inr ''{}''"
  using limited_body_is_length_check [of default_settings ex_webhook] by (simp add: default_settings_def ex_webhook_def)

theorem accepted_webhook_witness:
  "\<exists>s d. receive_webhook ex_gateway (ex_draw 0 None) (uuid_str 2) ex_webhook (Some Map.empty) ex_hook_db =
     (Inr (Accepted 4), s, d) \<and> db_ok d"
  using ex_accepted accepted_webhook by blast

theorem idempotency_key_honoured_witness:
  "\<exists>s d. receive_webhook ex_gateway (ex_draw 0 None) (uuid_str 2) ex_webhook (Some Map.empty) ex_hook_db =
     (Inr (Accepted 4), Some s, d) \<and>
     snd (snd (receive_webhook ex_gateway (ex_draw 60 None) (uuid_str 2) ex_webhook (Some s) ex_hook_db)) = ex_hook_db"
proof -
  obtain s d where one: "receive_webhook ex_gateway (ex_draw 0 None) (uuid_str 2) ex_webhook (Some Map.empty) ex_hook_db =
     (Inr (Accepted 4), Some s, d)"
    using ex_accepted by blast
  obtain r s2 d3 where two: "receive_webhook ex_gateway (ex_draw 60 None) (uuid_str 2) ex_webhook (Some s) ex_hook_db = (r, s2, d3)"
    by (metis prod_cases3)
  have "redis_store (ge_redis ex_gateway) ref_view"
    using ref.redis_store_axioms by (simp add: ex_gateway_def)
  from idempotency_key_honoured [OF this _ _ ex_headers(1) ex_headers(1) one ex_by_key _ uuid_parse_str _ _ two]
  have "d3 = ex_hook_db"
    by (simp add: ex_endpoint_def ex_draw_def ex_gateway_def default_settings_def)
  with one two show ?thesis by (metis snd_conv)
qed

theorem failed_commit_burns_key_witness:
  "\<exists>s1 s2. receive_webhook ex_gateway (ex_draw 0 (Some IntegrityError)) (uuid_str 2) ex_webhook (Some Map.empty) ex_hook_db =
       (Inl IntegrityError, Some s1, ex_hook_db) \<and>
     receive_webhook ex_gateway (ex_draw 5 None) (uuid_str 2) ex_webhook (Some s1) ex_hook_db = (Inr Duplicate, Some s2, ex_hook_db)"
proof -
  have "redis_store (ge_redis ex_gateway) ref_view"
    using ref.redis_store_axioms by (simp add: ex_gateway_def)
  from failed_commit_burns_key [OF this _ _ ex_headers(1) ex_admit _ _ ex_admit] show ?thesis
    by (simp add: ex_draw_def ex_gateway_def default_settings_def ref_view_def)
qed

end
