(* ===== verification/Kafka.thy ===== *)
theory Kafka
  imports Json
begin

text \<open>
  The Kafka producer of \<open>app/core/kafka.py\<close>.  The broker is not part of the sources: sending is
  a parameter \<open>send\<close> over a broker state, and what the code relies on is the locale
  \<open>kafka_producer\<close>: a send that returns has appended the message, and a send that raises may
  or may not have (an acknowledgement can be lost).  The module's handle is an option: \<open>None\<close>
  when the producer could not be started.
\<close>

record kmsg =
  km_topic :: string
  km_key :: string
  km_value :: json

type_synonym 'k sender = "kmsg \<Rightarrow> 'k \<Rightarrow> unit res \<times> 'k"

section \<open>The handle\<close>

text \<open>
  \<open>start\<close> and \<open>stop\<close> are the faults of starting and stopping the new producer; a fault of the
  clean-up \<open>stop\<close> is swallowed, so it does not matter.
\<close>

definition init_kafka :: "'k \<Rightarrow> exc option \<Rightarrow> exc option \<Rightarrow> 'k option \<Rightarrow> 'k option" where
  "init_kafka client start_fault stop_fault old =
     (case start_fault of
        Some e \<Rightarrow> (case stop_fault of Some e' \<Rightarrow> None | None \<Rightarrow> None)
      | None \<Rightarrow> Some client)"

definition close_kafka :: "exc option \<Rightarrow> 'k option \<Rightarrow> 'k option" where
  "close_kafka stop_fault producer =
     (case producer of
        None \<Rightarrow> None
      | Some k \<Rightarrow> (case stop_fault of Some e \<Rightarrow> None | None \<Rightarrow> None))"

definition get_kafka :: "'k option \<Rightarrow> 'k option" where
  "get_kafka producer = producer"

section \<open>The documented behaviour of a send\<close>

locale kafka_producer =
  fixes send :: "'k sender"
    and log :: "'k \<Rightarrow> kmsg list"
  assumes send_ok: "send m k = (Inr (), k') \<Longrightarrow> log k' = log k @ [m]"
    and send_fault: "send m k = (Inl e, k') \<Longrightarrow> log k' = log k \<or> log k' = log k @ [m]"
begin

lemma send_cases:
  assumes "send m k = (r, k')"
  obtains "r = Inr ()" "log k' = log k @ [m]"
  | e where "r = Inl e" "log k' = log k"
  | e where "r = Inl e" "log k' = log k @ [m]"
proof (cases r)
  case (Inl e)
  then show thesis using send_fault [of m k e k'] assms that by blast
next
  case (Inr u)
  then show thesis using send_ok [of m k k'] assms that by simp
qed

lemma send_log: "send m k = (r, k') \<Longrightarrow> set (log k) \<subseteq> set (log k') \<and> set (log k') \<subseteq> insert m (set (log k))"
  by (erule send_cases) auto

lemma send_delivered: "send m k = (Inr (), k') \<Longrightarrow> m \<in> set (log k')"
  using send_ok by simp

end

section \<open>A reference broker\<close>

text \<open>
  A log and a script of the faults to come: \<open>Some (e, stored)\<close> raises \<open>e\<close> after storing the
  message or not; an exhausted script sends without faults.
\<close>

record broker =
  br_log :: "kmsg list"
  br_script :: "(exc \<times> bool) option list"

definition ref_send :: "broker sender" where
  "ref_send m k =
     (let k' = k\<lparr>br_script := tl (br_script k)\<rparr>;
          k'' = k'\<lparr>br_log := br_log k @ [m]\<rparr>
      in case br_script k of
           Some (e, stored) # rest \<Rightarrow> (Inl e, if stored then k'' else k')
         | _ \<Rightarrow> (Inr (), k''))"

interpretation ref_kafka: kafka_producer ref_send br_log
  by unfold_locales (auto simp: ref_send_def Let_def split: list.splits option.splits if_splits)

definition empty_broker :: broker where
  "empty_broker = \<lparr>br_log = [], br_script = []\<rparr>"

section \<open>The start-up of the handle\<close>

lemma init_kafka_handle: "init_kafka client sf st old = (if sf = None then Some client else None)"
  by (auto simp: init_kafka_def split: option.splits)

lemma close_kafka_none: "close_kafka f p = None"
  by (auto simp: close_kafka_def split: option.splits)

end
