(* ===== verification/Outbox_Relay.thy ===== *)
theory Outbox_Relay
  imports Data_Model Kafka
begin

text \<open>
  The outbox relay of \<open>workers/outbox_relay.py\<close>: a poll selects the oldest pending records,
  publishes each one, notes the outcome in the record (and in the event), and commits.  The
  state is the database and the producer handle.  A poll's inputs are the records locked by
  another relay, the stop signal as seen before each record, and a fault of the commit.
\<close>

section \<open>The operations\<close>

definition batch_size :: nat where
  "batch_size = 10"

definition max_attempts :: int where
  "max_attempts = 10"

text \<open>\<open>_publish\<close>: the value and the key come from the record.\<close>

definition outbox_msg :: "outbox_row \<Rightarrow> kmsg" where
  "outbox_msg r =
     \<lparr>km_topic = ob_publish_topic r, km_key = ob_publish_key r,
      km_value = JObj [(''event_id'', JStr (uuid_str (ob_event_id r))),
                       (''endpoint_id'', JStr (ob_publish_key r))]\<rparr>"

definition publish :: "'k sender \<Rightarrow> 'k option \<Rightarrow> outbox_row \<Rightarrow> unit res \<times> 'k option" where
  "publish send producer r =
     (case get_kafka producer of
        None \<Rightarrow> (Inl (RuntimeError ''Kafka producer not available''), producer)
      | Some k \<Rightarrow> (let (res, k') = send (outbox_msg r) k in (res, Some k')))"

definition batch :: "(uuid \<Rightarrow> bool) \<Rightarrow> db \<Rightarrow> outbox_row list" where
  "batch locked d =
     take batch_size
       (filter (\<lambda>r. \<not> locked (ob_id r))
         (sort_key ob_created_at (filter (\<lambda>r. ob_status r = ''pending'') (outbox d))))"

definition failed_row :: "exc \<Rightarrow> outbox_row \<Rightarrow> outbox_row" where
  "failed_row e r =
     (let r' = r\<lparr>ob_attempts := ob_attempts r + 1, ob_last_error := Some (exc_name e @ '': '' @ exc_msg e)\<rparr>
      in if max_attempts \<le> ob_attempts r' then r'\<lparr>ob_status := ''failed''\<rparr> else r')"

definition completed_row :: "outbox_row \<Rightarrow> outbox_row" where
  "completed_row r = r\<lparr>ob_status := ''completed''\<rparr>"

definition mark_queued :: "uuid \<Rightarrow> db \<Rightarrow> db" where
  "mark_queued event_id d =
     (case by_key ev_id event_id (events d) of
        None \<Rightarrow> d
      | Some ev \<Rightarrow> d\<lparr>events := put_row ev_id (ev\<lparr>ev_status := ''queued''\<rparr>) (events d)\<rparr>)"

definition relay_one :: "'k sender \<Rightarrow> outbox_row \<Rightarrow> db \<Rightarrow> 'k option \<Rightarrow> db \<times> 'k option" where
  "relay_one send r d producer =
     (let (res, producer') = publish send producer r
      in case res of
           Inl e \<Rightarrow> (d\<lparr>outbox := put_row ob_id (failed_row e r) (outbox d)\<rparr>, producer')
         | Inr u \<Rightarrow> (mark_queued (ob_event_id r)
                      (d\<lparr>outbox := put_row ob_id (completed_row r) (outbox d)\<rparr>), producer'))"

fun relay_records :: "'k sender \<Rightarrow> bool list \<Rightarrow> outbox_row list \<Rightarrow> db \<Rightarrow> 'k option \<Rightarrow> db \<times> 'k option" where
  "relay_records send stop [] d producer = (d, producer)"
| "relay_records send stop (r # rs) d producer =
     (if stop \<noteq> [] \<and> hd stop then (d, producer)
      else let (d', producer') = relay_one send r d producer
           in relay_records send (tl stop) rs d' producer')"

record poll_input =
  pi_locked :: "uuid \<Rightarrow> bool"
  pi_stop :: "bool list"
  pi_fault :: "exc option"

definition relay_poll :: "'k sender \<Rightarrow> poll_input \<Rightarrow> db \<Rightarrow> 'k option \<Rightarrow> unit res \<times> db \<times> 'k option" where
  "relay_poll send inp d producer =
     (let records = batch (pi_locked inp) d
      in if records = [] then (Inr (), d, producer)
         else
           let (d', producer') = relay_records send (pi_stop inp) records d producer
           in case commit (pi_fault inp) d' of
                Inl e \<Rightarrow> (Inl e, d, producer')
              | Inr d'' \<Rightarrow> (Inr (), d'', producer'))"

text \<open>The loop of \<open>run\<close> over its polls: an exception of the commit ends it, and the producer is closed.\<close>

fun relay_run :: "'k sender \<Rightarrow> poll_input list \<Rightarrow> db \<Rightarrow> 'k option \<Rightarrow> unit res \<times> db \<times> 'k option" where
  "relay_run send [] d producer = (Inr (), d, producer)"
| "relay_run send (i # is) d producer =
     (case relay_poll send i d producer of
        (Inl e, d', producer') \<Rightarrow> (Inl e, d', producer')
      | (Inr u, d', producer') \<Rightarrow> relay_run send is d' producer')"

section \<open>The records of a batch\<close>

lemma batch_set:
  "r \<in> set (batch locked d) \<Longrightarrow> r \<in> set (outbox d) \<and> ob_status r = ''pending'' \<and> \<not> locked (ob_id r)"
  by (auto simp: batch_def dest!: in_set_takeD)

lemma batch_length: "length (batch locked d) \<le> 10"
  by (simp add: batch_def batch_size_def)

lemma batch_distinct:
  assumes "keyed ob_id (outbox d)" shows "distinct (batch locked d)"
proof -
  have "distinct (outbox d)"
    using assms by (auto simp: keyed_def distinct_map)
  then show ?thesis
    by (simp add: batch_def)
qed

lemma batch_sorted: "sorted (map ob_created_at (batch locked d))"
  by (simp add: batch_def sorted_filter sorted_wrt_take take_map [symmetric])

lemma outbox_msg_rows [simp]:
  "outbox_msg (failed_row e r) = outbox_msg r" "outbox_msg (completed_row r) = outbox_msg r"
  by (simp_all add: outbox_msg_def failed_row_def completed_row_def Let_def)

lemma row_keys [simp]:
  "ob_id (failed_row e r) = ob_id r" "ob_id (completed_row r) = ob_id r"
  "ob_event_id (failed_row e r) = ob_event_id r" "ob_event_id (completed_row r) = ob_event_id r"
  by (simp_all add: failed_row_def completed_row_def Let_def)

lemma mark_queued_frame [simp]: "outbox (mark_queued ev d) = outbox d"
  by (simp add: mark_queued_def split: option.split)

section \<open>Nothing is marked completed that was not published\<close>

definition sent :: "('k \<Rightarrow> kmsg list) \<Rightarrow> 'k option \<Rightarrow> kmsg set" where
  "sent lg producer = (case producer of None \<Rightarrow> {} | Some k \<Rightarrow> set (lg k))"

definition completed_sent :: "('k \<Rightarrow> kmsg list) \<Rightarrow> db \<Rightarrow> 'k option \<Rightarrow> bool" where
  "completed_sent lg d producer \<longleftrightarrow>
     (\<forall>r \<in> set (outbox d). ob_status r = ''completed'' \<longrightarrow> outbox_msg r \<in> sent lg producer)"

lemma completed_sent_mono: "completed_sent lg d p \<Longrightarrow> sent lg p \<subseteq> sent lg p' \<Longrightarrow> completed_sent lg d p'"
  by (auto simp: completed_sent_def)

context kafka_producer
begin

lemma publish_sent:
  assumes "publish send p r = (res, p')"
  shows "sent log p \<subseteq> sent log p'" and "res = Inr () \<Longrightarrow> outbox_msg r \<in> sent log p'"
  using assms send_log send_delivered
  by (auto simp: publish_def get_kafka_def sent_def split: option.splits prod.splits; blast)+

lemma relay_one_sent:
  assumes "relay_one send r d p = (d', p')" and "completed_sent log d p" and "ob_status r = ''pending''"
  shows "completed_sent log d' p' \<and> sent log p \<subseteq> sent log p'"
proof -
  obtain res q where pub: "publish send p r = (res, q)" by (cases "publish send p r")
  have q: "p' = q" using assms(1) by (auto simp: relay_one_def pub split: sum.splits)
  have mono: "sent log p \<subseteq> sent log p'"
    using publish_sent(1) [OF pub] q by simp
  have row: "outbox_msg x \<in> sent log p'" if x: "x \<in> set (outbox d')" "ob_status x = ''completed''" for x
  proof (cases res)
    case (Inl e)
    have "ob_status (failed_row e r) \<noteq> ''completed''"
      using assms(3) by (simp add: failed_row_def Let_def)
    moreover have "outbox d' = put_row ob_id (failed_row e r) (outbox d)"
      using assms(1) Inl by (auto simp: relay_one_def pub)
    ultimately have "x \<in> set (outbox d)"
      using x set_put_row by metis
    then show ?thesis using assms(2) mono x(2) by (auto simp: completed_sent_def)
  next
    case (Inr u)
    then have "outbox d' = put_row ob_id (completed_row r) (outbox d)"
      using assms(1) by (auto simp: relay_one_def pub)
    then consider "x = completed_row r" | "x \<in> set (outbox d)"
      using x set_put_row by metis
    then show ?thesis
    proof cases
      case 1
      then show ?thesis using publish_sent(2) [OF pub] Inr q by simp
    next
      case 2
      then show ?thesis using assms(2) mono x(2) by (auto simp: completed_sent_def)
    qed
  qed
  then show ?thesis using mono by (simp add: completed_sent_def)
qed

lemma relay_records_sent:
  "relay_records send stop rs d p = (d', p') \<Longrightarrow> completed_sent log d p \<Longrightarrow>
   \<forall>r \<in> set rs. ob_status r = ''pending'' \<Longrightarrow> completed_sent log d' p' \<and> sent log p \<subseteq> sent log p'"
proof (induction rs arbitrary: stop d p)
  case Nil
  then show ?case by simp
next
  case (Cons r rs)
  show ?case
  proof (cases "stop \<noteq> [] \<and> hd stop")
    case True
    then show ?thesis using Cons by simp
  next
    case False
    obtain d1 p1 where one: "relay_one send r d p = (d1, p1)" by (cases "relay_one send r d p")
    have "completed_sent log d1 p1 \<and> sent log p \<subseteq> sent log p1"
      using relay_one_sent [OF one] Cons.prems by simp
    moreover have "relay_records send (tl stop) rs d1 p1 = (d', p')"
      using Cons.prems(1) False one by simp
    ultimately show ?thesis
      using Cons.IH Cons.prems(3) by fastforce
  qed
qed

lemma relay_poll_sent:
  assumes "relay_poll send inp d p = (res, d', p')" and "completed_sent log d p"
  shows "completed_sent log d' p' \<and> sent log p \<subseteq> sent log p'"
proof (cases "batch (pi_locked inp) d = []")
  case True
  then show ?thesis using assms by (simp add: relay_poll_def)
next
  case False
  obtain d1 p1 where recs: "relay_records send (pi_stop inp) (batch (pi_locked inp) d) d p = (d1, p1)"
    by (cases "relay_records send (pi_stop inp) (batch (pi_locked inp) d) d p")
  have "completed_sent log d1 p1 \<and> sent log p \<subseteq> sent log p1"
    using relay_records_sent [OF recs assms(2)] batch_set by blast
  moreover have "p' = p1" "d' = d \<or> d' = d1"
    using assms(1) False recs by (auto simp: relay_poll_def commit_ok split: sum.splits)
  ultimately show ?thesis
    using completed_sent_mono assms(2) by blast
qed

lemma relay_run_sent:
  "relay_run send is d p = (res, d', p') \<Longrightarrow> completed_sent log d p \<Longrightarrow> completed_sent log d' p' \<and> sent log p \<subseteq> sent log p'"
proof (induction "is" arbitrary: d p)
  case Nil
  then show ?case by simp
next
  case (Cons i inps)
  obtain r1 d1 p1 where one: "relay_poll send i d p = (r1, d1, p1)" by (metis prod_cases3)
  have "completed_sent log d1 p1 \<and> sent log p \<subseteq> sent log p1"
    using relay_poll_sent [OF one] Cons.prems(2) by simp
  with Cons one show ?case by (cases r1) fastforce+
qed

end

section \<open>The states of a record\<close>

definition outbox_row_ok :: "outbox_row \<Rightarrow> bool" where
  "outbox_row_ok r \<longleftrightarrow>
     (ob_status r = ''pending'' \<and> 0 \<le> ob_attempts r \<and> ob_attempts r < max_attempts) \<or>
     (ob_status r = ''completed'' \<and> 0 \<le> ob_attempts r \<and> ob_attempts r < max_attempts) \<or>
     (ob_status r = ''failed'' \<and> ob_attempts r = max_attempts)"

lemma failed_row_ok: "outbox_row_ok r \<Longrightarrow> ob_status r = ''pending'' \<Longrightarrow> outbox_row_ok (failed_row e r)"
  by (auto simp: outbox_row_ok_def failed_row_def Let_def)

lemma completed_row_ok: "outbox_row_ok r \<Longrightarrow> ob_status r = ''pending'' \<Longrightarrow> outbox_row_ok (completed_row r)"
  by (auto simp: outbox_row_ok_def completed_row_def)

lemma relay_one_outbox:
  "relay_one send r d p = (d', p') \<Longrightarrow>
   (\<exists>e. outbox d' = put_row ob_id (failed_row e r) (outbox d)) \<or> outbox d' = put_row ob_id (completed_row r) (outbox d)"
  by (auto simp: relay_one_def split: prod.splits sum.splits)

lemma relay_records_ok:
  "relay_records send stop rs d p = (d', p') \<Longrightarrow> list_all outbox_row_ok (outbox d) \<Longrightarrow>
   \<forall>r \<in> set rs. ob_status r = ''pending'' \<and> outbox_row_ok r \<Longrightarrow> list_all outbox_row_ok (outbox d')"
proof (induction rs arbitrary: stop d p)
  case Nil
  then show ?case by simp
next
  case (Cons r rs)
  show ?case
  proof (cases "stop \<noteq> [] \<and> hd stop")
    case True
    then show ?thesis using Cons by simp
  next
    case False
    obtain d1 p1 where one: "relay_one send r d p = (d1, p1)" by (cases "relay_one send r d p")
    have "outbox_row_ok x" if "x \<in> set (outbox d1)" for x
      using relay_one_outbox [OF one] that Cons.prems(2,3) failed_row_ok completed_row_ok
      by (fastforce simp: list_all_iff dest: set_put_row)
    moreover have "relay_records send (tl stop) rs d1 p1 = (d', p')"
      using Cons.prems(1) False one by simp
    ultimately show ?thesis
      using Cons.IH [of "tl stop" d1 p1] Cons.prems(3) by (simp add: list_all_iff)
  qed
qed

lemma relay_poll_ok:
  assumes "relay_poll send inp d p = (res, d', p')" and "list_all outbox_row_ok (outbox d)"
  shows "list_all outbox_row_ok (outbox d')"
proof (cases "batch (pi_locked inp) d = []")
  case True
  then show ?thesis using assms by (simp add: relay_poll_def)
next
  case False
  obtain d1 p1 where recs: "relay_records send (pi_stop inp) (batch (pi_locked inp) d) d p = (d1, p1)"
    by (cases "relay_records send (pi_stop inp) (batch (pi_locked inp) d) d p")
  have "list_all outbox_row_ok (outbox d1)"
    using relay_records_ok [OF recs assms(2)] batch_set assms(2) by (metis list_all_iff)
  moreover have "d' = d \<or> d' = d1"
    using assms(1) False recs by (auto simp: relay_poll_def commit_ok split: sum.splits)
  ultimately show ?thesis using assms(2) by blast
qed

lemma relay_run_ok:
  "relay_run send is d p = (res, d', p') \<Longrightarrow> list_all outbox_row_ok (outbox d) \<Longrightarrow> list_all outbox_row_ok (outbox d')"
proof (induction "is" arbitrary: d p)
  case Nil
  then show ?case by simp
next
  case (Cons i inps)
  obtain r1 d1 p1 where one: "relay_poll send i d p = (r1, d1, p1)" by (metis prod_cases3)
  show ?case
    using Cons relay_poll_ok [OF one] one by (cases r1) auto
qed

section \<open>Polls without faults\<close>

definition quiet :: poll_input where
  "quiet = \<lparr>pi_locked = (\<lambda>i. False), pi_stop = [], pi_fault = None\<rparr>"

definition no_producer :: exc where
  "no_producer = RuntimeError ''Kafka producer not available''"

lemma relay_records_down:
  "relay_records send [] rs d None =
     (d\<lparr>outbox := fold (\<lambda>r. put_row ob_id (failed_row no_producer r)) rs (outbox d)\<rparr>, None)"
  by (induction rs arbitrary: d) (simp_all add: relay_one_def publish_def get_kafka_def no_producer_def)

lemma fold_rows:
  assumes "keyed ob_id (outbox d)" and "set rs \<subseteq> set (outbox d)" and "distinct rs" and "\<And>r. ob_id (g r) = ob_id r"
  shows "fold (\<lambda>r. put_row ob_id (g r)) rs (outbox d) = map (\<lambda>r. if r \<in> set rs then g r else r) (outbox d)"
  using fold_put_row [OF assms(1-3), of g "\<lambda>r. r"] assms(4) by simp

lemma db_ok_outbox:
  assumes "db_ok d" and "\<And>r. ob_id (g r) = ob_id r" and "\<And>r. ob_event_id (g r) = ob_event_id r"
    and "\<And>r. r \<in> set (outbox d) \<Longrightarrow> fits_outbox (g r)"
  shows "db_ok (d\<lparr>outbox := map g (outbox d)\<rparr>)"
  using assms by (simp add: db_ok_def integrity_def fits_def keyed_map refers_map list_all_iff)

lemma db_ok_events:
  assumes "db_ok d" and "\<And>e. ev_id (g e) = ev_id e" and "\<And>e. ev_endpoint_id (g e) = ev_endpoint_id e"
    and "\<And>e. fits_event e \<Longrightarrow> fits_event (g e)"
  shows "db_ok (d\<lparr>events := map g (events d)\<rparr>)"
  using assms by (simp add: db_ok_def integrity_def fits_def keyed_map refers_map list_all_iff)

lemma failed_row_fits: "fits_outbox r \<Longrightarrow> ob_attempts r < max_attempts \<Longrightarrow> fits_outbox (failed_row e r)"
  by (auto simp: fits_outbox_def failed_row_def Let_def int4_def max_attempts_def)

lemma completed_row_fits: "fits_outbox r \<Longrightarrow> fits_outbox (completed_row r)"
  by (auto simp: fits_outbox_def completed_row_def)

definition pending_rows :: "db \<Rightarrow> outbox_row list" where
  "pending_rows d = filter (\<lambda>r. ob_status r = ''pending'') (outbox d)"

lemma batch_all:
  assumes "length (pending_rows d) \<le> 10"
  shows "set (batch (\<lambda>i. False) d) = set (pending_rows d)"
proof -
  have "length (sort_key ob_created_at (pending_rows d)) \<le> 10" using assms by simp
  then have "batch (\<lambda>i. False) d = sort_key ob_created_at (pending_rows d)"
    by (simp add: batch_def pending_rows_def batch_size_def)
  then show ?thesis by simp
qed

lemma map_pending:
  "(\<And>r. r \<in> set rows \<Longrightarrow> P r \<longleftrightarrow> Q r) \<Longrightarrow> map (\<lambda>r. if P r then g r else r) rows = map (\<lambda>r. if Q r then g r else r) rows"
  by auto

lemma down_poll:
  assumes "db_ok d" and "length (pending_rows d) \<le> 10" and "\<And>r. r \<in> set (pending_rows d) \<Longrightarrow> ob_attempts r < max_attempts"
  shows "relay_poll send quiet d None =
    (Inr (), d\<lparr>outbox := map (\<lambda>r. if ob_status r = ''pending'' then failed_row no_producer r else r) (outbox d)\<rparr>, None)"
proof -
  let ?b = "batch (\<lambda>i. False) d"
  let ?g = "\<lambda>r. if ob_status r = ''pending'' then failed_row no_producer r else r"
  have key: "keyed ob_id (outbox d)" using assms(1) by (simp add: db_ok_def integrity_def)
  have mem: "r \<in> set ?b \<longleftrightarrow> ob_status r = ''pending''" if "r \<in> set (outbox d)" for r
    using batch_all [OF assms(2)] that by (simp add: pending_rows_def)
  have fold: "fold (\<lambda>r. put_row ob_id (failed_row no_producer r)) ?b (outbox d) = map ?g (outbox d)"
  proof -
    have "set ?b \<subseteq> set (outbox d)" using batch_set by blast
    then have "fold (\<lambda>r. put_row ob_id (failed_row no_producer r)) ?b (outbox d) =
        map (\<lambda>r. if r \<in> set ?b then failed_row no_producer r else r) (outbox d)"
      using fold_rows [OF key _ batch_distinct [OF key], of "\<lambda>i. False" "failed_row no_producer"] by simp
    also have "\<dots> = map ?g (outbox d)"
      by (rule map_pending) (rule mem)
    finally show ?thesis .
  qed
  have fits: "fits_outbox r" if "r \<in> set (outbox d)" for r
    using assms(1) that by (simp add: db_ok_def fits_def list_all_iff)
  have ok: "db_ok (d\<lparr>outbox := map ?g (outbox d)\<rparr>)"
    by (rule db_ok_outbox [OF assms(1)])
      (use assms(3) failed_row_fits fits in \<open>auto simp: pending_rows_def\<close>)
  show ?thesis
  proof (cases "?b = []")
    case True
    then have "map ?g (outbox d) = outbox d"
      using mem by (auto intro!: map_idI)
    then have "d\<lparr>outbox := map ?g (outbox d)\<rparr> = d"
      by simp
    with True show ?thesis
      by (simp add: relay_poll_def quiet_def)
  next
    case False
    have "commit None (d\<lparr>outbox := map ?g (outbox d)\<rparr>) = Inr (d\<lparr>outbox := map ?g (outbox d)\<rparr>)"
      using ok by (simp only: commit_ok)
    then show ?thesis
      using False by (simp add: relay_poll_def quiet_def relay_records_down fold)
  qed
qed

text \<open>A pending record after \<open>n\<close> polls without a producer.\<close>

definition aged :: "nat \<Rightarrow> outbox_row \<Rightarrow> outbox_row" where
  "aged n r =
     (if n = 0 then r
      else r\<lparr>ob_attempts := int n, ob_last_error := Some ''RuntimeError: Kafka producer not available'',
             ob_status := if max_attempts \<le> int n then ''failed'' else ''pending''\<rparr>)"

definition aged_db :: "nat \<Rightarrow> db \<Rightarrow> db" where
  "aged_db n d = d\<lparr>outbox := map (\<lambda>r. if ob_status r = ''pending'' then aged n r else r) (outbox d)\<rparr>"

lemma aged_step:
  "ob_status r = ''pending'' \<Longrightarrow> ob_attempts r = 0 \<Longrightarrow> failed_row no_producer (aged n r) = aged (Suc n) r"
  by (cases r) (simp add: aged_def failed_row_def no_producer_def Let_def max_attempts_def)

lemma aged_status: "n < 10 \<Longrightarrow> ob_status r = ''pending'' \<Longrightarrow> ob_status (aged n r) = ''pending''"
  by (simp add: aged_def max_attempts_def)

lemma filter_map_if:
  "(\<And>r. r \<in> set xs \<Longrightarrow> P r \<Longrightarrow> P (g r)) \<Longrightarrow> filter P (map (\<lambda>r. if P r then g r else r) xs) = map g (filter P xs)"
  by (induction xs) auto

lemma aged_pending: "n < 10 \<Longrightarrow> pending_rows (aged_db n d) = map (aged n) (pending_rows d)"
  by (simp add: pending_rows_def aged_db_def filter_map_if aged_status)

lemma aged_db_ok:
  assumes "db_ok d" and "n \<le> 10" shows "db_ok (aged_db n d)"
proof -
  have "fits_outbox r" if "r \<in> set (outbox d)" for r
    using assms(1) that by (simp add: db_ok_def fits_def list_all_iff)
  then show ?thesis
    unfolding aged_db_def using assms(2)
    by (intro db_ok_outbox [OF assms(1)]) (auto simp: aged_def fits_outbox_def int4_def)
qed

lemma aged_poll:
  assumes "n < 10" and "db_ok d" and "length (pending_rows d) \<le> 10"
    and "\<And>r. r \<in> set (pending_rows d) \<Longrightarrow> ob_attempts r = 0"
  shows "relay_poll send quiet (aged_db n d) None = (Inr (), aged_db (Suc n) d, None)"
proof -
  have att: "ob_attempts r < max_attempts" if "r \<in> set (pending_rows (aged_db n d))" for r
    using that assms(1,4) by (auto simp: aged_pending aged_def max_attempts_def)
  have "failed_row no_producer (aged n r) = aged (Suc n) r" if "r \<in> set (outbox d)" "ob_status r = ''pending''" for r
    using aged_step that assms(4) by (auto simp: pending_rows_def)
  then have "map (\<lambda>r. if ob_status r = ''pending'' then failed_row no_producer r else r) (outbox (aged_db n d)) =
      outbox (aged_db (Suc n) d)"
    using aged_status [OF assms(1)] by (auto simp: aged_db_def)
  moreover have "relay_poll send quiet (aged_db n d) None =
      (Inr (), aged_db n d\<lparr>outbox := map (\<lambda>r. if ob_status r = ''pending'' then failed_row no_producer r else r)
        (outbox (aged_db n d))\<rparr>, None)"
    by (rule down_poll) (use assms aged_db_ok att in \<open>simp_all add: aged_pending\<close>)
  ultimately show ?thesis
    by (simp add: aged_db_def)
qed

lemma aged_run:
  assumes "db_ok d" and "length (pending_rows d) \<le> 10"
    and "\<And>r. r \<in> set (pending_rows d) \<Longrightarrow> ob_attempts r = 0"
  shows "n + m \<le> 10 \<Longrightarrow> relay_run send (replicate m quiet) (aged_db n d) None = (Inr (), aged_db (n + m) d, None)"
proof (induction m arbitrary: n)
  case 0
  then show ?case by simp
next
  case (Suc m)
  then show ?case
    using aged_poll [OF _ assms, of n send] by simp
qed

text \<open>A poll whose sends all succeed.\<close>

definition queued :: "uuid set \<Rightarrow> event_row \<Rightarrow> event_row" where
  "queued ids e = (if ev_id e \<in> ids then e\<lparr>ev_status := ''queued''\<rparr> else e)"

lemma queued_keys [simp]: "ev_id (queued ids e) = ev_id e" "ev_endpoint_id (queued ids e) = ev_endpoint_id e"
  by (simp_all add: queued_def)

lemma mark_queued_events:
  assumes "keyed ev_id (events d)"
  shows "mark_queued i d = d\<lparr>events := map (queued {i}) (events d)\<rparr>"
proof (cases "by_key ev_id i (events d)")
  case None
  then have "map (queued {i}) (events d) = events d"
    by (auto simp: by_key_None queued_def intro!: map_idI)
  with None show ?thesis by (simp add: mark_queued_def)
next
  case (Some ev)
  have "x = ev" if "x \<in> set (events d)" "ev_id x = i" for x
    using Some that assms by (metis by_key_Some by_key_in option.inject)
  then have "put_row ev_id (ev\<lparr>ev_status := ''queued''\<rparr>) (events d) = map (queued {i}) (events d)"
    using by_key_Some [OF Some] by (auto simp: put_row_def queued_def)
  with Some show ?thesis by (simp add: mark_queued_def)
qed

lemma relay_records_up:
  assumes "\<And>m k. fst (send m k) = Inr ()"
  shows "keyed ev_id (events d) \<Longrightarrow> relay_records send [] rs d (Some k) =
    (d\<lparr>outbox := fold (\<lambda>r. put_row ob_id (completed_row r)) rs (outbox d),
       events := map (queued (ob_event_id ` set rs)) (events d)\<rparr>,
     Some (fold (\<lambda>r k. snd (send (outbox_msg r) k)) rs k))"
proof (induction rs arbitrary: d k)
  case Nil
  have "map (queued {}) (events d) = events d" by (intro map_idI) (simp add: queued_def)
  then show ?case by simp
next
  case (Cons r rs)
  have one: "relay_one send r d (Some k) =
      (d\<lparr>outbox := put_row ob_id (completed_row r) (outbox d), events := map (queued {ob_event_id r}) (events d)\<rparr>,
       Some (snd (send (outbox_msg r) k)))"
    using Cons.prems assms [of "outbox_msg r" k]
    by (cases "send (outbox_msg r) k") (simp add: relay_one_def publish_def get_kafka_def mark_queued_events)
  have two: "queued (ob_event_id ` set rs) (queued {ob_event_id r} e) = queued (ob_event_id ` set (r # rs)) e" for e
    by (auto simp: queued_def)
  show ?case
    using Cons by (simp add: one keyed_map two comp_def)
qed

context kafka_producer
begin

lemma fold_send_log:
  assumes "\<And>m k. fst (send m k) = Inr ()"
  shows "log (fold (\<lambda>r k. snd (send (outbox_msg r) k)) rs k) = log k @ map outbox_msg rs"
proof (induction rs arbitrary: k)
  case Nil
  then show ?case by simp
next
  case (Cons r rs)
  have "log (snd (send (outbox_msg r) k)) = log k @ [outbox_msg r]"
    using send_ok assms [of "outbox_msg r" k] by (metis prod.collapse)
  with Cons show ?case by simp
qed

end

lemma up_poll:
  assumes "\<And>m k. fst (send m k) = Inr ()" and "db_ok d"
  shows "relay_poll send quiet d (Some k) =
    (Inr (),
     d\<lparr>outbox := map (\<lambda>r. if r \<in> set (batch (\<lambda>i. False) d) then completed_row r else r) (outbox d),
       events := map (queued (ob_event_id ` set (batch (\<lambda>i. False) d))) (events d)\<rparr>,
     Some (fold (\<lambda>r k. snd (send (outbox_msg r) k)) (batch (\<lambda>i. False) d) k))"
    (is "_ = (_, ?d, Some ?k)")
proof -
  let ?b = "batch (\<lambda>i. False) d"
  have keys: "keyed ob_id (outbox d)" "keyed ev_id (events d)"
    using assms(2) by (simp_all add: db_ok_def integrity_def)
  have sub: "set ?b \<subseteq> set (outbox d)" using batch_set by blast
  have fits: "fits_outbox r" if "r \<in> set (outbox d)" for r
    using assms(2) that by (simp add: db_ok_def fits_def list_all_iff)
  have recs: "relay_records send [] ?b d (Some k) = (?d, Some ?k)"
    using relay_records_up [OF assms(1) keys(2)] fold_rows [OF keys(1) sub batch_distinct [OF keys(1)], of completed_row]
    by simp
  have "db_ok (d\<lparr>outbox := map (\<lambda>r. if r \<in> set ?b then completed_row r else r) (outbox d)\<rparr>)"
    by (rule db_ok_outbox [OF assms(2)]) (auto simp: completed_row_fits fits)
  from db_ok_events [OF this, of "queued (ob_event_id ` set ?b)"] have "db_ok ?d"
    by (auto simp: queued_def fits_event_def)
  then have com: "commit None ?d = Inr ?d" by (simp only: commit_ok)
  show ?thesis
  proof (cases "?b = []")
    case True
    then have "map (queued (ob_event_id ` set ?b)) (events d) = events d"
      "map (\<lambda>r. if r \<in> set ?b then completed_row r else r) (outbox d) = outbox d"
      by (auto simp: queued_def intro!: map_idI)
    with True show ?thesis by (simp add: relay_poll_def quiet_def)
  next
    case False
    then show ?thesis
      using com recs by (simp add: relay_poll_def quiet_def Let_def)
  qed
qed

section \<open>Properties\<close>

text \<open>
  C6: the outbox never forgets.  Whatever happens in a series of polls (records locked by another
  relay, stop signals, sends that raise with or without storing the message, commits that fail), every
  record that is marked completed in the database has its message in the broker's log, if that held
  before; and no message leaves the log.
\<close>
theorem completed_means_published:
  assumes "kafka_producer send lg" and "completed_sent lg d producer"
    and "relay_run send inputs d producer = (res, d', producer')"
  shows "(\<forall>r \<in> set (outbox d'). ob_status r = ''completed'' \<longrightarrow> outbox_msg r \<in> sent lg producer') \<and>
    sent lg producer \<subseteq> sent lg producer'"
  using kafka_producer.relay_run_sent [OF assms(1,3,2)] by (simp add: completed_sent_def)

text \<open>
  The life of an outbox record.  Under any series of polls a record is pending or completed with
  fewer than ten failed attempts, or failed with exactly ten; nothing else occurs, and no record
  appears or disappears as far as the bound is concerned.
\<close>
theorem outbox_record_states:
  assumes "list_all outbox_row_ok (outbox d)" and "relay_run send inputs d producer = (res, d', producer')"
  shows "\<forall>r \<in> set (outbox d').
    (ob_status r = ''pending'' \<and> 0 \<le> ob_attempts r \<and> ob_attempts r < 10) \<or>
    (ob_status r = ''completed'' \<and> 0 \<le> ob_attempts r \<and> ob_attempts r < 10) \<or>
    (ob_status r = ''failed'' \<and> ob_attempts r = 10)"
  using relay_run_ok [OF assms(2,1)] by (simp add: list_all_iff outbox_row_ok_def max_attempts_def)

text \<open>
  A poll with a working producer.  When every send succeeds, an undisturbed poll publishes the
  records of its batch, in the order of their creation and each once; exactly those records become
  completed and exactly their events become queued, and the transaction commits.
\<close>
theorem poll_publishes_batch:
  assumes "kafka_producer send lg" and "\<And>m k. fst (send m k) = Inr ()" and "db_ok d"
  shows "\<exists>d' k'. relay_poll send quiet d (Some k) = (Inr (), d', Some k') \<and>
    lg k' = lg k @ map outbox_msg (batch (\<lambda>i. False) d) \<and>
    outbox d' = map (\<lambda>r. if r \<in> set (batch (\<lambda>i. False) d) then r\<lparr>ob_status := ''completed''\<rparr> else r) (outbox d) \<and>
    events d' = map (\<lambda>e. if ev_id e \<in> ob_event_id ` set (batch (\<lambda>i. False) d)
                         then e\<lparr>ev_status := ''queued''\<rparr> else e) (events d) \<and>
    sorted (map ob_created_at (batch (\<lambda>i. False) d)) \<and> length (batch (\<lambda>i. False) d) \<le> 10"
proof -
  have "lg (fold (\<lambda>r k. snd (send (outbox_msg r) k)) (batch (\<lambda>i. False) d) k) =
      lg k @ map outbox_msg (batch (\<lambda>i. False) d)"
    by (rule kafka_producer.fold_send_log [OF assms(1,2)])
  then show ?thesis
    unfolding up_poll [OF assms(2,3)] queued_def completed_row_def
    using batch_sorted [of "\<lambda>i. False" d] batch_length [of "\<lambda>i. False" d] by simp
qed

text \<open>
  A relay whose producer could not be started gives its records up.  With at most ten pending
  records that were never tried, ten undisturbed polls mark all of them failed with ten attempts and
  change nothing else; afterwards no poll selects them any more, although Kafka was never asked.
\<close>
theorem no_producer_fails_records:
  assumes "db_ok d" and "length (pending_rows d) \<le> 10"
    and "\<And>r. r \<in> set (pending_rows d) \<Longrightarrow> ob_attempts r = 0"
  shows "\<exists>d'. relay_run send (replicate 10 quiet) d None = (Inr (), d', None) \<and>
    d' = d\<lparr>outbox := map (\<lambda>r. if ob_status r = ''pending''
       then r\<lparr>ob_attempts := 10, ob_last_error := Some ''RuntimeError: Kafka producer not available'',
              ob_status := ''failed''\<rparr> else r) (outbox d)\<rparr> \<and>
    batch (\<lambda>i. False) d' = []"
proof -
  have start: "aged_db 0 d = d"
    by (simp add: aged_db_def aged_def cong: if_cong)
  have "relay_run send (replicate 10 quiet) d None = (Inr (), aged_db 10 d, None)"
    using aged_run [OF assms, of 0 10 send] start by simp
  moreover have "aged_db 10 d = d\<lparr>outbox := map (\<lambda>r. if ob_status r = ''pending''
       then r\<lparr>ob_attempts := 10, ob_last_error := Some ''RuntimeError: Kafka producer not available'',
              ob_status := ''failed''\<rparr> else r) (outbox d)\<rparr>"
    by (simp add: aged_db_def aged_def max_attempts_def)
  moreover have "filter (\<lambda>r. ob_status r = ''pending'') (outbox (aged_db 10 d)) = []"
    by (auto simp: aged_db_def aged_def max_attempts_def filter_empty_conv)
  then have "batch (\<lambda>i. False) (aged_db 10 d) = []"
    by (simp add: batch_def)
  ultimately show ?thesis by metis
qed

section \<open>Closed examples\<close>

text \<open>One event with its pending outbox record.\<close>

definition ex_outbox :: outbox_row where
  "ex_outbox = \<lparr>ob_id = 9, ob_event_id = 4, ob_status = ''pending'', ob_publish_key = ''k'',
     ob_publish_topic = ''raw-events'', ob_attempts = 0, ob_last_error = None, ob_created_at = 0,
     ob_processed_at = None\<rparr>"

definition ex_relay_db :: db where
  "ex_relay_db = empty_db\<lparr>
     workspaces := [\<lparr>ws_id = 1, ws_name = ''w'', ws_slug = ''w'', ws_created_at = 0, ws_updated_at = 0\<rparr>],
     endpoints := [\<lparr>ep_id = 2, ep_workspace_id = 1, ep_name = ''e'', ep_hmac_secret = ''s'', ep_is_active = True,
       ep_rate_limit_rps = None, ep_ip_allowlist = None, ep_request_body_schema = None, ep_created_at = 0,
       ep_updated_at = 0\<rparr>],
     events := [\<lparr>ev_id = 4, ev_endpoint_id = 2, ev_idempotency_key = None, ev_request_body = JNull,
       ev_request_headers = None, ev_status = ''pending'', ev_retry_at = None, ev_received_at = 0,
       ev_is_discarded = False, ev_discarded_at = None\<rparr>],
     outbox := [ex_outbox]\<rparr>"

lemma ex_relay_db_ok: "db_ok ex_relay_db"
  by (simp add: db_ok_def fits_def integrity_def ex_relay_db_def empty_db_def keyed_def refers_def fits_workspace_def
      fits_endpoint_def fits_event_def fits_outbox_def ex_outbox_def short_def opt_ok_def int4_def)

lemma ex_pending: "pending_rows ex_relay_db = [ex_outbox]" "batch (\<lambda>i. False) ex_relay_db = [ex_outbox]"
  by (simp_all add: pending_rows_def batch_def ex_relay_db_def ex_outbox_def batch_size_def)

definition sure_send :: "broker sender" where
  "sure_send m k = (Inr (), k\<lparr>br_log := br_log k @ [m]\<rparr>)"

interpretation sure: kafka_producer sure_send br_log
  by unfold_locales (simp_all add: sure_send_def)

lemma ex_run:
  "\<exists>k. relay_run sure_send [quiet] ex_relay_db (Some empty_broker) =
    (Inr (), ex_relay_db\<lparr>outbox := [completed_row ex_outbox], events := map (queued {4}) (events ex_relay_db)\<rparr>, Some k)"
proof -
  have "fst (sure_send m k) = Inr ()" for m k by (simp add: sure_send_def)
  note up = up_poll [OF this ex_relay_db_ok, where k = empty_broker]
  have "outbox ex_relay_db = [ex_outbox]" "ob_event_id ex_outbox = 4"
    by (simp_all add: ex_relay_db_def ex_outbox_def)
  then show ?thesis
    by (simp add: up ex_pending)
qed

theorem completed_means_published_witness:
  "outbox_msg (completed_row ex_outbox) \<in> sent br_log (snd (snd (relay_run sure_send [quiet] ex_relay_db (Some empty_broker))))"
proof -
  have start: "completed_sent br_log ex_relay_db (Some empty_broker)"
    by (simp add: completed_sent_def ex_relay_db_def ex_outbox_def)
  obtain k where run: "relay_run sure_send [quiet] ex_relay_db (Some empty_broker) =
    (Inr (), ex_relay_db\<lparr>outbox := [completed_row ex_outbox], events := map (queued {4}) (events ex_relay_db)\<rparr>, Some k)"
    using ex_run by blast
  have "ob_status (completed_row ex_outbox) = ''completed''" by (simp add: completed_row_def)
  then show ?thesis
    using completed_means_published [OF sure.kafka_producer_axioms start run] by (simp only: run) simp
qed

theorem outbox_record_states_witness:
  "\<exists>r. outbox (fst (snd (relay_run sure_send [quiet] ex_relay_db (Some empty_broker)))) = [r] \<and> ob_attempts r \<le> 10"
proof -
  have start: "list_all outbox_row_ok (outbox ex_relay_db)"
    by (simp add: ex_relay_db_def ex_outbox_def outbox_row_ok_def max_attempts_def)
  obtain k where run: "relay_run sure_send [quiet] ex_relay_db (Some empty_broker) =
    (Inr (), ex_relay_db\<lparr>outbox := [completed_row ex_outbox], events := map (queued {4}) (events ex_relay_db)\<rparr>, Some k)"
    using ex_run by blast
  show ?thesis
    using outbox_record_states [OF start run] by (simp only: run) force
qed

theorem poll_publishes_batch_witness:
  "\<exists>d' k'. relay_poll sure_send quiet ex_relay_db (Some empty_broker) = (Inr (), d', Some k') \<and>
    br_log k' = [outbox_msg ex_outbox] \<and> outbox d' = [ex_outbox\<lparr>ob_status := ''completed''\<rparr>]"
proof -
  have "fst (sure_send m k) = Inr ()" for m k by (simp add: sure_send_def)
  from poll_publishes_batch [OF sure.kafka_producer_axioms this ex_relay_db_ok, of empty_broker]
  show ?thesis
    by (auto simp: ex_pending empty_broker_def) (auto simp: ex_relay_db_def)
qed

theorem no_producer_fails_records_witness:
  "\<exists>d'. relay_run ref_send (replicate 10 quiet) ex_relay_db None = (Inr (), d', None) \<and> batch (\<lambda>i. False) d' = []"
proof -
  have "length (pending_rows ex_relay_db) \<le> 10" "\<And>r. r \<in> set (pending_rows ex_relay_db) \<Longrightarrow> ob_attempts r = 0"
    by (simp_all add: ex_pending, simp add: ex_outbox_def)
  from no_producer_fails_records [OF ex_relay_db_ok this, of ref_send] show ?thesis by blast
qed

end
