(* ===== verification/Retry_Scheduler.thy ===== *)
theory Retry_Scheduler
  imports Outbox_Relay Settings
begin

text \<open>
  The retry scheduler of \<open>workers/retry_scheduler.py\<close>: a poll selects events that are failed,
  due and not discarded, sends each one to the raw topic again, and commits.  An exception of the
  database ends the poll, not the process.  Inputs of a poll: the rows locked by others, the
  instant of the query, the instants at which failures are noted, and a fault of the commit.
\<close>

definition retry_delay_s :: rat where
  "retry_delay_s = 30"

definition retry_msg :: "settings \<Rightarrow> event_row \<Rightarrow> kmsg" where
  "retry_msg cfg ev =
     \<lparr>km_topic = kafka_topic_raw_events cfg, km_key = uuid_str (ev_endpoint_id ev),
      km_value = JObj [(''event_id'', JStr (uuid_str (ev_id ev))),
                       (''endpoint_id'', JStr (uuid_str (ev_endpoint_id ev)))]\<rparr>"

record retry_input =
  ri_locked :: "uuid \<Rightarrow> bool"
  ri_now :: time
  ri_clock :: "uuid \<Rightarrow> time"
  ri_fault :: "exc option"

definition due :: "time \<Rightarrow> event_row \<Rightarrow> bool" where
  "due now ev =
     (ev_status ev = ''failed'' \<and> (case ev_retry_at ev of None \<Rightarrow> False | Some t \<Rightarrow> t \<le> now) \<and>
      \<not> ev_is_discarded ev)"

definition due_events :: "retry_input \<Rightarrow> db \<Rightarrow> event_row list" where
  "due_events inp d = take 50 (filter (\<lambda>ev. due (ri_now inp) ev \<and> \<not> ri_locked inp (ev_id ev)) (events d))"

definition requeued :: "event_row \<Rightarrow> event_row" where
  "requeued ev = ev\<lparr>ev_status := ''queued'', ev_retry_at := None\<rparr>"

definition postponed :: "time \<Rightarrow> event_row \<Rightarrow> event_row" where
  "postponed now ev = ev\<lparr>ev_retry_at := Some (now + retry_delay_s)\<rparr>"

fun retry_events :: "settings \<Rightarrow> 'k sender \<Rightarrow> (uuid \<Rightarrow> time) \<Rightarrow> event_row list \<Rightarrow> event_row list \<Rightarrow> 'k \<Rightarrow>
    event_row list \<times> 'k" where
  "retry_events cfg send clock [] rows k = (rows, k)"
| "retry_events cfg send clock (ev # evs) rows k =
     (let (r, k') = send (retry_msg cfg ev) k;
          ev' = (case r of Inr u \<Rightarrow> requeued ev | Inl e \<Rightarrow> postponed (clock (ev_id ev)) ev)
      in retry_events cfg send clock evs (put_row ev_id ev' rows) k')"

definition retry_poll :: "settings \<Rightarrow> 'k sender \<Rightarrow> retry_input \<Rightarrow> db \<Rightarrow> 'k option \<Rightarrow> db \<times> 'k option" where
  "retry_poll cfg send inp d producer =
     (case get_kafka producer of
        None \<Rightarrow> (d, producer)
      | Some k \<Rightarrow>
          (let (rows, k') = retry_events cfg send (ri_clock inp) (due_events inp d) (events d) k
           in (committed d (commit (ri_fault inp) (d\<lparr>events := rows\<rparr>)), Some k')))"

text \<open>
  The process: the producer is started once, then polls follow each other every fifteen seconds until the
  process is interrupted; the inputs of the polls are a list.
\<close>

fun retry_loop :: "settings \<Rightarrow> 'k sender \<Rightarrow> retry_input list \<Rightarrow> db \<Rightarrow> 'k option \<Rightarrow> db \<times> 'k option" where
  "retry_loop cfg send [] d producer = (d, producer)"
| "retry_loop cfg send (inp # inps) d producer =
     (let (d', producer') = retry_poll cfg send inp d producer in retry_loop cfg send inps d' producer')"

definition run_scheduler :: "settings \<Rightarrow> 'k sender \<Rightarrow> 'k \<Rightarrow> exc option \<Rightarrow> exc option \<Rightarrow> retry_input list \<Rightarrow> db \<Rightarrow>
    db \<times> 'k option" where
  "run_scheduler cfg send client start_fault stop_fault inps d =
     retry_loop cfg send inps d (init_kafka client start_fault stop_fault None)"

definition stop_scheduler :: "exc option \<Rightarrow> 'k option \<Rightarrow> 'k option" where
  "stop_scheduler stop_fault producer = close_kafka stop_fault producer"

section \<open>Lemmas\<close>

definition retried :: "('k \<Rightarrow> kmsg list) \<Rightarrow> settings \<Rightarrow> (uuid \<Rightarrow> time) \<Rightarrow> 'k \<Rightarrow> event_row \<Rightarrow> event_row \<Rightarrow> bool" where
  "retried lg cfg clock k e e' \<longleftrightarrow>
     e' = requeued e \<and> retry_msg cfg e \<in> set (lg k) \<or> e' = postponed (clock (ev_id e)) e"

lemma keep_ids [simp]: "ev_id (requeued e) = ev_id e" "ev_id (postponed t e) = ev_id e"
  by (simp_all add: requeued_def postponed_def)

lemma due_events_set:
  "e \<in> set (due_events inp d) \<Longrightarrow> e \<in> set (events d) \<and> due (ri_now inp) e \<and> \<not> ri_locked inp (ev_id e)"
  by (auto simp: due_events_def dest!: in_set_takeD)

lemma due_events_distinct: "keyed ev_id (events d) \<Longrightarrow> distinct (map ev_id (due_events inp d))"
  by (auto simp: due_events_def keyed_def distinct_map intro: inj_on_subset dest!: in_set_takeD)

lemma retry_poll_producer: "retry_poll cfg send inp d (Some k) = (d', p) \<Longrightarrow> \<exists>k'. p = Some k'"
  by (auto simp: retry_poll_def get_kafka_def split: prod.splits)

context kafka_producer
begin

lemma retry_events_rows:
  "distinct (map ev_id evs) \<Longrightarrow> retry_events cfg send clock evs rows k = (rows', k') \<Longrightarrow>
   set (log k) \<subseteq> set (log k') \<and> length rows' = length rows \<and>
   (\<forall>i < length rows. (ev_id (rows ! i) \<notin> ev_id ` set evs \<and> rows' ! i = rows ! i) \<or>
      (\<exists>e \<in> set evs. ev_id e = ev_id (rows ! i) \<and> retried log cfg clock k' e (rows' ! i)))"
proof (induction evs arbitrary: rows k)
  case Nil
  then show ?case by simp
next
  case (Cons ev evs)
  obtain r k1 where s: "send (retry_msg cfg ev) k = (r, k1)" by (cases "send (retry_msg cfg ev) k")
  define ev' where "ev' = (case r of Inr u \<Rightarrow> requeued ev | Inl e \<Rightarrow> postponed (clock (ev_id ev)) ev)"
  have ident: "ev_id ev' = ev_id ev" by (simp add: ev'_def split: sum.split)
  have run: "retry_events cfg send clock evs (put_row ev_id ev' rows) k1 = (rows', k')"
    using Cons.prems(2) by (simp add: s ev'_def)
  note ih = Cons.IH [OF _ run]
  have sub: "set (log k) \<subseteq> set (log k1)" using send_log [OF s] by blast
  have now: "retried log cfg clock k' ev ev'"
    using ih Cons.prems(1) send_delivered [of "retry_msg cfg ev" k k1] s
    by (auto simp: retried_def ev'_def split: sum.splits)
  have ids: "map ev_id (put_row ev_id ev' rows) = map ev_id rows" by simp
  show ?case
  proof (intro conjI allI impI)
    show "set (log k) \<subseteq> set (log k')" using sub ih Cons.prems(1) by auto
    show "length rows' = length rows" using ih Cons.prems(1) by simp
    fix i assume i: "i < length rows"
    have id_i: "ev_id (put_row ev_id ev' rows ! i) = ev_id (rows ! i)"
      using ids i by (metis length_put_row nth_map)
    have put_i: "put_row ev_id ev' rows ! i = (if ev_id (rows ! i) = ev_id ev then ev' else rows ! i)"
      using i ident by (simp add: put_row_def)
    from ih Cons.prems(1) i
    have "(ev_id (rows ! i) \<notin> ev_id ` set evs \<and> rows' ! i = put_row ev_id ev' rows ! i) \<or>
      (\<exists>e \<in> set evs. ev_id e = ev_id (rows ! i) \<and> retried log cfg clock k' e (rows' ! i))"
      by (auto simp: id_i)
    then show "(ev_id (rows ! i) \<notin> ev_id ` set (ev # evs) \<and> rows' ! i = rows ! i) \<or>
      (\<exists>e \<in> set (ev # evs). ev_id e = ev_id (rows ! i) \<and> retried log cfg clock k' e (rows' ! i))"
      using now by (auto simp: put_i split: if_splits)
  qed
qed

end

section \<open>Properties\<close>

text \<open>
  A retry poll only touches due events and never loses one.  Whatever the sends and the commit do,
  every event keeps its place, and afterwards it is either as before, or it was failed, due and not
  discarded and is now queued with its message in the broker's log, or still failed and due again
  thirty seconds after the failure.
\<close>
theorem retry_poll_safe:
  assumes "kafka_producer send lg" and "keyed ev_id (events d)"
    and "retry_poll cfg send inp d (Some k) = (d', Some k')"
  shows "length (events d') = length (events d) \<and>
    (\<forall>i < length (events d).
       events d' ! i = events d ! i \<or>
       due (ri_now inp) (events d ! i) \<and>
       (events d' ! i = (events d ! i)\<lparr>ev_status := ''queued'', ev_retry_at := None\<rparr> \<and>
          retry_msg cfg (events d ! i) \<in> set (lg k') \<or>
        events d' ! i = (events d ! i)\<lparr>ev_retry_at := Some (ri_clock inp (ev_id (events d ! i)) + 30)\<rparr>))"
proof -
  obtain rows k1 where run: "retry_events cfg send (ri_clock inp) (due_events inp d) (events d) k = (rows, k1)"
    by (cases "retry_events cfg send (ri_clock inp) (due_events inp d) (events d) k")
  have k': "k' = k1" and d': "d' = d \<or> d' = d\<lparr>events := rows\<rparr>"
    using assms(3) run by (auto simp: retry_poll_def get_kafka_def committed_def commit_ok split: sum.splits)
  note rows = kafka_producer.retry_events_rows [OF assms(1) due_events_distinct [OF assms(2)] run]
  have "rows ! i = events d ! i \<or> due (ri_now inp) (events d ! i) \<and>
      retried lg cfg (ri_clock inp) k1 (events d ! i) (rows ! i)" if i: "i < length (events d)" for i
  proof -
    have "e = events d ! i" if "e \<in> set (due_events inp d)" "ev_id e = ev_id (events d ! i)" for e
      using due_events_set [OF that(1)] that(2) assms(2) i by (metis by_key_in nth_mem option.inject)
    then show ?thesis
      using rows i due_events_set by blast
  qed
  then have per: "\<forall>i < length (events d). rows ! i = events d ! i \<or>
       due (ri_now inp) (events d ! i) \<and>
       (rows ! i = (events d ! i)\<lparr>ev_status := ''queued'', ev_retry_at := None\<rparr> \<and>
          retry_msg cfg (events d ! i) \<in> set (lg k') \<or>
        rows ! i = (events d ! i)\<lparr>ev_retry_at := Some (ri_clock inp (ev_id (events d ! i)) + 30)\<rparr>)"
    by (simp add: k' retried_def requeued_def postponed_def retry_delay_s_def)
  have "length rows = length (events d)" using rows by blast
  from d' show ?thesis
  proof
    assume "d' = d\<lparr>events := rows\<rparr>"
    then have e: "events d' = rows" by simp
    show ?thesis
      unfolding e using per \<open>length rows = length (events d)\<close> by blast
  qed simp
qed

text \<open>
  The producer is started once and for all: if Kafka is not there when the scheduler starts, no poll ever
  does anything, however many follow and whatever is due.
\<close>

lemma retry_loop_no_producer: "retry_loop cfg send inps d None = (d, None)"
  by (induction inps) (simp_all add: retry_poll_def get_kafka_def)

theorem scheduler_without_kafka:
  "run_scheduler cfg send client (Some e) stop_fault inps d = (d, None)"
  by (simp add: run_scheduler_def init_kafka_def retry_loop_no_producer split: option.split)

section \<open>Closed examples\<close>

definition ex_retry_db :: db where
  "ex_retry_db = ex_relay_db\<lparr>events := [\<lparr>ev_id = 4, ev_endpoint_id = 2, ev_idempotency_key = None,
     ev_request_body = JNull, ev_request_headers = None, ev_status = ''failed'', ev_retry_at = Some 5,
     ev_received_at = 0, ev_is_discarded = False, ev_discarded_at = None\<rparr>]\<rparr>"

definition ex_retry :: retry_input where
  "ex_retry = \<lparr>ri_locked = (\<lambda>i. False), ri_now = 10, ri_clock = (\<lambda>i. 11), ri_fault = None\<rparr>"

theorem retry_poll_safe_witness:
  "length (events (fst (retry_poll default_settings ref_send ex_retry ex_retry_db (Some empty_broker)))) = 1"
proof -
  have key: "keyed ev_id (events ex_retry_db)" and len: "length (events ex_retry_db) = 1"
    by (simp_all add: ex_retry_db_def keyed_def)
  obtain d' k' where run: "retry_poll default_settings ref_send ex_retry ex_retry_db (Some empty_broker) = (d', Some k')"
    by (metis retry_poll_producer surj_pair)
  show ?thesis
    using retry_poll_safe [OF ref_kafka.kafka_producer_axioms key run] len by (simp add: run)
qed

end
