(* ===== verification/Transform_Engine.thy ===== *)
theory Transform_Engine
  imports Json
begin

text \<open>
  The transform pipeline of \<open>app/transform/engine.py\<close>.  A step is a \<open>dict\<close>.  The JMESPath
  package is a parameter: \<open>jsearch e v\<close> is \<open>jmespath.search(e, v)\<close>, a value or an exception;
  \<open>None\<close> is \<open>JNull\<close>.  IEEE arithmetic is a parameter too: \<open>fl_parse\<close> is \<open>float(text)\<close> (as its
  \<open>repr\<close>) and \<open>fl_div v r\<close> is \<open>str(v / float(r))\<close>.
\<close>

type_synonym jsearch = "json \<Rightarrow> json \<Rightarrow> json res"

record float_ops =
  fl_parse :: "string \<Rightarrow> string option"
  fl_div :: "json \<Rightarrow> string \<Rightarrow> string res"

section \<open>Template expressions\<close>

fun is_number :: "json \<Rightarrow> bool" where
  "is_number (JInt i) = True"
| "is_number (JFloat r) = True"
| "is_number (JBool b) = True"
| "is_number v = False"

text \<open>The loop over the dotted path: \<open>Inl\<close> is the early return at a value that is no \<open>dict\<close>.\<close>

fun walk_path :: "string list \<Rightarrow> json \<Rightarrow> string + json" where
  "walk_path [] current = Inr current"
| "walk_path (part # ps) current =
     (case current of
        JObj d \<Rightarrow> walk_path ps (dict_get d part (JStr ''''))
      | _ \<Rightarrow> Inl (py_str current))"

definition eval_expr :: "float_ops \<Rightarrow> string \<Rightarrow> json \<Rightarrow> string res" where
  "eval_expr fo expr payload =
     (let parts = py_split CHR ''/'' (remove_char CHR '' '' expr)
      in case walk_path (py_split CHR ''.'' (hd parts)) payload of
           Inl s \<Rightarrow> Inr s
         | Inr current \<Rightarrow>
             if 1 < length parts \<and> is_number current then
               (case fl_parse fo (parts ! 1) of
                  None \<Rightarrow> Inr (py_str current)
                | Some divisor \<Rightarrow>
                    if float_is_zero divisor then Inr ''0''
                    else (case fl_div fo current divisor of
                            Inr s \<Rightarrow> Inr s
                          | Inl e \<Rightarrow> if is_value_error e then Inr (py_str current) else Inl e))
             else Inr (py_str current))"

section \<open>Template substitution\<close>

text \<open>
  \<open>TEMPLATE_PATTERN\<close>, two opening braces, the lazy group \<open>.+?\<close>, two closing braces.
  \<open>lazy_group\<close> reads up to the first two closing braces and fails at a line end;
  \<open>match_group\<close> asks for one character before that.
\<close>

fun lazy_group :: "string \<Rightarrow> (string \<times> string) option" where
  "lazy_group [] = None"
| "lazy_group (c # cs) =
     (if starts_with (c # cs) ''}}'' then Some ([], tl cs)
      else if ch c = 10 then None
      else map_option (\<lambda>(g, r). (c # g, r)) (lazy_group cs))"

definition match_group :: "string \<Rightarrow> (string \<times> string) option" where
  "match_group s =
     (case s of [] \<Rightarrow> None
      | c # cs \<Rightarrow> if ch c = 10 then None else map_option (\<lambda>(g, r). (c # g, r)) (lazy_group cs))"

lemma lazy_group_length: "lazy_group s = Some (g, r) \<Longrightarrow> length r < length s"
  by (induction s arbitrary: g r) (auto simp: starts_with_def split: if_splits)

lemma match_group_length: "match_group s = Some (g, r) \<Longrightarrow> length r < length s"
  by (auto simp: match_group_def dest!: lazy_group_length split: list.splits if_splits)

function sub_template :: "(string \<Rightarrow> string res) \<Rightarrow> string \<Rightarrow> string res" where
  "sub_template f [] = Inr []"
| "sub_template f (c # cs) =
     (case (if starts_with (c # cs) ''{{'' then match_group (tl cs) else None) of
        Some (g, r) \<Rightarrow> bind_res (f (py_strip is_space g)) (\<lambda>v. bind_res (sub_template f r) (\<lambda>t. Inr (v @ t)))
      | None \<Rightarrow> bind_res (sub_template f cs) (\<lambda>t. Inr (c # t)))"
  by pat_completeness auto
termination
  by (relation "measure (\<lambda>(f, s). length s)")
    (auto dest!: match_group_length split: if_splits intro: less_trans)

fun apply_items :: "float_ops \<Rightarrow> dict \<Rightarrow> json \<Rightarrow> dict \<Rightarrow> dict res" where
  "apply_items fo [] payload result = Inr result"
| "apply_items fo ((key, value) # items) payload result =
     (case value of
        JStr s \<Rightarrow> bind_res (sub_template (\<lambda>e. eval_expr fo e payload) s)
                    (\<lambda>t. apply_items fo items payload (dict_set key (JStr t) result))
      | v \<Rightarrow> apply_items fo items payload (dict_set key v result))"

definition apply_template :: "float_ops \<Rightarrow> json \<Rightarrow> json \<Rightarrow> json res" where
  "apply_template fo template payload =
     (case template of
        JObj items \<Rightarrow> bind_res (apply_items fo items payload []) (\<lambda>d. Inr (JObj d))
      | _ \<Rightarrow> Inl (OtherError ''AttributeError'' ''items''))"

section \<open>The pipeline\<close>

definition max_expression_len :: nat where
  "max_expression_len = 2048"

text \<open>\<open>len(expr)\<close>; a value that has none raises \<open>TypeError\<close>.\<close>

fun json_len :: "json \<Rightarrow> nat option" where
  "json_len (JStr s) = Some (length s)"
| "json_len (JArr xs) = Some (length xs)"
| "json_len (JObj d) = Some (length d)"
| "json_len v = None"

definition step_err :: "nat \<Rightarrow> string \<Rightarrow> string" where
  "step_err idx msg = ''Pipeline step '' @ show_nat idx @ msg"

definition run_step :: "float_ops \<Rightarrow> jsearch \<Rightarrow> nat \<Rightarrow> dict \<Rightarrow> json \<Rightarrow> json res" where
  "run_step fo jsearch idx step current =
     (let step_type = dict_get step ''type'' JNull
      in if step_type = JStr ''passthrough'' then Inr current
         else if step_type = JStr ''template'' then
           (case map_of step ''body'' of
              None \<Rightarrow> Inl (KeyError (step_err idx '' (template) is missing the required 'body' field.''))
            | Some body \<Rightarrow> apply_template fo body current)
         else if step_type = JStr ''jmespath'' then
           (case map_of step ''expression'' of
              None \<Rightarrow> Inl (KeyError (step_err idx '' (jmespath) is missing the required 'expression' field.''))
            | Some expr \<Rightarrow>
                (case json_len expr of
                   None \<Rightarrow> Inl (TypeError ''object has no len()'')
                 | Some n \<Rightarrow>
                     if max_expression_len < n
                     then Inl (ValueError (step_err idx '': jmespath expression exceeds 2048 character limit.''))
                     else bind_res (jsearch expr current)
                            (\<lambda>result. Inr (if result \<noteq> JNull then result else current))))
         else Inl (ValueError (step_err idx ('': unknown step type '' @ py_repr step_type @
                ''. Allowed types: 'passthrough', 'template', 'jmespath'.''))))"

fun run_steps :: "float_ops \<Rightarrow> jsearch \<Rightarrow> nat \<Rightarrow> dict list \<Rightarrow> json \<Rightarrow> json res" where
  "run_steps fo jsearch idx [] current = Inr current"
| "run_steps fo jsearch idx (step # steps) current =
     bind_res (run_step fo jsearch idx step current)
       (\<lambda>next. run_steps fo jsearch (Suc idx) steps next)"

definition apply_pipeline :: "float_ops \<Rightarrow> jsearch \<Rightarrow> dict list \<Rightarrow> json \<Rightarrow> json res" where
  "apply_pipeline fo jsearch pipeline payload = run_steps fo jsearch 0 pipeline payload"

section \<open>Lemmas\<close>

lemma run_steps_append:
  "run_steps fo js i (p @ q) v = bind_res (run_steps fo js i p v) (run_steps fo js (i + length p) q)"
  by (induction p arbitrary: i v) (auto simp: bind_res_def split: sum.splits)

lemma sub_template_plain:
  "CHR ''{'' \<notin> set s \<Longrightarrow> sub_template f (s @ t) = bind_res (sub_template f t) (\<lambda>u. Inr (s @ u))"
proof (induction s)
  case Nil
  then show ?case by (cases "sub_template f t") auto
next
  case (Cons c s)
  then have "\<not> starts_with (c # s @ t) ''{{''"
    by (auto simp: starts_with_def)
  with Cons show ?case by (cases "sub_template f t") auto
qed

lemma lazy_group_hit:
  "CHR ''}'' \<notin> set g \<Longrightarrow> \<forall>c \<in> set g. ch c \<noteq> 10 \<Longrightarrow> lazy_group (g @ ''}}'' @ r) = Some (g, r)"
  by (induction g) (auto simp: starts_with_def)

lemma sub_template_hit:
  assumes "g \<noteq> []" and "CHR ''}'' \<notin> set g" and "\<forall>c \<in> set g. ch c \<noteq> 10"
  shows "sub_template f (''{{'' @ g @ ''}}'' @ r) =
    bind_res (f (py_strip is_space g)) (\<lambda>v. bind_res (sub_template f r) (\<lambda>t. Inr (v @ t)))"
proof -
  obtain c cs where g: "g = c # cs" using assms(1) by (cases g) auto
  then have "match_group (g @ ''}}'' @ r) = Some (g, r)"
    using assms lazy_group_hit [of cs r] by (simp add: match_group_def)
  then show ?thesis by (simp add: starts_with_def)
qed

lemma apply_items_keys:
  assumes "apply_items fo items payload result = Inr d"
    and "distinct (map fst items)" and "fst ` set result \<inter> fst ` set items = {}"
  shows "map fst d = map fst result @ map fst items"
  using assms
proof (induction items arbitrary: result)
  case Nil
  then show ?case by simp
next
  case (Cons kv items)
  obtain k v where kv: "kv = (k, v)" by (cases kv)
  from Cons.prems(3) kv have new: "dict_set k w result = result @ [(k, w)]" for w
    by (intro dict_set_new) auto
  from Cons.prems(1) obtain w where
    "apply_items fo items payload (dict_set k w result) = Inr d"
    by (auto simp: kv bind_res_eq_Inr split: json.splits)
  from Cons.IH [OF this] Cons.prems(2,3) kv new show ?case by auto
qed

section \<open>Properties\<close>

text \<open>
  Running the concatenation of two pipelines is running the first and, if it raises nothing,
  the second on its result, with the step numbers of its error messages shifted.
\<close>

theorem apply_pipeline_append:
  "apply_pipeline fo js (p @ q) payload =
     bind_res (apply_pipeline fo js p payload) (\<lambda>v. run_steps fo js (length p) q v)"
  using run_steps_append [of fo js 0 p q payload] by (simp add: apply_pipeline_def)

text \<open>
  A text that starts with plain text and one placeholder keeps the plain text, puts the value
  of the expression in the placeholder's place without scanning it again, and goes on with
  the rest of the text; an exception of the expression is passed on.
\<close>

theorem template_placeholder:
  assumes "CHR ''{'' \<notin> set pre" and "g \<noteq> []" and "CHR ''}'' \<notin> set g" and "\<forall>c \<in> set g. ch c \<noteq> 10"
  shows "sub_template f (pre @ ''{{'' @ g @ ''}}'' @ rest) =
    bind_res (f (py_strip is_space g))
      (\<lambda>v. bind_res (sub_template f rest) (\<lambda>t. Inr (pre @ v @ t)))"
  by (simp only: sub_template_plain [OF assms(1)] sub_template_hit [OF assms(2-4)] bind_res_assoc)
    (simp add: bind_res_def split: sum.splits)

text \<open>
  The body that a template produces has exactly the template's keys, in the template's order.
\<close>

theorem apply_template_keys:
  assumes "distinct (map fst items)" and "apply_template fo (JObj items) payload = Inr out"
  shows "\<exists>d. out = JObj d \<and> map fst d = map fst items"
proof -
  from assms(2) obtain d where d: "apply_items fo items payload [] = Inr d" and "out = JObj d"
    by (auto simp: apply_template_def bind_res_eq_Inr)
  with apply_items_keys [OF d assms(1)] show ?thesis by simp
qed

text \<open>
  A placeholder that names one key of the payload prints the value of that key, and the empty
  text when the payload has no such key.
\<close>

theorem eval_expr_key:
  assumes "CHR '' '' \<notin> set k" and "CHR ''/'' \<notin> set k" and "CHR ''.'' \<notin> set k"
  shows "eval_expr fo k (JObj d) = Inr (case map_of d k of Some v \<Rightarrow> py_str v | None \<Rightarrow> '''')"
proof -
  have "remove_char CHR '' '' k = k"
    using assms(1) by (auto simp: remove_char_def filter_id_conv)
  then show ?thesis
    using assms(2,3)
    by (auto simp: eval_expr_def py_split_absent dict_get_def split: option.splits)
qed

section \<open>Closed examples\<close>

definition ex_floats :: float_ops where
  "ex_floats = \<lparr>fl_parse = (\<lambda>s. if s = ''100'' then Some ''100.0'' else None),
                fl_div = (\<lambda>v r. if v = JInt 4999 then Inr ''49.99'' else Inl OverflowError)\<rparr>"

theorem template_placeholder_witness:
  "sub_template (\<lambda>e. eval_expr ex_floats e (JObj [(''name'', JStr ''{{Bob}}'')])) ''Hello {{ name }}!'' =
     Inr ''Hello {{Bob}}!''"
  using template_placeholder [of "''Hello ''" "'' name ''"
      "\<lambda>e. eval_expr ex_floats e (JObj [(''name'', JStr ''{{Bob}}'')])" "''!''"]
  by (simp add: py_strip_def py_lstrip_def py_rstrip_def is_space_def eval_expr_def remove_char_def
      dict_get_def starts_with_def)

theorem apply_template_keys_witness:
  "\<exists>d. apply_template ex_floats (JObj [(''b'', JStr ''x''), (''a'', JInt 1)]) JNull = Inr (JObj d) \<and>
       map fst d = [''b'', ''a'']"
  using apply_template_keys [of "[(''b'', JStr ''x''), (''a'', JInt 1)]" ex_floats JNull
      "JObj [(''b'', JStr ''x''), (''a'', JInt 1)]"]
  by (simp add: apply_template_def dict_set_def starts_with_def)

theorem eval_expr_key_witness:
  "eval_expr ex_floats ''a'' (JObj [(''b'', JInt 1), (''a'', JBool True)]) = Inr ''True''"
  using eval_expr_key [of "''a''" ex_floats "[(''b'', JInt 1), (''a'', JBool True)]"] by simp

lemma eval_expr_division:
  "eval_expr ex_floats ''amount / 100'' (JObj [(''amount'', JInt 4999)]) = Inr ''49.99''"
  by (simp add: eval_expr_def remove_char_def dict_get_def ex_floats_def float_is_zero_def)

end
