(* ===== verification/Transform_Filter.thy ===== *)
theory Transform_Filter
  imports Transform_Engine
begin

text \<open>
  Route filters, \<open>app/transform/filter.py\<close>: the context a filter expression is evaluated in,
  and the decision whether a route takes an event.  Logging is left out; what is logged does
  not change the decision.
\<close>

definition headers_json :: "(string \<times> string) list \<Rightarrow> json" where
  "headers_json h = JObj (map (\<lambda>(k, v). (k, JStr v)) h)"

definition build_filter_context :: "json \<Rightarrow> (string \<times> string) list option \<Rightarrow> dict" where
  "build_filter_context body headers =
     (let context = [(''body'', if truthy body then body else JObj []),
                     (''headers'', case headers of Some h \<Rightarrow> headers_json h | None \<Rightarrow> JObj [])]
      in case body of
           JObj items \<Rightarrow>
             fold (\<lambda>(key, value) ctx.
               if key \<noteq> ''body'' \<and> key \<noteq> ''headers'' then dict_setdefault key value ctx else ctx)
               items context
         | _ \<Rightarrow> context)"

definition evaluate_filter :: "jsearch \<Rightarrow> string \<Rightarrow> dict \<Rightarrow> bool res" where
  "evaluate_filter jsearch expression context =
     bind_res (jsearch (JStr expression) (JObj context)) (\<lambda>result. Inr (truthy result))"

definition route_matches_event ::
  "jsearch \<Rightarrow> string option \<Rightarrow> json \<Rightarrow> (string \<times> string) list option \<Rightarrow> bool" where
  "route_matches_event jsearch filter_expression body headers =
     (case filter_expression of
        None \<Rightarrow> True
      | Some expr \<Rightarrow>
          if expr = [] \<or> py_strip is_space expr = [] then True
          else (case evaluate_filter jsearch expr (build_filter_context body headers) of
                  Inl (JMESPathError m) \<Rightarrow> False
                | Inl e \<Rightarrow> False
                | Inr matched \<Rightarrow> matched))"

section \<open>Lemmas\<close>

lemma fold_setdefault_lookup:
  "map_of (fold (\<lambda>(key, value) ctx.
       if key \<noteq> ''body'' \<and> key \<noteq> ''headers'' then dict_setdefault key value ctx else ctx) items ctx) k =
   (case map_of ctx k of Some v \<Rightarrow> Some v
    | None \<Rightarrow> if k = ''body'' \<or> k = ''headers'' then None else map_of items k)"
proof (induction items arbitrary: ctx)
  case Nil
  then show ?case by (auto split: option.splits)
next
  case (Cons kv items)
  obtain a v where kv: "kv = (a, v)" by (cases kv)
  show ?case
    by (auto simp: kv Cons.IH map_of_dict_setdefault split: option.splits)
qed

lemma route_matches_blank:
  "py_strip is_space expr = [] \<Longrightarrow> route_matches_event js (Some expr) body headers"
  by (simp add: route_matches_event_def)

section \<open>Properties\<close>

text \<open>
  In the filter context, \<open>body\<close> is the whole payload (an empty object for a falsy one),
  \<open>headers\<close> the request's headers, and every other name is the payload's key of that name: no
  key of the payload can shadow the headers or the body.
\<close>

theorem filter_context_lookup:
  "map_of (build_filter_context body headers) k =
     (if k = ''body'' then Some (if truthy body then body else JObj [])
      else if k = ''headers'' then Some (case headers of Some h \<Rightarrow> headers_json h | None \<Rightarrow> JObj [])
      else case body of JObj items \<Rightarrow> map_of items k | _ \<Rightarrow> None)"
  by (cases body) (auto simp: build_filter_context_def Let_def fold_setdefault_lookup split: option.splits)

text \<open>
  Filters fail closed: a route takes an event exactly when it has no filter (none, or blank)
  or the expression evaluates, without an exception, to a truthy value.
\<close>

theorem filter_fails_closed:
  "route_matches_event js fexpr body headers \<longleftrightarrow>
     (case fexpr of
        None \<Rightarrow> True
      | Some e \<Rightarrow> py_strip is_space e = [] \<or>
          (\<exists>v. js (JStr e) (JObj (build_filter_context body headers)) = Inr v \<and> truthy v))"
proof (cases fexpr)
  case None
  then show ?thesis by (simp add: route_matches_event_def)
next
  case (Some e)
  have "e = [] \<Longrightarrow> py_strip is_space e = []"
    by (simp add: py_strip_def py_lstrip_def py_rstrip_def)
  with Some show ?thesis
    by (auto simp: route_matches_event_def evaluate_filter_def bind_res_def split: sum.splits exc.splits)
qed

end
