(* ===== verification/Circuit_Breaker.thy ===== *)
theory Circuit_Breaker
  imports Redis_Store Settings
begin

text \<open>
  The circuit breaker of \<open>app/delivery/circuit_breaker.py\<close>: four Redis keys per destination
  URL, read and written by \<open>is_open\<close>, \<open>record_success\<close> and \<open>record_failure\<close>.  An operation
  runs at one instant \<open>now\<close>, which is both \<open>time.time()\<close> and the server's clock.
  The second half relates the keys to an abstract three-phase automaton.
\<close>

section \<open>The operations\<close>

definition cb_key :: "string \<Rightarrow> string \<Rightarrow> string" where
  "cb_key url field = ''cb:'' @ url @ CHR '':'' # field"

text \<open>\<open>float(value or 0)\<close> on what \<open>GET\<close> returned.\<close>

fun float_or_zero :: "rvalue option \<Rightarrow> rat res" where
  "float_or_zero None = Inr 0"
| "float_or_zero (Some (RNum x)) = Inr x"
| "float_or_zero (Some (RStr s)) =
     (if s = [] then Inr 0 else Inl (ValueError ''could not convert string to float''))"
| "float_or_zero (Some (RZset z)) = Inl (OtherError ''ResponseError'' ''WRONGTYPE'')"

definition cb_is_open :: "'s redis_ops \<Rightarrow> settings \<Rightarrow> string \<Rightarrow> time \<Rightarrow> 's \<Rightarrow> bool res \<times> 's" where
  "cb_is_open R cfg url now s =
     (case op_get R now (cb_key url ''state'') s of
        None \<Rightarrow> (Inr False, s)
      | Some state \<Rightarrow>
          if state = RStr ''OPEN'' then
            (case float_or_zero (op_get R now (cb_key url ''open_since'') s) of
               Inl e \<Rightarrow> (Inl e, s)
             | Inr open_since \<Rightarrow>
                 if of_int (circuit_breaker_cooldown_s cfg) \<le> now - open_since
                 then (Inr False, op_set R now (cb_key url ''state'') (RStr ''HALF_OPEN'') s)
                 else (Inr True, s))
          else if state = RStr ''HALF_OPEN'' then
            (let (tested, s') = op_setnx R now (cb_key url ''half_tested'') (RStr ''1'') s
             in if tested then (Inr False, s') else (Inr True, s'))
          else (Inr False, s))"

definition cb_record_success :: "'s redis_ops \<Rightarrow> string \<Rightarrow> time \<Rightarrow> 's \<Rightarrow> 's" where
  "cb_record_success R url now s =
     op_delete R now [cb_key url ''state'', cb_key url ''failures'', cb_key url ''open_since'',
                      cb_key url ''half_tested''] s"

definition cb_record_failure :: "'s redis_ops \<Rightarrow> settings \<Rightarrow> string \<Rightarrow> time \<Rightarrow> 's \<Rightarrow> 's" where
  "cb_record_failure R cfg url now s =
     (let (count, s1) = op_incr R now (cb_key url ''failures'') s;
          s2 = op_expire R now (cb_key url ''failures'') 60 s1
      in if circuit_breaker_threshold cfg \<le> count
         then op_set R now (cb_key url ''open_since'') (RNum now)
                (op_set R now (cb_key url ''state'') (RStr ''OPEN'') s2)
         else s2)"

text \<open>A history of failures, and a series of polls that stops at the first exception.\<close>

fun cb_failures :: "'s redis_ops \<Rightarrow> settings \<Rightarrow> string \<Rightarrow> time list \<Rightarrow> 's \<Rightarrow> 's" where
  "cb_failures R cfg url [] s = s"
| "cb_failures R cfg url (t # ts) s = cb_failures R cfg url ts (cb_record_failure R cfg url t s)"

fun cb_polls :: "'s redis_ops \<Rightarrow> settings \<Rightarrow> string \<Rightarrow> time list \<Rightarrow> 's \<Rightarrow> bool res list \<times> 's" where
  "cb_polls R cfg url [] s = ([], s)"
| "cb_polls R cfg url (t # ts) s =
     (let (r, s1) = cb_is_open R cfg url t s; (rs, s2) = cb_polls R cfg url ts s1 in (r # rs, s2))"

section \<open>Keys\<close>

lemma last_sep_unique:
  assumes "c \<notin> set f" "c \<notin> set f'" "u @ c # f = u' @ c # f'"
  shows "u = u' \<and> f = f'"
proof -
  from assms(3) have "rev f @ c # rev u = rev f' @ c # rev u'"
    by (metis append.assoc append_Cons append_Nil rev.simps(2) rev_append)
  moreover have "takeWhile (\<lambda>x. x \<noteq> c) (rev g @ c # rest) = rev g" if "c \<notin> set g" for g rest
    using that by (subst takeWhile_append2) auto
  ultimately have "rev f = rev f'"
    using assms(1,2) by metis
  with assms(3) show ?thesis by simp
qed

lemma cb_key_eq:
  "CHR '':'' \<notin> set f \<Longrightarrow> CHR '':'' \<notin> set f' \<Longrightarrow> cb_key u f = cb_key u' f' \<longleftrightarrow> u = u' \<and> f = f'"
  using last_sep_unique [of "CHR '':''" f f' u u'] by (auto simp: cb_key_def)

lemma cb_keys_distinct [simp]:
  "cb_key u ''state'' = cb_key u' ''state'' \<longleftrightarrow> u = u'"
  "cb_key u ''failures'' = cb_key u' ''failures'' \<longleftrightarrow> u = u'"
  "cb_key u ''open_since'' = cb_key u' ''open_since'' \<longleftrightarrow> u = u'"
  "cb_key u ''half_tested'' = cb_key u' ''half_tested'' \<longleftrightarrow> u = u'"
  "cb_key u ''state'' \<noteq> cb_key u' ''failures''" "cb_key u ''failures'' \<noteq> cb_key u' ''state''"
  "cb_key u ''state'' \<noteq> cb_key u' ''open_since''" "cb_key u ''open_since'' \<noteq> cb_key u' ''state''"
  "cb_key u ''state'' \<noteq> cb_key u' ''half_tested''" "cb_key u ''half_tested'' \<noteq> cb_key u' ''state''"
  "cb_key u ''failures'' \<noteq> cb_key u' ''open_since''" "cb_key u ''open_since'' \<noteq> cb_key u' ''failures''"
  "cb_key u ''failures'' \<noteq> cb_key u' ''half_tested''" "cb_key u ''half_tested'' \<noteq> cb_key u' ''failures''"
  "cb_key u ''open_since'' \<noteq> cb_key u' ''half_tested''" "cb_key u ''half_tested'' \<noteq> cb_key u' ''open_since''"
  by (subst cb_key_eq; simp)+

section \<open>The abstract breaker\<close>

text \<open>
  The automaton the keys stand for: a phase, the mark that the half-open probe was taken, and
  the failures counted in the running 60-second window with the instant that window ends.
\<close>

datatype cb_phase = Closed | Open time | HalfOpen

record breaker =
  phase :: cb_phase
  probed :: bool
  counted :: "(int \<times> time) option"

definition closed_breaker :: breaker where
  "closed_breaker = \<lparr>phase = Closed, probed = False, counted = None\<rparr>"

definition br_is_open :: "settings \<Rightarrow> time \<Rightarrow> breaker \<Rightarrow> bool \<times> breaker" where
  "br_is_open cfg now b =
     (case phase b of
        Closed \<Rightarrow> (False, b)
      | Open since \<Rightarrow>
          if of_int (circuit_breaker_cooldown_s cfg) \<le> now - since
          then (False, b\<lparr>phase := HalfOpen\<rparr>) else (True, b)
      | HalfOpen \<Rightarrow> if probed b then (True, b) else (False, b\<lparr>probed := True\<rparr>))"

definition br_failure :: "settings \<Rightarrow> time \<Rightarrow> breaker \<Rightarrow> breaker" where
  "br_failure cfg now b =
     (let n = (case counted b of None \<Rightarrow> 1 | Some (m, e) \<Rightarrow> m + 1)
      in b\<lparr>counted := Some (n, now + 60),
           phase := (if circuit_breaker_threshold cfg \<le> n then Open now else phase b)\<rparr>)"

text \<open>The keys that encode an abstract breaker; other values never arise.\<close>

definition cb_keys :: "string \<Rightarrow> breaker \<Rightarrow> (string \<Rightarrow> rentry option) \<Rightarrow> bool" where
  "cb_keys url b kv \<longleftrightarrow>
     kv (cb_key url ''state'') =
       (case phase b of Closed \<Rightarrow> None | Open t \<Rightarrow> Some (RStr ''OPEN'', None)
        | HalfOpen \<Rightarrow> Some (RStr ''HALF_OPEN'', None)) \<and>
     (\<forall>t. phase b = Open t \<longrightarrow> kv (cb_key url ''open_since'') = Some (RNum t, None)) \<and>
     kv (cb_key url ''half_tested'') = (if probed b then Some (RStr ''1'', None) else None) \<and>
     kv (cb_key url ''failures'') = map_option (\<lambda>(n, e). (RNum (of_int n), Some e)) (counted b)"

lemmas cb_ops = cb_is_open_def cb_record_success_def cb_record_failure_def
lemmas br_ops = br_is_open_def br_failure_def

context redis_store
begin

lemma cb_is_open_refines:
  assumes "cb_keys url b (view s now)"
  shows "fst (cb_is_open R cfg url now s) = Inr (fst (br_is_open cfg now b)) \<and>
         cb_keys url (snd (br_is_open cfg now b)) (view (snd (cb_is_open R cfg url now s)) now)"
proof (cases "phase b")
  case Closed
  then have "op_get R now (cb_key url ''state'') s = None"
    using assms by (intro get_none) (simp add: cb_keys_def)
  then show ?thesis
    using assms Closed by (simp add: cb_is_open_def br_is_open_def)
next
  case (Open since)
  then have "op_get R now (cb_key url ''state'') s = Some (RStr ''OPEN'')"
    and "op_get R now (cb_key url ''open_since'') s = Some (RNum since)"
    using assms get_some [of s now "cb_key url ''state''"]
      get_some [of s now "cb_key url ''open_since''"] by (simp_all add: cb_keys_def)
  then show ?thesis
    using assms Open by (simp add: cb_is_open_def br_is_open_def cb_keys_def set)
next
  case HalfOpen
  then have st: "op_get R now (cb_key url ''state'') s = Some (RStr ''HALF_OPEN'')"
    using assms get_some [of s now "cb_key url ''state''"] by (simp add: cb_keys_def)
  show ?thesis
  proof (cases "probed b")
    case True
    then have "view s now (cb_key url ''half_tested'') \<noteq> None"
      using assms by (simp add: cb_keys_def)
    from setnx_old [OF this, of "RStr ''1''"] show ?thesis
      using assms HalfOpen True st
      by (auto simp: cb_is_open_def br_is_open_def split_beta Let_def)
  next
    case False
    then have "view s now (cb_key url ''half_tested'') = None"
      using assms by (simp add: cb_keys_def)
    from setnx_new [OF this, of "RStr ''1''"] show ?thesis
      using assms HalfOpen False st
      by (auto simp: cb_is_open_def br_is_open_def cb_keys_def split_beta Let_def)
  qed
qed

lemma cb_success_refines: "cb_keys url closed_breaker (view (cb_record_success R url now s) now)"
  by (simp add: cb_keys_def closed_breaker_def cb_record_success_def delete)

lemma cb_failure_view:
  assumes "cb_keys url b (view s now)"
  shows "cb_keys url (br_failure cfg now b) (view (cb_record_failure R cfg url now s) now)"
proof -
  let ?k = "cb_key url ''failures''"
  define n where "n = (case counted b of None \<Rightarrow> 1 | Some (m, e) \<Rightarrow> m + 1)"
  define s1 where "s1 = snd (op_incr R now ?k s)"
  have incr: "fst (op_incr R now ?k s) = n \<and>
      (\<exists>x. view s1 now = (view s now)(?k \<mapsto> (RNum (of_int n), x)))"
  proof (cases "counted b")
    case None
    then have "view s now ?k = None" using assms by (simp add: cb_keys_def)
    from incr_new [OF this] None show ?thesis by (auto simp: n_def s1_def)
  next
    case (Some p)
    obtain m e where p: "p = (m, e)" by (cases p)
    with Some have "view s now ?k = Some (RNum (of_int m), Some e)"
      using assms by (simp add: cb_keys_def)
    from incr_old [OF this] Some p show ?thesis by (auto simp: n_def s1_def)
  qed
  then obtain x where "view s1 now = (view s now)(?k \<mapsto> (RNum (of_int n), x))" by blast
  then have s2: "view (op_expire R now ?k 60 s1) now = (view s now)(?k \<mapsto> (RNum (of_int n), Some (now + 60)))"
    using expire [of 60 s1 now ?k "RNum (of_int n)" x] by simp
  show ?thesis
    using assms incr
    by (auto simp: cb_record_failure_def br_failure_def cb_keys_def split_beta Let_def
        set s2 n_def [symmetric] s1_def [symmetric])
qed

lemma cb_other_url:
  assumes "url' \<noteq> url" "CHR '':'' \<notin> set f"
  shows "view (snd (cb_is_open R cfg url now s)) now (cb_key url' f) = view s now (cb_key url' f)"
proof -
  have ne: "cb_key url' f \<noteq> cb_key url g" if "CHR '':'' \<notin> set g" for g
    using assms that by (simp add: cb_key_eq)
  show ?thesis
    using ne setnx_old [of s now "cb_key url ''half_tested''" "RStr ''1''"]
      setnx_new [of s now "cb_key url ''half_tested''" "RStr ''1''"]
    by (cases "view s now (cb_key url ''half_tested'')")
      (auto simp: cb_is_open_def set split_beta Let_def split: option.splits sum.splits)
qed

lemma cb_keys_later:
  assumes b: "cb_keys url b (view s t)" and le: "t \<le> t'"
    and win: "\<And>n e. counted b = Some (n, e) \<Longrightarrow> t' < e"
  shows "cb_keys url b (view s t')"
proof -
  have keep: "view s t' k = view s t k"
    if "view s t k = None \<or> (\<exists>v. view s t k = Some (v, None))" for k
    using that later_none [OF _ le] later_keep [OF _ le] by metis
  have "view s t' (cb_key url ''failures'') = view s t (cb_key url ''failures'')"
  proof (cases "counted b")
    case None
    then show ?thesis using b by (intro keep) (simp add: cb_keys_def)
  next
    case (Some p)
    obtain n e where p: "p = (n, e)" by (cases p)
    with Some b have "view s t (cb_key url ''failures'') = Some (RNum (of_int n), Some e)"
      by (simp add: cb_keys_def)
    from later_live [OF this le] win Some p this show ?thesis by simp
  qed
  moreover have "view s t' (cb_key url f) = view s t (cb_key url f)"
    if "f = ''state'' \<or> f = ''half_tested'' \<or> (\<exists>x. phase b = Open x) \<and> f = ''open_since''" for f
    using that b by (intro keep) (auto simp: cb_keys_def split: cb_phase.splits)
  ultimately show ?thesis
    using b by (auto simp: cb_keys_def)
qed

lemma cb_half_open_polls:
  assumes "view s t (cb_key url ''state'') = Some (RStr ''HALF_OPEN'', None)"
    and "view s t (cb_key url ''half_tested'') = Some (v, None)"
    and "sorted (t # ts)"
  shows "fst (cb_polls R cfg url ts s) = replicate (length ts) (Inr True)"
  using assms
proof (induction ts arbitrary: s t)
  case Nil
  then show ?case by simp
next
  case (Cons x xs)
  then have le: "t \<le> x" by simp
  have st: "view s x (cb_key url ''state'') = Some (RStr ''HALF_OPEN'', None)"
    and ht: "view s x (cb_key url ''half_tested'') = Some (v, None)"
    using later_keep [OF Cons.prems(1) le] later_keep [OF Cons.prems(2) le] by simp_all
  let ?w = "op_setnx R x (cb_key url ''half_tested'') (RStr ''1'') s"
  have old: "\<not> fst ?w \<and> view (snd ?w) x = view s x"
    using setnx_old ht by simp
  have poll: "cb_is_open R cfg url x s = (Inr True, snd ?w)"
    using old get_some [OF st] by (simp add: cb_is_open_def split_beta Let_def)
  have "fst (cb_polls R cfg url xs (snd ?w)) = replicate (length xs) (Inr True)"
    by (rule Cons.IH [of _ x]) (use old st ht Cons.prems(3) in auto)
  then show ?case
    by (simp add: poll split_beta Let_def)
qed

end

section \<open>Runs of failures\<close>

text \<open>Instants that follow one another spaced the 60 seconds a counter lives.\<close>

fun spaced :: "time \<Rightarrow> time list \<Rightarrow> bool" where
  "spaced t [] = True"
| "spaced t (x # xs) = (t \<le> x \<and> x < t + 60 \<and> spaced x xs)"

definition counted_breaker :: "settings \<Rightarrow> nat \<Rightarrow> time \<Rightarrow> breaker" where
  "counted_breaker cfg n t =
     \<lparr>phase = (if circuit_breaker_threshold cfg \<le> int n then Open t else Closed), probed = False,
      counted = Some (int n, t + 60)\<rparr>"

lemma br_failure_closed: "br_failure cfg t closed_breaker = counted_breaker cfg 1 t"
  by (simp add: br_failure_def closed_breaker_def counted_breaker_def)

lemma br_failure_counted:
  "br_failure cfg t' (counted_breaker cfg n t) = counted_breaker cfg (Suc n) t'"
  by (simp add: br_failure_def counted_breaker_def)

context redis_store
begin

lemma cb_failures_run:
  assumes "cb_keys url (counted_breaker cfg n t) (view s t)" and "spaced t ts"
  shows "cb_keys url (counted_breaker cfg (n + length ts) (last (t # ts)))
           (view (cb_failures R cfg url ts s) (last (t # ts)))"
  using assms
proof (induction ts arbitrary: s t n)
  case Nil
  then show ?case by simp
next
  case (Cons x xs)
  have "cb_keys url (counted_breaker cfg n t) (view s x)"
    using Cons.prems by (intro cb_keys_later [OF Cons.prems(1)]) (auto simp: counted_breaker_def)
  from cb_failure_view [OF this, of cfg]
  have "cb_keys url (counted_breaker cfg (Suc n) x) (view (cb_record_failure R cfg url x s) x)"
    by (simp add: br_failure_counted)
  from Cons.IH [OF this] Cons.prems(2) show ?case by simp
qed

lemma cb_failures_from_closed:
  assumes "cb_keys url closed_breaker (view s t)" and "spaced t ts"
  shows "cb_keys url (counted_breaker cfg (Suc (length ts)) (last (t # ts)))
           (view (cb_failures R cfg url (t # ts) s) (last (t # ts)))"
  using cb_failures_run [OF _ assms(2), of url cfg 1 "cb_record_failure R cfg url t s"]
    cb_failure_view [OF assms(1), of cfg] by (simp add: br_failure_closed)

end

section \<open>Properties\<close>

text \<open>
  C22: whenever the four keys of a URL encode an abstract breaker, each operation answers what the
  three-phase automaton answers and leaves keys that encode the automaton's next state: polling
  (closed lets through; open blocks until the cooldown and then turns half-open; half-open lets
  one probe through), success (back to the closed breaker) and failure (count one more in the
  60-second window, open at the threshold).
\<close>

theorem cb_simulates_breaker:
  assumes "redis_store R view" and "cb_keys url b (view s now)"
  shows "fst (cb_is_open R cfg url now s) = Inr (fst (br_is_open cfg now b)) \<and>
    cb_keys url (snd (br_is_open cfg now b)) (view (snd (cb_is_open R cfg url now s)) now) \<and>
    cb_keys url closed_breaker (view (cb_record_success R url now s) now) \<and>
    cb_keys url (br_failure cfg now b) (view (cb_record_failure R cfg url now s) now)"
  using redis_store.cb_is_open_refines [OF assms] redis_store.cb_success_refines [OF assms(1)]
    redis_store.cb_failure_view [OF assms] by blast

text \<open>
  A breaker with no keys, after failures that follow one another within 60 seconds, blocks a
  poll exactly when the threshold was reached and the cooldown since the last failure has not
  passed.
\<close>

theorem cb_opens_at_threshold:
  assumes "redis_store R view" and "cb_keys url closed_breaker (view s t)" and "spaced t ts"
    and "last (t # ts) \<le> now" and "now < last (t # ts) + 60"
  shows "fst (cb_is_open R cfg url now (cb_failures R cfg url (t # ts) s)) =
    Inr (circuit_breaker_threshold cfg \<le> int (Suc (length ts)) \<and>
         now - last (t # ts) < of_int (circuit_breaker_cooldown_s cfg))"
proof -
  let ?b = "counted_breaker cfg (Suc (length ts)) (last (t # ts))"
  have "cb_keys url ?b (view (cb_failures R cfg url (t # ts) s) now)"
    by (rule redis_store.cb_keys_later [OF assms(1) redis_store.cb_failures_from_closed [OF assms(1-3)]])
      (use assms(4,5) in \<open>auto simp: counted_breaker_def\<close>)
  from redis_store.cb_is_open_refines [OF assms(1) this, of cfg] show ?thesis
    by (auto simp: br_is_open_def counted_breaker_def)
qed

text \<open>
  C40: a half-open breaker whose probe is out and fails after the failure counter has expired
  stays blocked for good: with a threshold above one the failure neither reopens nor closes it,
  and every later poll, at whatever time, is answered "open".
\<close>

theorem cb_failed_probe_blocks_forever:
  assumes "redis_store R view" and "cb_keys url b (view s t)"
    and "phase b = HalfOpen" and "probed b" and "counted b = None"
    and "1 < circuit_breaker_threshold cfg" and "sorted (t # ts)"
  shows "fst (cb_polls R cfg url ts (cb_record_failure R cfg url t s)) =
    replicate (length ts) (Inr True)"
proof -
  have "cb_keys url (br_failure cfg t b) (view (cb_record_failure R cfg url t s) t)"
    by (rule redis_store.cb_failure_view [OF assms(1,2)])
  moreover have "phase (br_failure cfg t b) = HalfOpen" "probed (br_failure cfg t b)"
    using assms(3-6) by (simp_all add: br_failure_def Let_def)
  ultimately show ?thesis
    using assms(7) by (intro redis_store.cb_half_open_polls [OF assms(1)]) (auto simp: cb_keys_def)
qed

text \<open>
  After the cooldown two requests are let through, not one: the poll that turns the breaker
  half-open does not take the probe mark, so the next poll is let through as well and only the
  third is blocked.
\<close>

theorem cb_half_open_admits_two:
  assumes "redis_store R view" and "cb_keys url b (view s t)"
    and "phase b = Open since" and "\<not> probed b" and "counted b = None"
    and "since + of_int (circuit_breaker_cooldown_s cfg) \<le> t" and "t \<le> t'" and "t' \<le> t''"
  shows "fst (cb_polls R cfg url [t, t', t''] s) = [Inr False, Inr False, Inr True]"
proof -
  note step = redis_store.cb_is_open_refines [OF assms(1)]
  note later = redis_store.cb_keys_later [OF assms(1)]
  let ?b1 = "b\<lparr>phase := HalfOpen\<rparr>" and ?b2 = "b\<lparr>phase := HalfOpen, probed := True\<rparr>"
  have b1: "br_is_open cfg t b = (False, ?b1)"
    using assms(3,6) by (simp add: br_is_open_def algebra_simps)
  have b2: "br_is_open cfg t' ?b1 = (False, ?b2)" and b3: "br_is_open cfg t'' ?b2 = (True, ?b2)"
    using assms(4) by (simp_all add: br_is_open_def)
  define s1 where "s1 = snd (cb_is_open R cfg url t s)"
  define s2 where "s2 = snd (cb_is_open R cfg url t' s1)"
  have 1: "fst (cb_is_open R cfg url t s) = Inr False" "cb_keys url ?b1 (view s1 t)"
    using step [OF assms(2), of cfg] by (simp_all add: b1 s1_def)
  have "cb_keys url ?b1 (view s1 t')"
    using later [OF 1(2) assms(7)] assms(5) by simp
  from step [OF this, of cfg]
  have 2: "fst (cb_is_open R cfg url t' s1) = Inr False" "cb_keys url ?b2 (view s2 t')"
    by (simp_all add: b2 s2_def)
  have "cb_keys url ?b2 (view s2 t'')"
    using later [OF 2(2) assms(8)] assms(5) by simp
  from step [OF this, of cfg] have 3: "fst (cb_is_open R cfg url t'' s2) = Inr True"
    by (simp add: b3)
  show ?thesis
    using 1 2 3 by (simp add: split_beta Let_def s1_def s2_def)
qed

section \<open>Closed examples\<close>

text \<open>On the reference store, with the default threshold 10 and cooldown 30.\<close>

definition cb_example :: "breaker \<Rightarrow> ref_state" where
  "cb_example b =
     Map.empty(cb_key ''https://a.example'' ''state'' := (case phase b of Closed \<Rightarrow> None
         | Open t \<Rightarrow> Some (RStr ''OPEN'', None) | HalfOpen \<Rightarrow> Some (RStr ''HALF_OPEN'', None)),
       cb_key ''https://a.example'' ''open_since'' := (case phase b of Open t \<Rightarrow> Some (RNum t, None) | _ \<Rightarrow> None),
       cb_key ''https://a.example'' ''half_tested'' := (if probed b then Some (RStr ''1'', None) else None))"

lemma cb_example_keys:
  "counted b = None \<Longrightarrow> cb_keys ''https://a.example'' b (ref_view (cb_example b) t)"
  by (auto simp: cb_keys_def cb_example_def ref_view_def split: cb_phase.splits)

theorem cb_simulates_breaker_witness:
  "fst (cb_is_open ref_redis default_settings ''https://a.example'' 10
          (cb_example \<lparr>phase = Open 0, probed = False, counted = None\<rparr>)) = Inr True"
  using cb_simulates_breaker [OF ref.redis_store_axioms, OF cb_example_keys,
      of "\<lparr>phase = Open 0, probed = False, counted = None\<rparr>" default_settings 10]
  by (simp add: br_is_open_def default_settings_def)

theorem cb_opens_at_threshold_witness:
  "fst (cb_is_open ref_redis default_settings ''https://a.example'' 12
     (cb_failures ref_redis default_settings ''https://a.example'' [0, 1, 2, 3, 4, 5, 6, 7, 8, 9]
       (cb_example closed_breaker))) = Inr True"
  using cb_opens_at_threshold [OF ref.redis_store_axioms, OF cb_example_keys [of closed_breaker 0],
      of "[1, 2, 3, 4, 5, 6, 7, 8, 9]" 12 default_settings]
  by (simp add: closed_breaker_def default_settings_def)

theorem cb_failed_probe_blocks_forever_witness:
  "fst (cb_polls ref_redis default_settings ''https://a.example'' [200, 100000]
     (cb_record_failure ref_redis default_settings ''https://a.example'' 100
       (cb_example \<lparr>phase = HalfOpen, probed = True, counted = None\<rparr>))) = [Inr True, Inr True]"
  using cb_failed_probe_blocks_forever [OF ref.redis_store_axioms, OF cb_example_keys,
      of "\<lparr>phase = HalfOpen, probed = True, counted = None\<rparr>" default_settings 100 "[200, 100000]"]
  by (simp add: default_settings_def)

theorem cb_half_open_admits_two_witness:
  "fst (cb_polls ref_redis default_settings ''https://a.example'' [31, 32, 33]
       (cb_example \<lparr>phase = Open 0, probed = False, counted = None\<rparr>)) =
   [Inr False, Inr False, Inr True]"
  using cb_half_open_admits_two [OF ref.redis_store_axioms, OF cb_example_keys,
      of "\<lparr>phase = Open 0, probed = False, counted = None\<rparr>" 0 default_settings 31 32 33]
  by (simp add: default_settings_def)

end
