(* ===== verification/Url_Parse.thy ===== *)
theory Url_Parse
  imports Ip_Address
begin

text \<open>
  The part of the standard library's \<open>urllib.parse.urlparse\<close> that the program uses: the scheme,
  the network location and what its properties \<open>username\<close>, \<open>password\<close>, \<open>hostname\<close> and \<open>port\<close>
  read from it.  The check that a network location does not change under NFKC normalisation
  never fires on code points below 256 and is left out.
\<close>

record parsed_url =
  scheme :: string
  netloc :: string

definition is_alpha :: "char \<Rightarrow> bool" where
  "is_alpha c = (65 \<le> ch c \<and> ch c \<le> 90 \<or> 97 \<le> ch c \<and> ch c \<le> 122)"

definition is_scheme_char :: "char \<Rightarrow> bool" where
  "is_scheme_char c = (is_alpha c \<or> is_digit c \<or> c \<in> set ''+-.'')"

text \<open>Leading control characters and blanks, and all tabs and line ends, are dropped first.\<close>

definition clean_url :: "string \<Rightarrow> string" where
  "clean_url url = filter (\<lambda>c. ch c \<noteq> 9 \<and> ch c \<noteq> 10 \<and> ch c \<noteq> 13) (py_lstrip (\<lambda>c. ch c \<le> 32) url)"

definition split_scheme :: "string \<Rightarrow> string \<times> string" where
  "split_scheme url =
     (let (pre, colon, rest) = py_partition CHR '':'' url
      in if colon \<and> pre \<noteq> [] \<and> is_alpha (hd url) \<and> list_all is_scheme_char pre
         then (py_lower pre, rest) else ([], url))"

definition netloc_of :: "string \<Rightarrow> string" where
  "netloc_of url =
     (if starts_with url ''//'' then takeWhile (\<lambda>c. c \<notin> set ''/?#'') (drop 2 url) else [])"

definition is_hex :: "char \<Rightarrow> bool" where
  "is_hex c = (hex_digit c \<noteq> None)"

text \<open>\<open>_check_bracketed_host\<close>: \<open>v<hex>.<any>\<close>, or an IPv6 address.\<close>

definition bracketed_ok :: "string \<Rightarrow> bool" where
  "bracketed_ok h =
     (if starts_with h ''v'' then
        (let hx = takeWhile is_hex (tl h); rest = dropWhile is_hex (tl h)
         in hx \<noteq> [] \<and> starts_with rest ''.'' \<and> tl rest \<noteq> [] \<and> list_all (\<lambda>c. ch c \<noteq> 10) (tl rest))
      else (case ip_address h of Some (IPv6 n sc) \<Rightarrow> True | _ \<Rightarrow> False))"

definition urlparse :: "string \<Rightarrow> parsed_url res" where
  "urlparse url =
     (let (sch, rest) = split_scheme (clean_url url);
          nl = netloc_of rest;
          open_br = (CHR ''['' \<in> set nl); close_br = (CHR '']'' \<in> set nl);
          host = fst (py_partition CHR '']'' (snd (snd (py_partition CHR ''['' nl))))
      in if open_br \<noteq> close_br then Inl (ValueError ''Invalid IPv6 URL'')
         else if open_br \<and> close_br \<and> \<not> bracketed_ok host
         then Inl (ValueError ''invalid bracketed host'')
         else Inr \<lparr>scheme = sch, netloc = nl\<rparr>)"

definition userinfo :: "parsed_url \<Rightarrow> (string \<times> string option) option" where
  "userinfo p =
     (let (info, have, host) = py_rpartition CHR ''@'' (netloc p);
          (user, have_pw, pw) = py_partition CHR '':'' info
      in if have then Some (user, if have_pw then Some pw else None) else None)"

definition username :: "parsed_url \<Rightarrow> string option" where
  "username p = map_option fst (userinfo p)"

definition password :: "parsed_url \<Rightarrow> string option" where
  "password p = (case userinfo p of Some (u, pw) \<Rightarrow> pw | None \<Rightarrow> None)"

definition hostinfo :: "parsed_url \<Rightarrow> string \<times> string" where
  "hostinfo p =
     (let host = snd (snd (py_rpartition CHR ''@'' (netloc p)));
          (x, have_br, bracketed) = py_partition CHR ''['' host
      in if have_br then
           (let (h, y, port) = py_partition CHR '']'' bracketed
            in (h, snd (snd (py_partition CHR '':'' port))))
         else (let (h, y, port) = py_partition CHR '':'' host in (h, port)))"

definition hostname :: "parsed_url \<Rightarrow> string option" where
  "hostname p =
     (let h = fst (hostinfo p)
      in if h = [] then None
         else let (name, percent, zone) = py_partition CHR ''%'' h
              in Some (py_lower name @ (if percent then ''%'' else []) @ zone))"

definition url_port :: "parsed_url \<Rightarrow> nat option res" where
  "url_port p =
     (let port = snd (hostinfo p)
      in if port = [] then Inr None
         else if \<not> list_all is_digit port
         then Inl (ValueError ''Port could not be cast to integer value'')
         else if 65535 < int_of_digits port then Inl (ValueError ''Port out of range 0-65535'')
         else Inr (Some (int_of_digits port)))"

section \<open>A plain https URL\<close>

lemma py_partition_absent: "c \<notin> set s \<Longrightarrow> py_partition c s = (s, False, [])"
  by (simp add: py_partition_def)

lemma py_partition_hit: "c \<notin> set s \<Longrightarrow> py_partition c (s @ c # t) = (s, True, t)"
  by (induction s) (auto simp: py_partition_def)

lemma py_rpartition_absent: "c \<notin> set s \<Longrightarrow> py_rpartition c s = ([], False, s)"
  by (simp add: py_rpartition_def)

text \<open>A host of digits, dots, lower-case letters and hyphens, and a path without white space.\<close>

definition plain_host_char :: "char \<Rightarrow> bool" where
  "plain_host_char c = (is_digit c \<or> c = CHR ''.'' \<or> c = CHR ''-'' \<or> 97 \<le> ch c \<and> ch c \<le> 122)"

lemma plain_host_no:
  "list_all plain_host_char h \<Longrightarrow> \<not> plain_host_char c \<Longrightarrow> c \<notin> set h"
  by (auto simp: list_all_iff)

lemma plain_host_lower: "list_all plain_host_char h \<Longrightarrow> py_lower h = h"
  by (induction h) (auto simp: py_lower_def lower_char_def plain_host_char_def is_digit_def)

lemma urlparse_https:
  assumes "list_all plain_host_char h"
  shows "\<exists>p. urlparse (''https://'' @ h @ ''/'' @ path) = Inr p \<and> scheme p = ''https'' \<and> netloc p = h"
proof -
  let ?keep = "\<lambda>c. ch c \<noteq> 9 \<and> ch c \<noteq> 10 \<and> ch c \<noteq> 13"
  have h: "filter ?keep h = h"
    using assms by (auto simp: filter_id_conv list_all_iff plain_host_char_def is_digit_def)
  have clean: "clean_url (''https://'' @ h @ ''/'' @ path) = ''https:'' @ ''//'' @ h @ ''/'' @ filter ?keep path"
    by (simp add: clean_url_def py_lstrip_def h)
  have sch: "split_scheme (''https:'' @ ''//'' @ h @ ''/'' @ filter ?keep path) =
      (''https'', ''//'' @ h @ ''/'' @ filter ?keep path)"
    using py_partition_hit [of "CHR '':''" "''https''"]
    by (simp add: split_scheme_def is_alpha_def is_scheme_char_def py_lower_def lower_char_def)
  have "\<forall>c \<in> set h. c \<notin> set ''/?#''"
    using assms by (auto simp: list_all_iff plain_host_char_def is_digit_def)
  then have nl: "netloc_of (''//'' @ h @ ''/'' @ filter ?keep path) = h"
    by (simp add: netloc_of_def starts_with_def takeWhile_append2)
  have "CHR ''['' \<notin> set h" "CHR '']'' \<notin> set h"
    by (rule plain_host_no [OF assms]; simp add: plain_host_char_def is_digit_def)+
  then show ?thesis
    by (simp add: urlparse_def clean [simplified] sch [simplified] nl [simplified] Let_def)
qed

lemma plain_netloc:
  assumes "list_all plain_host_char (netloc p)" and "netloc p \<noteq> []"
  shows "hostname p = Some (netloc p) \<and> username p = None \<and> password p = None \<and> url_port p = Inr None"
proof -
  have "CHR ''@'' \<notin> set (netloc p)" "CHR '':'' \<notin> set (netloc p)" "CHR ''['' \<notin> set (netloc p)"
    "CHR ''%'' \<notin> set (netloc p)"
    by (rule plain_host_no [OF assms(1)]; simp add: plain_host_char_def is_digit_def)+
  then show ?thesis
    using assms plain_host_lower [OF assms(1)]
    by (simp add: hostname_def hostinfo_def username_def password_def userinfo_def url_port_def
        py_rpartition_absent py_partition_absent)
qed

end
