(* ===== verification/Url_Security.thy ===== *)
theory Url_Security
  imports Url_Parse Settings
begin

text \<open>
  Server-side request forgery protection and header redaction, \<open>app/core/url_security.py\<close>.
  DNS is a parameter: \<open>resolve host port\<close> is the list of addresses \<open>getaddrinfo\<close> returns, or
  its exception.
\<close>

section \<open>The operations\<close>

definition sensitive_header_names :: "string list" where
  "sensitive_header_names =
     [''authorization'', ''cookie'', ''proxy-authorization'', ''set-cookie'', ''x-api-key'',
      ''x-auth-token'', ''x-forwarded-authorization'']"

definition redact_headers :: "(string \<times> string) list option \<Rightarrow> (string \<times> string) list option" where
  "redact_headers headers =
     (case headers of
        None \<Rightarrow> None
      | Some h \<Rightarrow> Some (map (\<lambda>(key, value).
          (key, if py_lower key \<in> set sensitive_header_names then ''***REDACTED***'' else value)) h))"

definition is_blocked_addr :: "ip_addr \<Rightarrow> bool" where
  "is_blocked_addr ip =
     (ip_private ip \<or> ip_loopback ip \<or> ip_link_local ip \<or> ip_multicast ip \<or> ip_reserved ip \<or> ip_unspecified ip)"

definition is_blocked_ip :: "string \<Rightarrow> bool res" where
  "is_blocked_ip address =
     (case ip_address address of
        None \<Rightarrow> Inl (ValueError (address @ '' does not appear to be an IPv4 or IPv6 address''))
      | Some ip \<Rightarrow> Inr (is_blocked_addr ip))"

definition is_blocked_host :: "string \<Rightarrow> bool" where
  "is_blocked_host host =
     (let normalized = py_lower (py_rstrip (\<lambda>c. c = CHR ''.'') host)
      in if normalized = ''localhost'' \<or> normalized = ''localhost.localdomain'' then True
         else (case is_blocked_ip normalized of Inl e \<Rightarrow> False | Inr b \<Rightarrow> b))"

definition text_truthy :: "string option \<Rightarrow> bool" where
  "text_truthy v = (case v of None \<Rightarrow> False | Some s \<Rightarrow> s \<noteq> [])"

definition validate_delivery_url :: "settings \<Rightarrow> string \<Rightarrow> string res" where
  "validate_delivery_url cfg url =
     bind_res (urlparse url) (\<lambda>parsed.
       let sch = py_lower (scheme parsed)
       in if sch \<notin> {''http'', ''https''} \<or> \<not> text_truthy (hostname parsed)
          then Inl (HTTPException 400 ''route url must be an absolute http(s) URL'')
          else if sch \<noteq> ''https'' \<and> \<not> allow_insecure_delivery_urls cfg
          then Inl (HTTPException 400 ''route url must use https'')
          else if text_truthy (username parsed) \<or> text_truthy (password parsed)
          then Inl (HTTPException 400 ''route url must not include credentials'')
          else if is_blocked_host (the (hostname parsed))
          then Inl (HTTPException 400 ''route url host is not allowed'')
          else Inr url)"

type_synonym resolver = "string \<Rightarrow> nat \<Rightarrow> string list res"

fun check_addresses :: "string list \<Rightarrow> unit res" where
  "check_addresses [] = Inr ()"
| "check_addresses (address # rest) =
     bind_res (is_blocked_ip address) (\<lambda>blocked.
       if blocked then Inl (ValueError ''route url resolves to a private or reserved address'')
       else check_addresses rest)"

definition resolve_host :: "resolver \<Rightarrow> string \<Rightarrow> nat option \<Rightarrow> string list res" where
  "resolve_host resolve host port =
     (let p = (case port of Some n \<Rightarrow> if n = 0 then 443 else n | None \<Rightarrow> 443)
      in bind_res (resolve host p) (\<lambda>addrs. Inr (remdups addrs)))"

definition validate_delivery_url_for_request :: "settings \<Rightarrow> resolver \<Rightarrow> string \<Rightarrow> unit res" where
  "validate_delivery_url_for_request cfg resolve url =
     (case validate_delivery_url cfg url of
        Inl (HTTPException code detail) \<Rightarrow> Inl (ValueError detail)
      | Inl e \<Rightarrow> Inl e
      | Inr u \<Rightarrow>
          if allow_insecure_delivery_urls cfg then Inr ()
          else bind_res (urlparse url) (\<lambda>parsed.
            case hostname parsed of
              None \<Rightarrow> Inl AssertionError
            | Some host \<Rightarrow>
                bind_res (url_port parsed) (\<lambda>port.
                bind_res (resolve_host resolve host port) check_addresses)))"

section \<open>Lemmas\<close>

lemma check_addresses_ok:
  "check_addresses as = Inr () \<longleftrightarrow> (\<forall>a \<in> set as. \<exists>ip. ip_address a = Some ip \<and> \<not> is_blocked_addr ip)"
  by (induction as) (auto simp: is_blocked_ip_def split: option.splits)

lemma validate_delivery_url_iff:
  "validate_delivery_url cfg url = Inr u \<longleftrightarrow> u = url \<and>
     (\<exists>p h. urlparse url = Inr p \<and> hostname p = Some h \<and> h \<noteq> [] \<and>
        (py_lower (scheme p) = ''https'' \<or>
         py_lower (scheme p) = ''http'' \<and> allow_insecure_delivery_urls cfg) \<and>
        \<not> text_truthy (username p) \<and> \<not> text_truthy (password p) \<and> \<not> is_blocked_host h)"
  by (cases "urlparse url") (auto simp: validate_delivery_url_def text_truthy_def Let_def split: option.splits)

lemma v4_div:
  assumes "b < 256" "c < 256" "d < 256"
  shows "v4 a b c d div 16777216 = a" "v4 a b c d div 65536 = a * 256 + b"
    "v4 a b c d div 256 = (a * 256 + b) * 256 + c"
  using assms by (simp_all add: v4_def)

lemma v4_div_bits:
  assumes "b < 256" "c < 256" "d < 256"
  shows "v4 a b c d div 268435456 = a div 16" "v4 a b c d div 1048576 = a * 16 + b div 16"
    "v4 a b c d div 131072 = a * 128 + b div 2" "v4 a b c d div 2 = ((a * 256 + b) * 256 + c) * 128 + d div 2"
  using assms by (simp_all add: v4_def)

lemma digits_eq:
  assumes "b < k" "y < (k::nat)"
  shows "a * k + b = x * k + y \<longleftrightarrow> a = x \<and> b = y"
proof
  assume eq: "a * k + b = x * k + y"
  have "b = (a * k + b) mod k" "y = (x * k + y) mod k" using assms by simp_all
  with eq have "b = y" by simp
  with eq assms show "a = x \<and> b = y" by simp
qed simp

lemmas octets_eq = digits_eq [of _ 256]

text \<open>Membership of a dotted quad in the networks of the tables, by prefix length.\<close>

lemma net8: "a < 256 \<Longrightarrow> b < 256 \<Longrightarrow> c < 256 \<Longrightarrow> d < 256 \<Longrightarrow>
  in_net (IPv4 (v4 a b c d)) (Net4 (v4 x 0 0 0) 8) \<longleftrightarrow> a = x"
  by (simp add: v4_div)

lemma net16: "a < 256 \<Longrightarrow> b < 256 \<Longrightarrow> c < 256 \<Longrightarrow> d < 256 \<Longrightarrow> y < 256 \<Longrightarrow>
  in_net (IPv4 (v4 a b c d)) (Net4 (v4 x y 0 0) 16) \<longleftrightarrow> a = x \<and> b = y"
  by (simp add: v4_div octets_eq)

lemma net24:
  assumes "b < 256" "c < 256" "d < 256" "y < 256" "z < 256"
  shows "in_net (IPv4 (v4 a b c d)) (Net4 (v4 x y z 0) 24) \<longleftrightarrow> a = x \<and> b = y \<and> c = z"
proof -
  have e: "v4 a b c d div 256 = (a * 256 + b) * 256 + c" "v4 x y z 0 div 256 = (x * 256 + y) * 256 + z"
    using assms by (simp_all add: v4_div)
  have p: "(2::nat) ^ (32 - 24) = 256" by simp
  show ?thesis
    by (simp only: in_net.simps p e octets_eq [OF assms(2,5)] octets_eq [OF assms(1,4)] conj_assoc)
qed

lemma net32:
  assumes "b < 256" "c < 256" "d < 256" "y < 256" "z < 256" "w < 256"
  shows "in_net (IPv4 (v4 a b c d)) (Net4 (v4 x y z w) 32) \<longleftrightarrow> a = x \<and> b = y \<and> c = z \<and> d = w"
proof -
  have p: "n div (2::nat) ^ (32 - 32) = n" for n by simp
  show ?thesis
    by (simp only: in_net.simps p v4_def octets_eq [OF assms(3,6)] octets_eq [OF assms(2,5)] octets_eq [OF assms(1,4)] conj_assoc)
qed

lemma net12:
  assumes "b < 256" "c < 256" "d < 256"
  shows "in_net (IPv4 (v4 a b c d)) (Net4 (v4 172 16 0 0) 12) \<longleftrightarrow> a = 172 \<and> 16 \<le> b \<and> b \<le> 31"
proof -
  have e: "v4 a b c d div 1048576 = a * 16 + b div 16" "v4 172 16 0 0 div 1048576 = 172 * 16 + 1"
    using assms by (simp_all add: v4_div_bits)
  have p: "(2::nat) ^ (32 - 12) = 1048576" by simp
  have "b div 16 < 16" using assms(1) by simp
  then have "a * 16 + b div 16 = 172 * 16 + 1 \<longleftrightarrow> a = 172 \<and> b div 16 = 1"
    by (rule digits_eq) simp
  then show ?thesis by (simp only: in_net.simps p e) arith
qed

lemma net15:
  assumes "b < 256" "c < 256" "d < 256"
  shows "in_net (IPv4 (v4 a b c d)) (Net4 (v4 198 18 0 0) 15) \<longleftrightarrow> a = 198 \<and> (b = 18 \<or> b = 19)"
proof -
  have e: "v4 a b c d div 131072 = a * 128 + b div 2" "v4 198 18 0 0 div 131072 = 198 * 128 + 9"
    using assms by (simp_all add: v4_div_bits)
  have p: "(2::nat) ^ (32 - 15) = 131072" by simp
  have "b div 2 < 128" using assms(1) by simp
  then have "a * 128 + b div 2 = 198 * 128 + 9 \<longleftrightarrow> a = 198 \<and> b div 2 = 9"
    by (rule digits_eq) simp
  then show ?thesis by (simp only: in_net.simps p e) arith
qed

lemma net31:
  assumes "b < 256" "c < 256" "d < 256"
  shows "in_net (IPv4 (v4 a b c d)) (Net4 (v4 192 0 0 170) 31) \<longleftrightarrow> a = 192 \<and> b = 0 \<and> c = 0 \<and> (d = 170 \<or> d = 171)"
proof -
  have "d div 2 < 128" using assms by simp
  then have "((a * 256 + b) * 256 + c) * 128 + d div 2 = ((192 * 256 + 0) * 256 + 0) * 128 + 85 \<longleftrightarrow>
      (a * 256 + b) * 256 + c = (192 * 256 + 0) * 256 + 0 \<and> d div 2 = 85"
    by (rule digits_eq) simp
  also have "\<dots> \<longleftrightarrow> a = 192 \<and> b = 0 \<and> c = 0 \<and> d div 2 = 85"
    using assms(1,2) by (simp only: octets_eq zero_less_numeral conj_assoc)
  also have "\<dots> \<longleftrightarrow> a = 192 \<and> b = 0 \<and> c = 0 \<and> (d = 170 \<or> d = 171)"
    by arith
  finally show ?thesis
    using assms by (simp add: v4_div_bits)
qed

lemma net4:
  assumes "a < 256" "b < 256" "c < 256" "d < 256"
  shows "in_net (IPv4 (v4 a b c d)) (Net4 (v4 240 0 0 0) 4) \<longleftrightarrow> 240 \<le> a"
    and "in_net (IPv4 (v4 a b c d)) (Net4 (v4 224 0 0 0) 4) \<longleftrightarrow> 224 \<le> a \<and> a < 240"
proof -
  have e: "v4 a b c d div 268435456 = a div 16" "v4 240 0 0 0 div 268435456 = 15" "v4 224 0 0 0 div 268435456 = 14"
    using assms by (simp_all add: v4_div_bits)
  have p: "(2::nat) ^ (32 - 4) = 268435456" by simp
  have hi: "a div 16 = 15 \<longleftrightarrow> 240 \<le> a" "a div 16 = 14 \<longleftrightarrow> 224 \<le> a \<and> a < 240"
    using assms(1) by linarith+
  show "in_net (IPv4 (v4 a b c d)) (Net4 (v4 240 0 0 0) 4) \<longleftrightarrow> 240 \<le> a"
    by (simp only: in_net.simps p e hi)
  show "in_net (IPv4 (v4 a b c d)) (Net4 (v4 224 0 0 0) 4) \<longleftrightarrow> 224 \<le> a \<and> a < 240"
    by (simp only: in_net.simps p e hi)
qed

lemmas nets4 = net8 net16 net24 net32 net12 net15 net31 net4

text \<open>The dotted quads the program refuses, by octets.\<close>

definition blocked_octets :: "nat \<Rightarrow> nat \<Rightarrow> nat \<Rightarrow> nat \<Rightarrow> bool" where
  "blocked_octets a b c d \<longleftrightarrow>
     a = 0 \<or> a = 10 \<or> a = 127 \<or> 224 \<le> a \<or> a = 169 \<and> b = 254 \<or> a = 172 \<and> 16 \<le> b \<and> b \<le> 31 \<or>
     a = 192 \<and> b = 168 \<or> a = 192 \<and> b = 0 \<and> c = 0 \<and> d \<noteq> 9 \<and> d \<noteq> 10 \<or> a = 192 \<and> b = 0 \<and> c = 2 \<or>
     a = 198 \<and> (b = 18 \<or> b = 19) \<or> a = 198 \<and> b = 51 \<and> c = 100 \<or> a = 203 \<and> b = 0 \<and> c = 113"

lemma private_octets:
  assumes "a < 256" "b < 256" "c < 256" "d < 256"
  shows "in_nets (IPv4 (v4 a b c d)) private4 \<longleftrightarrow>
    a = 0 \<or> a = 10 \<or> a = 127 \<or> a = 169 \<and> b = 254 \<or> a = 172 \<and> 16 \<le> b \<and> b \<le> 31 \<or>
    a = 192 \<and> b = 0 \<and> c = 0 \<or> a = 192 \<and> b = 0 \<and> c = 2 \<or> a = 192 \<and> b = 168 \<or>
    a = 198 \<and> (b = 18 \<or> b = 19) \<or> a = 198 \<and> b = 51 \<and> c = 100 \<or> a = 203 \<and> b = 0 \<and> c = 113 \<or> 240 \<le> a"
proof -
  let ?in = "\<lambda>x y z w p. in_net (IPv4 (v4 a b c d)) (Net4 (v4 x y z w) p)"
  have n: "?in 169 254 0 0 16 \<longleftrightarrow> a = 169 \<and> b = 254" "?in 192 168 0 0 16 \<longleftrightarrow> a = 192 \<and> b = 168"
    by (rule net16 [OF assms], simp)+
  have n': "?in 192 0 0 0 24 \<longleftrightarrow> a = 192 \<and> b = 0 \<and> c = 0" "?in 192 0 2 0 24 \<longleftrightarrow> a = 192 \<and> b = 0 \<and> c = 2"
    "?in 198 51 100 0 24 \<longleftrightarrow> a = 198 \<and> b = 51 \<and> c = 100" "?in 203 0 113 0 24 \<longleftrightarrow> a = 203 \<and> b = 0 \<and> c = 113"
    by (rule net24 [OF assms(2-4)]; simp)+
  have n'': "?in 255 255 255 255 32 \<longleftrightarrow> a = 255 \<and> b = 255 \<and> c = 255 \<and> d = 255"
    by (rule net32 [OF assms(2-4)]) simp_all
  have nets: "in_nets (IPv4 (v4 a b c d)) private4 \<longleftrightarrow>
      a = 0 \<or> a = 10 \<or> a = 127 \<or> a = 169 \<and> b = 254 \<or> a = 172 \<and> 16 \<le> b \<and> b \<le> 31 \<or>
      a = 192 \<and> b = 0 \<and> c = 0 \<or> a = 192 \<and> b = 0 \<and> c = 0 \<and> (d = 170 \<or> d = 171) \<or>
      a = 192 \<and> b = 0 \<and> c = 2 \<or> a = 192 \<and> b = 168 \<or>
      a = 198 \<and> (b = 18 \<or> b = 19) \<or> a = 198 \<and> b = 51 \<and> c = 100 \<or> a = 203 \<and> b = 0 \<and> c = 113 \<or>
      240 \<le> a \<or> a = 255 \<and> b = 255 \<and> c = 255 \<and> d = 255"
    by (simp only: in_nets_def private4_def list_ex_Nil_iff list_ex_Cons_iff n n' n'' simp_thms
        net8 [OF assms] net12 [OF assms(2-4)] net15 [OF assms(2-4)] net31 [OF assms(2-4)] net4 [OF assms])
  have merge: "240 \<le> a \<or> a = 255 \<and> b = 255 \<and> c = 255 \<and> d = 255 \<longleftrightarrow> 240 \<le> a"
    "a = 192 \<and> b = 0 \<and> c = 0 \<or> a = 192 \<and> b = 0 \<and> c = 0 \<and> (d = 170 \<or> d = 171) \<or> P \<longleftrightarrow>
     a = 192 \<and> b = 0 \<and> c = 0 \<or> P" for P
    by auto
  show ?thesis
    by (simp only: nets merge)
qed

lemma blocked_v4:
  assumes "a < 256" "b < 256" "c < 256" "d < 256"
  shows "is_blocked_addr (IPv4 (v4 a b c d)) \<longleftrightarrow> blocked_octets a b c d"
proof -
  have zero: "v4 a b c d = 0 \<longleftrightarrow> a = 0 \<and> b = 0 \<and> c = 0 \<and> d = 0"
    by (auto simp: v4_def)
  have exceptions: "in_nets (IPv4 (v4 a b c d)) private4_except \<longleftrightarrow> a = 192 \<and> b = 0 \<and> c = 0 \<and> (d = 9 \<or> d = 10)"
    using assms by (auto simp: in_nets_def private4_except_def nets4 simp del: in_net.simps)
  have classes: "is_blocked_addr (IPv4 (v4 a b c d)) \<longleftrightarrow>
      in_nets (IPv4 (v4 a b c d)) private4 \<and> \<not> in_nets (IPv4 (v4 a b c d)) private4_except \<or>
      a = 127 \<or> a = 169 \<and> b = 254 \<or> 224 \<le> a \<and> a < 240 \<or> 240 \<le> a \<or> a = 0 \<and> b = 0 \<and> c = 0 \<and> d = 0"
    using assms by (simp add: is_blocked_addr_def private_v4_def nets4 zero del: in_net.simps)
  show ?thesis
  proof (cases "a = 192")
    case True
    then show ?thesis
      unfolding classes private_octets [OF assms] exceptions blocked_octets_def by auto
  next
    case False
    have "224 \<le> a \<longleftrightarrow> 224 \<le> a \<and> a < 240 \<or> 240 \<le> a" by auto
    with False show ?thesis
      unfolding classes private_octets [OF assms] exceptions blocked_octets_def by argo
  qed
qed

lemma plain_dotted: "list_all plain_host_char (dotted a b c d)"
  using set_dotted by (fastforce simp: list_all_iff plain_host_char_def)

lemma dotted_nonempty: "dotted a b c d \<noteq> []"
  by (simp add: dotted_def)

lemma blocked_host_dotted:
  assumes "a < 256" "b < 256" "c < 256" "d < 256"
  shows "is_blocked_host (dotted a b c d) \<longleftrightarrow> blocked_octets a b c d"
proof -
  have "is_digit (last (show_nat d))"
    using show_nat_digits [of d] show_nat_nonempty [of d] by (simp add: list_all_iff)
  moreover have "last (dotted a b c d) = last (show_nat d)"
    by (simp add: dotted_def show_nat_nonempty)
  ultimately have "last (dotted a b c d) \<noteq> CHR ''.''"
    by (auto simp: is_digit_def)
  then have strip: "py_rstrip (\<lambda>c. c = CHR ''.'') (dotted a b c d) = dotted a b c d"
    by (intro py_rstrip_last) (simp_all add: dotted_nonempty)
  have "CHR ''l'' \<notin> set (dotted a b c d)"
    using set_dotted [of "CHR ''l''" a b c d] by (auto simp: is_digit_def)
  then have "dotted a b c d \<noteq> ''localhost''" "dotted a b c d \<noteq> ''localhost.localdomain''"
    by auto
  then show ?thesis
    using assms
    by (simp add: is_blocked_host_def strip plain_host_lower [OF plain_dotted] is_blocked_ip_def
        ip_address_def parse_v4_dotted blocked_v4)
qed

section \<open>Properties\<close>

lemma quad_decision:
  assumes "a < 256" "b < 256" "c < 256" "d < 256"
  shows "validate_delivery_url cfg (''https://'' @ dotted a b c d @ ''/'' @ path) =
    (if blocked_octets a b c d then Inl (HTTPException 400 ''route url host is not allowed'')
     else Inr (''https://'' @ dotted a b c d @ ''/'' @ path))"
proof -
  obtain p where p: "urlparse (''https://'' @ dotted a b c d @ ''/'' @ path) = Inr p"
      "scheme p = ''https''" "netloc p = dotted a b c d"
    using urlparse_https [OF plain_dotted] by blast
  have host: "hostname p = Some (dotted a b c d)" "username p = None" "password p = None"
    using plain_netloc [of p] plain_dotted dotted_nonempty p(3) by simp_all
  have "py_lower (scheme p) = ''https''"
    by (simp add: p(2) py_lower_def lower_char_def)
  then show ?thesis
    by (simp only: validate_delivery_url_def p(1) bind_res_simps Let_def host text_truthy_def
        blocked_host_dotted [OF assms] option.sel option.case) (simp add: dotted_nonempty)
qed

text \<open>
  A route URL with an https scheme and a dotted-quad host is stored exactly when the address is
  outside the refused ranges (loopback, private, link-local, documentation, benchmarking, multicast,
  reserved, this-network); otherwise the answer is 400 with the host message.  The ranges are given by
  their octets, and the path may be any text.
\<close>
theorem quad_url_decision:
  assumes "a < 256" "b < 256" "c < 256" "d < 256"
  shows "validate_delivery_url cfg (''https://'' @ dotted a b c d @ ''/'' @ path) =
    (if blocked_octets a b c d then Inl (HTTPException 400 ''route url host is not allowed'')
     else Inr (''https://'' @ dotted a b c d @ ''/'' @ path))"
  by (rule quad_decision [OF assms])

theorem quad_url_decision_witness:
  "validate_delivery_url default_settings (''https://'' @ dotted 10 1 2 3 @ ''/'' @ ''hook'') =
    Inl (HTTPException 400 ''route url host is not allowed'')"
  using quad_url_decision [of 10 1 2 3 default_settings "''hook''"] by (simp add: blocked_octets_def)

text \<open>
  C12: when the check before a request passes and insecure URLs are not allowed, the URL is https
  without credentials, its host is not a refused name, the resolver answered for that host, and every
  address it answered is a well-formed address outside the refused classes.
\<close>
theorem request_url_safe:
  assumes "validate_delivery_url_for_request cfg resolve url = Inr ()"
    and "\<not> allow_insecure_delivery_urls cfg"
  shows "\<exists>p h q addrs. urlparse url = Inr p \<and> py_lower (scheme p) = ''https'' \<and> hostname p = Some h \<and>
     \<not> text_truthy (username p) \<and> \<not> text_truthy (password p) \<and> \<not> is_blocked_host h \<and>
     resolve h q = Inr addrs \<and> (url_port p = Inr (Some q) \<or> q = 443) \<and>
     (\<forall>a \<in> set addrs. \<exists>ip. ip_address a = Some ip \<and> \<not> is_blocked_addr ip)"
proof -
  have v: "\<exists>u. validate_delivery_url cfg url = Inr u"
    using assms(1) by (auto simp: validate_delivery_url_for_request_def split: sum.splits exc.splits)
  then obtain u where u: "validate_delivery_url cfg url = Inr u" ..
  from u [unfolded validate_delivery_url_iff] assms(2) obtain p h where
    p: "urlparse url = Inr p" "hostname p = Some h" "py_lower (scheme p) = ''https''"
      "\<not> text_truthy (username p)" "\<not> text_truthy (password p)" "\<not> is_blocked_host h"
    by blast
  have "bind_res (url_port p) (\<lambda>port. bind_res (resolve_host resolve h port) check_addresses) = Inr ()"
    using assms u p(1,2) by (simp add: validate_delivery_url_for_request_def)
  then obtain port as where a: "url_port p = Inr port" "resolve_host resolve h port = Inr as"
      "check_addresses as = Inr ()"
    by (auto simp: bind_res_eq_Inr)
  define q where "q = (case port of Some n \<Rightarrow> if n = 0 then 443 else n | None \<Rightarrow> 443)"
  have "bind_res (resolve h q) (\<lambda>addrs. Inr (remdups addrs)) = Inr as"
    using a(2) by (simp add: resolve_host_def Let_def q_def)
  then obtain addrs where r: "resolve h q = Inr addrs" "as = remdups addrs"
    by (auto simp: bind_res_eq_Inr)
  have "url_port p = Inr (Some q) \<or> q = 443"
    using a(1) by (auto simp: q_def split: option.splits)
  moreover have "\<forall>a \<in> set addrs. \<exists>ip. ip_address a = Some ip \<and> \<not> is_blocked_addr ip"
    using a(3) r(2) by (simp add: check_addresses_ok)
  ultimately show ?thesis
    using p r(1) by blast
qed

text \<open>A public address that resolves to itself, for closed examples.\<close>

definition quad_url :: "nat \<Rightarrow> nat \<Rightarrow> nat \<Rightarrow> nat \<Rightarrow> string \<Rightarrow> string" where
  "quad_url a b c d path = ''https://'' @ dotted a b c d @ ''/'' @ path"

definition literal_resolver :: resolver where
  "literal_resolver host port = Inr [host]"

lemma quad_url_ok:
  assumes "a < 256" "b < 256" "c < 256" "d < 256" "\<not> blocked_octets a b c d"
  shows "validate_delivery_url_for_request cfg literal_resolver (quad_url a b c d path) = Inr ()"
proof -
  obtain p where p: "urlparse (quad_url a b c d path) = Inr p" "scheme p = ''https''" "netloc p = dotted a b c d"
    unfolding quad_url_def using urlparse_https [OF plain_dotted] by blast
  have host: "hostname p = Some (dotted a b c d)" "url_port p = Inr None"
    using plain_netloc [of p] plain_dotted dotted_nonempty p(3) by simp_all
  have "validate_delivery_url cfg (quad_url a b c d path) = Inr (quad_url a b c d path)"
    using quad_decision [OF assms(1-4), of cfg path] assms(5) by (simp add: quad_url_def)
  then show ?thesis
    by (simp add: validate_delivery_url_for_request_def p host resolve_host_def literal_resolver_def
        is_blocked_ip_def ip_address_def parse_v4_dotted assms blocked_v4)
qed

lemma example_quad_ok:
  "validate_delivery_url_for_request cfg literal_resolver (quad_url 93 184 216 34 ''in'') = Inr ()"
  by (rule quad_url_ok) (simp_all add: blocked_octets_def)

theorem request_url_safe_witness:
  "\<exists>p h. urlparse (quad_url 93 184 216 34 ''in'') = Inr p \<and> hostname p = Some h \<and>
     (\<exists>ip. ip_address h = Some ip \<and> \<not> is_blocked_addr ip)"
  using request_url_safe [OF example_quad_ok [of default_settings]]
  by (auto simp: default_settings_def literal_resolver_def)

text \<open>
  What the API shows of a route's headers does not depend on the values of the sensitive ones:
  two header dictionaries with the same names that agree on the other values are shown alike.
\<close>
theorem redact_noninterference:
  assumes "map fst h1 = map fst h2"
    and "\<And>i. i < length h1 \<Longrightarrow> py_lower (fst (h1 ! i)) \<notin> set sensitive_header_names \<Longrightarrow>
      snd (h1 ! i) = snd (h2 ! i)"
  shows "redact_headers (Some h1) = redact_headers (Some h2)"
proof -
  have len: "length h1 = length h2"
    using assms(1) by (metis length_map)
  have "fst (h1 ! i) = fst (h2 ! i)" if "i < length h1" for i
    using assms(1) that len by (metis nth_map)
  then show ?thesis
    using assms(2) len
    by (auto simp: redact_headers_def case_prod_unfold intro!: nth_equalityI)
qed

theorem redact_noninterference_witness:
  "redact_headers (Some [(''authorization'', ''one''), (''A'', ''b'')]) =
   redact_headers (Some [(''authorization'', ''two''), (''A'', ''b'')])"
  by (rule redact_noninterference)
    (auto simp: less_Suc_eq py_lower_def lower_char_def sensitive_header_names_def)

end
