(* ===== verification/Delivery.thy ===== *)
theory Delivery
  imports Circuit_Breaker Rate_Limiter Url_Security Data_Model Kafka
begin

text \<open>
  \<open>_deliver_with_retry\<close> of \<open>app/delivery/worker.py\<close>, one delivery with its retries, and
  \<open>_dispatch\<close> and the consumer loop of \<open>workers/delivery_worker.py\<close>.  The state is the process's
  view of the world: the Redis handle, the database, the clock, the Kafka handle, and a trace of
  what the outside sees (requests, pauses).  HTTP, DNS, the random jitter, the duration of a
  request and the faults of a database commit are inputs, read at a counter that grows with
  every use.
\<close>

section \<open>State\<close>

record route_cfg =
  rc_id :: uuid
  rc_url :: string
  rc_method :: string
  rc_headers :: "(string \<times> string) list"
  rc_timeout_ms :: int
  rc_max_retries :: int
  rc_retry_backoff_ms :: int
  rc_rate_limit_rpm :: "int option"

record http_request =
  hr_method :: string
  hr_url :: string
  hr_json :: json
  hr_headers :: "(string \<times> string) list"
  hr_timeout :: rat

datatype http_result =
    HResponse int string
  | HTimeout string
  | HConnectError string
  | HRaised exc

datatype act = Exchanged http_request http_result | Paused rat

record ('s, 'k) dworld =
  dw_redis :: "'s option"
  dw_db :: db
  dw_now :: time
  dw_kafka :: "'k option"
  dw_trace :: "act list"
  dw_tick :: nat

record ('s, 'k) denv =
  de_redis :: "'s redis_ops"
  de_cfg :: settings
  de_send :: "'k sender"
  de_resolve :: "nat \<Rightarrow> resolver"
  de_http :: "nat \<Rightarrow> http_request \<Rightarrow> http_result"
  de_took :: "nat \<Rightarrow> rat"
  de_jitter :: "nat \<Rightarrow> rat"
  de_uuid :: "nat \<Rightarrow> uuid"
  de_db_fault :: "nat \<Rightarrow> exc option"

definition max_rate_limit_waits :: nat where
  "max_rate_limit_waits = 5"

section \<open>The pieces of a delivery\<close>

definition pause :: "rat \<Rightarrow> ('s, 'k) dworld \<Rightarrow> ('s, 'k) dworld" where
  "pause d w = w\<lparr>dw_now := dw_now w + max 0 d, dw_trace := dw_trace w @ [Paused d]\<rparr>"

definition tick :: "('s, 'k) dworld \<Rightarrow> ('s, 'k) dworld" where
  "tick w = w\<lparr>dw_tick := Suc (dw_tick w)\<rparr>"

text \<open>One command on the client, which must have been initialised.\<close>

definition with_redis :: "('s \<Rightarrow> 'a \<times> 's) \<Rightarrow> ('s, 'k) dworld \<Rightarrow> 'a res \<times> ('s, 'k) dworld" where
  "with_redis f w =
     (case get_redis (dw_redis w) of
        Inl e \<Rightarrow> (Inl e, w)
      | Inr s \<Rightarrow> (let (x, s') = f s in (Inr x, tick (w\<lparr>dw_redis := Some s'\<rparr>))))"

text \<open>The row written after an attempt, in a transaction of its own.\<close>

definition add_attempt :: "('s, 'k) denv \<Rightarrow> uuid \<Rightarrow> route_cfg \<Rightarrow> json \<Rightarrow> nat \<Rightarrow> int option \<Rightarrow> string option \<Rightarrow>
    string option \<Rightarrow> int \<Rightarrow> ('s, 'k) dworld \<Rightarrow> unit res \<times> ('s, 'k) dworld" where
  "add_attempt E event_id route body attempt response_status response_body err duration_ms w =
     (let row = \<lparr>at_id = de_uuid E (dw_tick w), at_event_id = event_id, at_route_id = rc_id route,
                 at_attempt_number = int attempt, at_request_url = rc_url route, at_request_body = body,
                 at_response_status = response_status, at_response_body = response_body, at_error = err,
                 at_duration_ms = Some duration_ms, at_attempted_at = dw_now w\<rparr>;
          d = dw_db w
      in case commit (de_db_fault E (dw_tick w)) (d\<lparr>attempts := attempts d @ [row]\<rparr>) of
           Inl e \<Rightarrow> (Inl e, tick w)
         | Inr d' \<Rightarrow> (Inr (), tick (w\<lparr>dw_db := d'\<rparr>)))"

definition cb_check :: "('s, 'k) denv \<Rightarrow> string \<Rightarrow> ('s, 'k) dworld \<Rightarrow> bool res \<times> ('s, 'k) dworld" where
  "cb_check E url w =
     (let (r, w') = with_redis (cb_is_open (de_redis E) (de_cfg E) url (dw_now w)) w
      in (bind_res r (\<lambda>x. x), w'))"

definition rl_check :: "('s, 'k) denv \<Rightarrow> string \<Rightarrow> int option \<Rightarrow> ('s, 'k) dworld \<Rightarrow> bool res \<times> ('s, 'k) dworld" where
  "rl_check E key max_rpm w =
     (if (case max_rpm of Some m \<Rightarrow> m | None \<Rightarrow> rate_limit_rpm (de_cfg E)) \<le> 0 then (Inr False, w)
      else with_redis (allow_request (de_redis E) (de_cfg E) key max_rpm
                         (uuid_str (de_uuid E (dw_tick w))) (dw_now w)) w)"

definition cb_report :: "('s, 'k) denv \<Rightarrow> string \<Rightarrow> bool \<Rightarrow> ('s, 'k) dworld \<Rightarrow> unit res \<times> ('s, 'k) dworld" where
  "cb_report E url ok w =
     with_redis (\<lambda>s. ((), if ok then cb_record_success (de_redis E) url (dw_now w) s
                          else cb_record_failure (de_redis E) (de_cfg E) url (dw_now w) s)) w"

text \<open>
  The guarded request: status, body and error text.  The URL is checked again before it; every
  exception becomes the error text.
\<close>

definition http_outcome :: "http_result \<Rightarrow> int option \<times> string option \<times> string option" where
  "http_outcome r =
     (case r of
        HResponse status content \<Rightarrow> (Some status, Some content, None)
      | HTimeout m \<Rightarrow> (None, None, Some (''timeout: '' @ m))
      | HConnectError m \<Rightarrow> (None, None, Some (''connection_error: '' @ m))
      | HRaised e \<Rightarrow> (None, None, Some (exc_name e @ '': '' @ exc_msg e)))"

definition request_of :: "route_cfg \<Rightarrow> json \<Rightarrow> http_request" where
  "request_of route body =
     \<lparr>hr_method = rc_method route, hr_url = rc_url route, hr_json = body,
      hr_headers = rc_headers route, hr_timeout = of_int (rc_timeout_ms route) / 1000\<rparr>"

definition do_request :: "('s, 'k) denv \<Rightarrow> route_cfg \<Rightarrow> json \<Rightarrow> ('s, 'k) dworld \<Rightarrow>
    http_result \<times> int \<times> ('s, 'k) dworld" where
  "do_request E route body w =
     (let n = dw_tick w;
          req = request_of route body;
          took = max 0 (de_took E n);
          w' = tick (w\<lparr>dw_now := dw_now w + took\<rparr>);
          duration_ms = \<lfloor>took * 1000\<rfloor>
      in case validate_delivery_url_for_request (de_cfg E) (de_resolve E n) (rc_url route) of
           Inl e \<Rightarrow> (HRaised e, duration_ms, w')
         | Inr u \<Rightarrow> (de_http E n req, duration_ms,
                    w'\<lparr>dw_trace := dw_trace w @ [Exchanged req (de_http E n req)]\<rparr>))"

definition opt_json :: "('a \<Rightarrow> json) \<Rightarrow> 'a option \<Rightarrow> json" where
  "opt_json f v = (case v of None \<Rightarrow> JNull | Some x \<Rightarrow> f x)"

definition dead_letter :: "settings \<Rightarrow> uuid \<Rightarrow> route_cfg \<Rightarrow> json \<Rightarrow> string option \<Rightarrow> int option \<Rightarrow> kmsg" where
  "dead_letter cfg event_id route body err response_status =
     \<lparr>km_topic = kafka_topic_dead_letter cfg, km_key = uuid_str event_id,
      km_value = JObj [
        (''event_id'', JStr (uuid_str event_id)),
        (''route_id'', JStr (uuid_str (rc_id route))),
        (''url'', JStr (rc_url route)),
        (''body'', body),
        (''last_error'', opt_json JStr err),
        (''last_response_status'', opt_json JInt response_status),
        (''attempts'', JInt (rc_max_retries route))]\<rparr>"

text \<open>The message to the dead-letter topic; only a \<open>RuntimeError\<close> of the client is swallowed.\<close>

definition send_dead_letter :: "('s, 'k) denv \<Rightarrow> kmsg \<Rightarrow> ('s, 'k) dworld \<Rightarrow> unit res \<times> ('s, 'k) dworld" where
  "send_dead_letter E m w =
     (case get_kafka (dw_kafka w) of
        None \<Rightarrow> (Inr (), w)
      | Some k \<Rightarrow>
          (let (r, k') = de_send E m k; w' = w\<lparr>dw_kafka := Some k'\<rparr>
           in case r of Inl (RuntimeError t) \<Rightarrow> (Inr (), w') | _ \<Rightarrow> (r, w')))"

definition is_success :: "int option \<Rightarrow> bool" where
  "is_success st = (case st of None \<Rightarrow> False | Some s \<Rightarrow> s \<noteq> 0 \<and> 200 \<le> s \<and> s < 300)"

definition is_client_error :: "int option \<Rightarrow> bool" where
  "is_client_error st = (case st of None \<Rightarrow> False | Some s \<Rightarrow> s \<noteq> 0 \<and> 400 \<le> s \<and> s < 500)"

definition is_retryable :: "int option \<Rightarrow> string option \<Rightarrow> bool" where
  "is_retryable st err = (text_truthy err \<or> (case st of None \<Rightarrow> False | Some s \<Rightarrow> s \<noteq> 0 \<and> 500 \<le> s))"

text \<open>
  \<open>(backoff_ms * 2 ** attempt) / 1000\<close> plus \<open>random.uniform(0, delay * 0.5)\<close>; \<open>de_jitter\<close> is the
  fraction drawn.
\<close>

definition backoff_delay :: "('s, 'k) denv \<Rightarrow> route_cfg \<Rightarrow> nat \<Rightarrow> nat \<Rightarrow> rat" where
  "backoff_delay E route attempt n =
     (let delay = of_int (rc_retry_backoff_ms route) * 2 ^ attempt / 1000
      in delay + delay / 2 * de_jitter E n)"

section \<open>One pass and the retries\<close>

text \<open>
  What a pass ends with: a return or an exception, or a pause followed by a call of the function
  with a new attempt number and a new count of rate-limit waits.
\<close>

datatype pass_end = Return "unit res" | Again rat nat nat

definition andthen :: "'a res \<times> ('s, 'k) dworld \<Rightarrow> ('a \<Rightarrow> ('s, 'k) dworld \<Rightarrow> pass_end \<times> ('s, 'k) dworld) \<Rightarrow>
    pass_end \<times> ('s, 'k) dworld" where
  "andthen p f = (case p of (Inl e, w) \<Rightarrow> (Return (Inl e), w) | (Inr x, w) \<Rightarrow> f x w)"

text \<open>The branch of an open breaker.\<close>

definition breaker_open :: "('s, 'k) denv \<Rightarrow> uuid \<Rightarrow> route_cfg \<Rightarrow> json \<Rightarrow> nat \<Rightarrow> ('s, 'k) dworld \<Rightarrow>
    pass_end \<times> ('s, 'k) dworld" where
  "breaker_open E event_id route body attempt w =
     andthen (add_attempt E event_id route body attempt None None (Some ''circuit_breaker_open'') 0 w) (\<lambda>_ w.
       if int (attempt + 1) < rc_max_retries route
       then (Again (of_int (circuit_breaker_cooldown_s (de_cfg E))) (attempt + 1) 0, w)
       else (Return (Inr ()), w))"

text \<open>What follows the recorded attempt: the breaker's report, then return, retry or dead letter.\<close>

definition after_request :: "('s, 'k) denv \<Rightarrow> uuid \<Rightarrow> route_cfg \<Rightarrow> json \<Rightarrow> nat \<Rightarrow> int option \<Rightarrow> string option \<Rightarrow>
    ('s, 'k) dworld \<Rightarrow> pass_end \<times> ('s, 'k) dworld" where
  "after_request E event_id route body attempt st err w =
     (if is_success st then andthen (cb_report E (rc_url route) True w) (\<lambda>_ w. (Return (Inr ()), w))
      else andthen (cb_report E (rc_url route) False w) (\<lambda>_ w.
        if is_client_error st then (Return (Inr ()), w)
        else if is_retryable st err then
          if int (attempt + 1) < rc_max_retries route
          then (Again (backoff_delay E route attempt (dw_tick w)) (attempt + 1) 0, tick w)
          else (let (r, w') = send_dead_letter E (dead_letter (de_cfg E) event_id route body err st) w
                in (Return r, w'))
        else (Return (Inr ()), w)))"

definition request_and_record :: "('s, 'k) denv \<Rightarrow> uuid \<Rightarrow> route_cfg \<Rightarrow> json \<Rightarrow> nat \<Rightarrow> ('s, 'k) dworld \<Rightarrow>
    pass_end \<times> ('s, 'k) dworld" where
  "request_and_record E event_id route body attempt w =
     (let (result, duration_ms, w1) = do_request E route body w;
          (st, content, err) = http_outcome result
      in andthen (add_attempt E event_id route body attempt st content err duration_ms w1) (\<lambda>_ w2.
           after_request E event_id route body attempt st err w2))"

text \<open>The per-destination limit: a pause of a second, at most five times, then the delivery is given up.\<close>

definition dest_gate :: "('s, 'k) denv \<Rightarrow> uuid \<Rightarrow> route_cfg \<Rightarrow> json \<Rightarrow> nat \<Rightarrow> nat \<Rightarrow> ('s, 'k) dworld \<Rightarrow>
    pass_end \<times> ('s, 'k) dworld" where
  "dest_gate E event_id route body attempt waits w =
     andthen (rl_check E (''dest:'' @ rc_url route) None w) (\<lambda>ok w.
       if ok then request_and_record E event_id route body attempt w
       else if max_rate_limit_waits \<le> waits
       then andthen (add_attempt E event_id route body attempt None None (Some ''rate_limited_abandoned'') 0 w)
              (\<lambda>_ w. (Return (Inr ()), w))
       else (Again 1 attempt (waits + 1), w))"

definition attempt_once :: "('s, 'k) denv \<Rightarrow> uuid \<Rightarrow> route_cfg \<Rightarrow> json \<Rightarrow> nat \<Rightarrow> nat \<Rightarrow> ('s, 'k) dworld \<Rightarrow>
    pass_end \<times> ('s, 'k) dworld" where
  "attempt_once E event_id route body attempt waits w =
     andthen (cb_check E (rc_url route) w) (\<lambda>opened w.
       if opened then breaker_open E event_id route body attempt w
       else (case rc_rate_limit_rpm route of
               None \<Rightarrow> dest_gate E event_id route body attempt waits w
             | Some rpm \<Rightarrow>
                 andthen (rl_check E (''route:'' @ uuid_str (rc_id route)) (Some rpm) w) (\<lambda>ok w.
                   if ok then dest_gate E event_id route body attempt waits w
                   else andthen (add_attempt E event_id route body attempt None None
                                   (Some ''route_rate_limited'') 0 w)
                          (\<lambda>_ w. (Return (Inr ()), w)))))"

lemmas pass_defs = attempt_once_def dest_gate_def request_and_record_def after_request_def breaker_open_def
  andthen_def

lemma attempt_once_again:
  assumes "attempt_once E event_id route body attempt waits w = (Again d a n, w')"
  shows "a = attempt + 1 \<and> int a < rc_max_retries route \<and> n = 0 \<or>
         a = attempt \<and> n = waits + 1 \<and> waits < max_rate_limit_waits"
  using assms
  by (auto simp: pass_defs Let_def split: prod.splits sum.splits option.splits if_splits)

function deliver :: "('s, 'k) denv \<Rightarrow> uuid \<Rightarrow> route_cfg \<Rightarrow> json \<Rightarrow> nat \<Rightarrow> nat \<Rightarrow> ('s, 'k) dworld \<Rightarrow>
    unit res \<times> ('s, 'k) dworld" where
  "deliver E event_id route body attempt waits w =
     (case attempt_once E event_id route body attempt waits w of
        (Return r, w') \<Rightarrow> (r, w')
      | (Again d a n, w') \<Rightarrow> deliver E event_id route body a n (pause d w'))"
  by pat_completeness auto
termination
  by (relation "measures [\<lambda>(E, ev, route, body, a, n, w). nat (rc_max_retries route) - a,
                          \<lambda>(E, ev, route, body, a, n, w). max_rate_limit_waits - n]")
    (auto dest!: sym [THEN attempt_once_again])

declare deliver.simps [simp del]

section \<open>What a pass does to the state\<close>

text \<open>The rows and the trace a piece of a delivery appends; everything else in the database stays.\<close>

definition appends :: "('s, 'k) dworld \<Rightarrow> ('s, 'k) dworld \<Rightarrow> attempt_row list \<Rightarrow> act list \<Rightarrow> bool" where
  "appends w w' rows acts \<longleftrightarrow>
     dw_db w' = (dw_db w)\<lparr>attempts := attempts (dw_db w) @ rows\<rparr> \<and>
     dw_trace w' = dw_trace w @ acts \<and> dw_now w \<le> dw_now w'"

definition row_of :: "uuid \<Rightarrow> route_cfg \<Rightarrow> json \<Rightarrow> nat \<Rightarrow> attempt_row \<Rightarrow> bool" where
  "row_of event_id route body attempt r \<longleftrightarrow>
     at_event_id r = event_id \<and> at_route_id r = rc_id route \<and> at_request_url r = rc_url route \<and>
     at_request_body r = body \<and> at_attempt_number r = int attempt"

lemma appends_refl [simp]: "appends w w [] []"
  by (simp add: appends_def)

lemma appends_trans:
  "appends w w1 r1 a1 \<Longrightarrow> appends w1 w2 r2 a2 \<Longrightarrow> appends w w2 (r1 @ r2) (a1 @ a2)"
  by (auto simp: appends_def)

lemma appends_tick [simp]: "appends w (tick w') rows acts \<longleftrightarrow> appends w w' rows acts"
  by (simp add: appends_def tick_def)

lemma appends_pause: "appends w (pause d w) [] [Paused d]"
  by (simp add: appends_def pause_def)

lemma with_redis_appends:
  "with_redis f w = (r, w') \<Longrightarrow> appends w w' [] [] \<and> dw_kafka w' = dw_kafka w"
  by (auto simp: with_redis_def appends_def tick_def split: sum.splits prod.splits)

lemma cb_check_appends:
  "cb_check E url w = (r, w') \<Longrightarrow> appends w w' [] [] \<and> dw_kafka w' = dw_kafka w"
  by (auto simp: cb_check_def Let_def dest: with_redis_appends split: prod.splits)

lemma rl_check_appends:
  "rl_check E key m w = (r, w') \<Longrightarrow> appends w w' [] [] \<and> dw_kafka w' = dw_kafka w"
  by (auto simp: rl_check_def dest: with_redis_appends split: if_splits)

lemma cb_report_appends:
  "cb_report E url ok w = (r, w') \<Longrightarrow> appends w w' [] [] \<and> dw_kafka w' = dw_kafka w"
  by (auto simp: cb_report_def dest: with_redis_appends)

lemma add_attempt_appends:
  assumes "add_attempt E ev route body a st content err ms w = (r, w')"
  shows "\<exists>rows. appends w w' rows [] \<and> dw_kafka w' = dw_kafka w \<and> list_all (row_of ev route body a) rows \<and>
    length rows \<le> 1 \<and> (r = Inr () \<longrightarrow> length rows = 1)"
proof (cases r)
  case (Inl e)
  with assms have "w' = tick w"
    by (auto simp: add_attempt_def Let_def split: sum.splits)
  with Inl show ?thesis
    by (intro exI [of _ "[]"]) (simp add: tick_def appends_def)
next
  case (Inr u)
  with assms obtain row d' where
    "commit (de_db_fault E (dw_tick w)) ((dw_db w)\<lparr>attempts := attempts (dw_db w) @ [row]\<rparr>) = Inr d'"
    "row_of ev route body a row" "w' = tick (w\<lparr>dw_db := d'\<rparr>)"
    by (auto simp: add_attempt_def Let_def row_of_def split: sum.splits)
  with Inr show ?thesis
    by (intro exI [of _ "[row]"]) (simp add: commit_ok tick_def appends_def)
qed

lemma send_dead_letter_appends:
  "send_dead_letter E m w = (r, w') \<Longrightarrow> appends w w' [] []"
  by (auto simp: send_dead_letter_def appends_def Let_def split: option.splits prod.splits sum.splits exc.splits)

lemma do_request_appends:
  assumes "do_request E route body w = (result, ms, w')"
  shows "dw_kafka w' = dw_kafka w \<and>
    (appends w w' [] [] \<or>
     appends w w' [] [Exchanged (request_of route body) result] \<and>
     validate_delivery_url_for_request (de_cfg E) (de_resolve E (dw_tick w)) (rc_url route) = Inr ())"
  using assms
  by (auto simp: do_request_def Let_def appends_def tick_def split: sum.splits)

text \<open>A result after which the delivery may be tried again.\<close>

definition failed_result :: "http_result \<Rightarrow> bool" where
  "failed_result r = (case r of HResponse s content \<Rightarrow> 500 \<le> s | _ \<Rightarrow> True)"

lemma retryable_failed:
  "http_outcome r = (st, content, err) \<Longrightarrow> is_retryable st err \<Longrightarrow> failed_result r"
  by (auto simp: http_outcome_def is_retryable_def text_truthy_def failed_result_def split: http_result.splits)

text \<open>The whole of a pass: at most one row and one request, and what each way to end it implies.\<close>

definition exchange_ok :: "('s, 'k) denv \<Rightarrow> route_cfg \<Rightarrow> json \<Rightarrow> act \<Rightarrow> bool" where
  "exchange_ok E route body x \<longleftrightarrow>
     (\<exists>n res. x = Exchanged (request_of route body) res \<and>
        validate_delivery_url_for_request (de_cfg E) (de_resolve E n) (rc_url route) = Inr ())"

fun retry_act :: "act \<Rightarrow> bool" where
  "retry_act (Exchanged q r) = failed_result r"
| "retry_act (Paused d) = True"

definition pass_ok :: "('s, 'k) denv \<Rightarrow> uuid \<Rightarrow> route_cfg \<Rightarrow> json \<Rightarrow> nat \<Rightarrow> ('s, 'k) dworld \<Rightarrow>
    pass_end \<times> ('s, 'k) dworld \<Rightarrow> bool" where
  "pass_ok E ev route body a w p \<longleftrightarrow>
     (\<exists>rows acts. appends w (snd p) rows acts \<and> list_all (row_of ev route body a) rows \<and> length rows \<le> 1 \<and>
        list_all (exchange_ok E route body) acts \<and> length acts \<le> 1 \<and>
        (case fst p of
           Return r \<Rightarrow> r = Inr () \<longrightarrow> length rows = 1
         | Again d b m \<Rightarrow> b = a + 1 \<and> length rows = 1 \<and> list_all retry_act acts \<or>
                         b = a \<and> rows = [] \<and> acts = []))"

lemma pass_ok_stop: "pass_ok E ev route body a w (Return (Inl e), w)"
  unfolding pass_ok_def by (intro exI [of _ "[]"]) simp

lemma pass_ok_later:
  "appends w w1 [] [] \<Longrightarrow> pass_ok E ev route body a w1 p \<Longrightarrow> pass_ok E ev route body a w p"
  unfolding pass_ok_def by (elim exE) (use appends_trans [of w w1 "[]" "[]"] in fastforce)

lemma pass_ok_andthen:
  assumes "appends w (snd p) [] []" and "\<And>x. fst p = Inr x \<Longrightarrow> pass_ok E ev route body a (snd p) (f x (snd p))"
  shows "pass_ok E ev route body a w (andthen p f)"
proof (rule pass_ok_later [OF assms(1)])
  show "pass_ok E ev route body a (snd p) (andthen p f)"
  proof (cases "fst p")
    case (Inl e)
    then show ?thesis by (cases p) (simp add: andthen_def pass_ok_stop)
  next
    case (Inr x)
    with assms(2) [OF Inr] show ?thesis by (cases p) (simp add: andthen_def)
  qed
qed

text \<open>A recorded attempt and then only steps that write no row.\<close>

lemma pass_ok_recorded:
  assumes "add_attempt E ev route body a st content err ms w1 = p" and "appends w w1 [] acts"
    and "list_all (exchange_ok E route body) acts" and "length acts \<le> 1"
    and "\<And>x w2. appends w2 (snd (f x w2)) [] [] \<and>
      (case fst (f x w2) of Return r \<Rightarrow> True | Again d b m \<Rightarrow> b = a + 1 \<and> list_all retry_act acts)"
  shows "pass_ok E ev route body a w (andthen p f)"
proof -
  obtain r w2 where p: "p = (r, w2)" by (cases p)
  obtain rows where rows: "appends w1 w2 rows []" "list_all (row_of ev route body a) rows" "length rows \<le> 1"
      "r = Inr () \<longrightarrow> length rows = 1"
    using add_attempt_appends assms(1) p by blast
  have sofar: "appends w w2 rows acts"
    using appends_trans [OF assms(2) rows(1)] by simp
  show ?thesis
  proof (cases r)
    case (Inl e)
    with sofar rows assms(3,4) show ?thesis
      by (auto simp: p andthen_def pass_ok_def)
  next
    case (Inr u)
    have "appends w (snd (f u w2)) rows acts"
      using appends_trans [OF sofar conjunct1 [OF assms(5) [of w2 u]]] by simp
    moreover have "length rows = 1" using rows(4) Inr by simp
    ultimately have "pass_ok E ev route body a w (f u w2)"
      using rows assms(3,4) assms(5) [of w2 u] unfolding pass_ok_def
      by (intro exI [of _ rows] exI [of _ acts]) (auto split: pass_end.splits)
    then show ?thesis by (simp add: p Inr andthen_def)
  qed
qed

lemma after_request_appends:
  assumes "after_request E ev route body a st err w = (x, w')"
  shows "appends w w' [] [] \<and> (case x of Return r \<Rightarrow> True | Again d b m \<Rightarrow> b = a + 1 \<and> is_retryable st err)"
proof -
  obtain r w1 where c: "cb_report E (rc_url route) (is_success st) w = (r, w1)"
    by (cases "cb_report E (rc_url route) (is_success st) w")
  note c1 = conjunct1 [OF cb_report_appends [OF c]]
  show ?thesis
    using assms c c1
    by (auto simp: after_request_def andthen_def Let_def split: if_splits sum.splits prod.splits
        dest: send_dead_letter_appends appends_trans [OF c1, simplified])
qed

lemma request_and_record_ok: "pass_ok E ev route body a w (request_and_record E ev route body a w)"
proof -
  obtain result ms w1 where req: "do_request E route body w = (result, ms, w1)"
    by (metis prod_cases3)
  obtain st content err where out: "http_outcome result = (st, content, err)"
    by (metis prod_cases3)
  define acts where "acts = (if appends w w1 [] [] then [] else [Exchanged (request_of route body) result])"
  have acts: "appends w w1 [] acts" "list_all (exchange_ok E route body) acts" "length acts \<le> 1"
    using do_request_appends [OF req] by (auto simp: acts_def exchange_ok_def)
  have "pass_ok E ev route body a w
      (andthen (add_attempt E ev route body a st content err ms w1) (\<lambda>_ w2. after_request E ev route body a st err w2))"
  proof (rule pass_ok_recorded [OF refl acts])
    fix x :: unit and w2 :: "('a, 'b) dworld"
    obtain y w3 where y: "after_request E ev route body a st err w2 = (y, w3)"
      by (cases "after_request E ev route body a st err w2")
    show "appends w2 (snd (after_request E ev route body a st err w2)) [] [] \<and>
      (case fst (after_request E ev route body a st err w2) of Return r \<Rightarrow> True
       | Again d b m \<Rightarrow> b = a + 1 \<and> list_all retry_act acts)"
      using after_request_appends [OF y] retryable_failed [OF out]
      by (auto simp: y acts_def split: pass_end.splits)
  qed
  then show ?thesis
    by (simp add: request_and_record_def req out)
qed

lemma dest_gate_ok: "pass_ok E ev route body a w (dest_gate E ev route body a n w)"
  unfolding dest_gate_def
proof (rule pass_ok_andthen)
  show "appends w (snd (rl_check E (''dest:'' @ rc_url route) None w)) [] []"
    using rl_check_appends by (metis prod.collapse)
next
  fix ok
  let ?w = "snd (rl_check E (''dest:'' @ rc_url route) None w)"
  have "pass_ok E ev route body a ?w
      (andthen (add_attempt E ev route body a None None (Some ''rate_limited_abandoned'') 0 ?w)
        (\<lambda>_ w. (Return (Inr ()), w)))"
    by (rule pass_ok_recorded [OF refl appends_refl]) simp_all
  moreover have "pass_ok E ev route body a ?w (Again 1 a (n + 1), ?w)"
    by (auto simp: pass_ok_def)
  ultimately show "pass_ok E ev route body a ?w
      (if ok then request_and_record E ev route body a ?w
       else if max_rate_limit_waits \<le> n
       then andthen (add_attempt E ev route body a None None (Some ''rate_limited_abandoned'') 0 ?w)
              (\<lambda>_ w. (Return (Inr ()), w))
       else (Again 1 a (n + 1), ?w))"
    by (simp add: request_and_record_ok)
qed

lemma breaker_open_ok: "pass_ok E ev route body a w (breaker_open E ev route body a w)"
  unfolding breaker_open_def
  by (rule pass_ok_recorded [OF refl appends_refl]) simp_all

lemma attempt_once_ok: "pass_ok E ev route body a w (attempt_once E ev route body a n w)"
  unfolding attempt_once_def
proof (rule pass_ok_andthen)
  show "appends w (snd (cb_check E (rc_url route) w)) [] []"
    using cb_check_appends by (metis prod.collapse)
next
  fix opened
  let ?w = "snd (cb_check E (rc_url route) w)"
  have limited: "pass_ok E ev route body a ?w
      (andthen (rl_check E (''route:'' @ uuid_str (rc_id route)) (Some rpm) ?w) (\<lambda>ok w.
         if ok then dest_gate E ev route body a n w
         else andthen (add_attempt E ev route body a None None (Some ''route_rate_limited'') 0 w)
                (\<lambda>_ w. (Return (Inr ()), w))))" (is "pass_ok E ev route body a ?w (andthen ?p ?f)") for rpm
  proof (rule pass_ok_andthen)
    show "appends ?w (snd ?p) [] []"
      using rl_check_appends by (metis prod.collapse)
    fix ok
    show "pass_ok E ev route body a (snd ?p) (?f ok (snd ?p))"
      by (auto simp: dest_gate_ok intro: pass_ok_recorded [OF refl appends_refl])
  qed
  show "pass_ok E ev route body a ?w
      (if opened then breaker_open E ev route body a ?w
       else (case rc_rate_limit_rpm route of
               None \<Rightarrow> dest_gate E ev route body a n ?w
             | Some rpm \<Rightarrow>
                 andthen (rl_check E (''route:'' @ uuid_str (rc_id route)) (Some rpm) ?w) (\<lambda>ok w.
                   if ok then dest_gate E ev route body a n w
                   else andthen (add_attempt E ev route body a None None (Some ''route_rate_limited'') 0 w)
                          (\<lambda>_ w. (Return (Inr ()), w)))))"
    using limited by (simp add: breaker_open_ok dest_gate_ok split: option.split)
qed

section \<open>What a delivery does to the state\<close>

definition is_exchange :: "act \<Rightarrow> bool" where
  "is_exchange x = (case x of Exchanged q r \<Rightarrow> True | Paused d \<Rightarrow> False)"

definition act_ok :: "('s, 'k) denv \<Rightarrow> route_cfg \<Rightarrow> json \<Rightarrow> act \<Rightarrow> bool" where
  "act_ok E route body x \<longleftrightarrow> is_exchange x \<longrightarrow> exchange_ok E route body x"

text \<open>
  The rows of a delivery that starts with attempt number \<open>a\<close> are numbered from \<open>a\<close> on, one for
  each number; there is at most one request for each number below the larger of \<open>max_retries\<close> and
  \<open>a + 1\<close>; and every request but the last had a result that asks for a retry.
\<close>

definition rows_ok :: "uuid \<Rightarrow> route_cfg \<Rightarrow> json \<Rightarrow> nat \<Rightarrow> attempt_row list \<Rightarrow> bool" where
  "rows_ok ev route body a rows \<longleftrightarrow> (\<forall>i < length rows. row_of ev route body (a + i) (rows ! i))"

definition delivery_ok :: "('s, 'k) denv \<Rightarrow> uuid \<Rightarrow> route_cfg \<Rightarrow> json \<Rightarrow> nat \<Rightarrow> ('s, 'k) dworld \<Rightarrow>
    unit res \<times> ('s, 'k) dworld \<Rightarrow> bool" where
  "delivery_ok E ev route body a w p \<longleftrightarrow>
     (\<exists>rows acts. appends w (snd p) rows acts \<and> rows_ok ev route body a rows \<and>
        length rows \<le> max 1 (nat (rc_max_retries route) - a) \<and>
        list_all (act_ok E route body) acts \<and>
        length (filter is_exchange acts) \<le> max 1 (nat (rc_max_retries route) - a) \<and>
        (filter is_exchange acts \<noteq> [] \<longrightarrow> list_all retry_act (butlast (filter is_exchange acts))) \<and>
        (fst p = Inr () \<longrightarrow> rows \<noteq> []))"

lemma exchange_is: "exchange_ok E route body x \<Longrightarrow> is_exchange x"
  by (auto simp: exchange_ok_def is_exchange_def)

lemma exchanges_filter: "list_all (exchange_ok E route body) acts \<Longrightarrow> filter is_exchange acts = acts"
  by (induction acts) (auto dest: exchange_is)

lemma exchanges_act_ok: "list_all (exchange_ok E route body) acts \<Longrightarrow> list_all (act_ok E route body) acts"
  by (auto simp: list_all_iff act_ok_def)

lemma rows_ok_one: "list_all (row_of ev route body a) rows \<Longrightarrow> length rows \<le> 1 \<Longrightarrow> rows_ok ev route body a rows"
  by (auto simp: rows_ok_def le_Suc_eq length_Suc_conv)

lemma rows_ok_Cons: "row_of ev route body a r \<Longrightarrow> rows_ok ev route body (Suc a) rows \<Longrightarrow> rows_ok ev route body a (r # rows)"
  by (auto simp: rows_ok_def nth_Cons split: nat.split)

lemma butlast_exchanges:
  "list_all retry_act xs \<Longrightarrow> (ys \<noteq> [] \<longrightarrow> list_all retry_act (butlast ys)) \<Longrightarrow>
   xs @ ys \<noteq> [] \<longrightarrow> list_all retry_act (butlast (xs @ ys))"
  by (auto simp: butlast_append list_all_iff dest: in_set_butlastD)

text \<open>A pass that asks for another one, a pause, and a delivery that is right from there.\<close>

lemma delivery_ok_again:
  assumes pass: "appends w w1 rows acts" "list_all (row_of ev route body a) rows" "list_all (exchange_ok E route body) acts"
      "length acts \<le> 1"
    and again: "b = a + 1 \<and> length rows = 1 \<and> list_all retry_act acts \<and> b < nat (rc_max_retries route) \<or>
        b = a \<and> rows = [] \<and> acts = []"
    and rest: "delivery_ok E ev route body b (pause d w1) out"
  shows "delivery_ok E ev route body a w out"
proof -
  obtain rows' acts' where ih: "appends (pause d w1) (snd out) rows' acts'" "rows_ok ev route body b rows'"
    "length rows' \<le> max 1 (nat (rc_max_retries route) - b)" "list_all (act_ok E route body) acts'"
    "length (filter is_exchange acts') \<le> max 1 (nat (rc_max_retries route) - b)"
    "filter is_exchange acts' \<noteq> [] \<longrightarrow> list_all retry_act (butlast (filter is_exchange acts'))"
    "fst out = Inr () \<longrightarrow> rows' \<noteq> []"
    using rest unfolding delivery_ok_def by blast
  have app: "appends w (snd out) (rows @ rows') (acts @ Paused d # acts')"
    using appends_trans [OF appends_trans [OF pass(1) appends_pause] ih(1)] by simp
  have paused: "act_ok E route body (Paused d)" "\<not> is_exchange (Paused d)"
    by (simp_all add: act_ok_def is_exchange_def)
  have fil: "filter is_exchange (acts @ Paused d # acts') = acts @ filter is_exchange acts'"
    using paused(2) exchanges_filter [OF pass(3)] by simp
  have "rows_ok ev route body a (rows @ rows')"
    using again pass(2) ih(2) by (auto simp: length_Suc_conv intro: rows_ok_Cons)
  moreover have "list_all (act_ok E route body) (acts @ Paused d # acts')"
    using exchanges_act_ok [OF pass(3)] ih(4) paused(1) by simp
  moreover have "length (rows @ rows') \<le> max 1 (nat (rc_max_retries route) - a)"
    using again ih(3) by auto
  moreover have "length (acts @ filter is_exchange acts') \<le> max 1 (nat (rc_max_retries route) - a)"
    using again ih(5) pass(4) by auto
  moreover have "list_all retry_act acts"
    using again by auto
  ultimately show ?thesis
    unfolding delivery_ok_def using app ih(6,7) fil butlast_exchanges
    by (intro exI [of _ "rows @ rows'"] exI [of _ "acts @ Paused d # acts'"]) (simp only: fil, blast)
qed

lemma deliver_ok: "delivery_ok E ev route body a w (deliver E ev route body a n w)"
proof (induction E ev route body a n w rule: deliver.induct)
  case (1 E ev route body a n w)
  obtain x w1 where pass: "attempt_once E ev route body a n w = (x, w1)"
    by (cases "attempt_once E ev route body a n w")
  obtain rows acts where ok: "appends w w1 rows acts" "list_all (row_of ev route body a) rows" "length rows \<le> 1"
      "list_all (exchange_ok E route body) acts" "length acts \<le> 1"
    and fin: "case x of Return r \<Rightarrow> r = Inr () \<longrightarrow> length rows = 1
      | Again d b m \<Rightarrow> b = a + 1 \<and> length rows = 1 \<and> list_all retry_act acts \<or> b = a \<and> rows = [] \<and> acts = []"
    using attempt_once_ok [of E ev route body a w n] by (auto simp: pass_ok_def pass)
  show ?case
  proof (cases x)
    case (Return r)
    have "butlast acts = []" using ok(5) by (auto simp: le_Suc_eq length_Suc_conv)
    with Return ok fin show ?thesis
      unfolding delivery_ok_def deliver.simps [of E ev route body a n w] pass
      by (intro exI [of _ rows] exI [of _ acts])
        (auto simp: rows_ok_one exchanges_filter exchanges_act_ok)
  next
    case (Again d b m)
    have again: "b = a + 1 \<and> length rows = 1 \<and> list_all retry_act acts \<and> b < nat (rc_max_retries route) \<or>
        b = a \<and> rows = [] \<and> acts = []"
      using fin Again attempt_once_again [of E ev route body a n w d b m w1] pass by auto
    have "deliver E ev route body a n w = deliver E ev route body b m (pause d w1)"
      by (simp add: deliver.simps [of E ev route body a n w] pass Again)
    with delivery_ok_again [OF ok(1,2,4,5) again 1 [OF pass [symmetric] Again]] show ?thesis by simp
  qed
qed

section \<open>Dead letters\<close>

text \<open>
  A row that sends the delivery to the dead-letter topic: a request was made or refused by the URL
  check, its outcome asks for a retry, and no attempt is left.
\<close>

definition gate_errors :: "string list" where
  "gate_errors = [''circuit_breaker_open'', ''route_rate_limited'', ''rate_limited_abandoned'']"

definition dlq_row :: "route_cfg \<Rightarrow> attempt_row \<Rightarrow> bool" where
  "dlq_row route r \<longleftrightarrow>
     at_error r \<notin> Some ` set gate_errors \<and> is_retryable (at_response_status r) (at_error r) \<and>
     rc_max_retries route \<le> at_attempt_number r + 1"

definition after_row :: "('s, 'k) denv \<Rightarrow> uuid \<Rightarrow> route_cfg \<Rightarrow> json \<Rightarrow> attempt_row \<Rightarrow> 'k option \<Rightarrow> 'k option" where
  "after_row E ev route body r k =
     (if dlq_row route r
      then map_option (\<lambda>k. snd (de_send E (dead_letter (de_cfg E) ev route body (at_error r) (at_response_status r)) k)) k
      else k)"

text \<open>A pass that returns wrote exactly one row, and that row tells what became of the producer.\<close>

definition kafka_ok :: "('s, 'k) denv \<Rightarrow> uuid \<Rightarrow> route_cfg \<Rightarrow> json \<Rightarrow> ('s, 'k) dworld \<Rightarrow> pass_end \<times> ('s, 'k) dworld \<Rightarrow> bool" where
  "kafka_ok E ev route body w p \<longleftrightarrow>
     (case fst p of
        Return (Inr u) \<Rightarrow>
          (\<exists>r. attempts (dw_db (snd p)) = attempts (dw_db w) @ [r] \<and>
             dw_kafka (snd p) = after_row E ev route body r (dw_kafka w))
      | Return (Inl e) \<Rightarrow> True
      | Again d b m \<Rightarrow> dw_kafka (snd p) = dw_kafka w)"

lemma add_attempt_row:
  assumes "add_attempt E ev route body a st content err ms w = (Inr u, w')"
  shows "\<exists>r. attempts (dw_db w') = attempts (dw_db w) @ [r] \<and> dw_kafka w' = dw_kafka w \<and>
    at_error r = err \<and> at_response_status r = st \<and> at_attempt_number r = int a"
  using assms by (auto simp: add_attempt_def Let_def commit_ok tick_def split: sum.splits)

lemma gate_row:
  assumes "add_attempt E ev route body a st content (Some g) ms w = (Inr u, w')" and "g \<in> set gate_errors"
  shows "\<exists>r. attempts (dw_db w') = attempts (dw_db w) @ [r] \<and> dw_kafka w' = after_row E ev route body r (dw_kafka w)"
  using add_attempt_row [OF assms(1)] assms(2) by (auto simp: after_row_def dlq_row_def)

lemma gate_words: "g \<in> set gate_errors \<Longrightarrow> CHR '':'' \<notin> set g"
  by (auto simp: gate_errors_def)

lemma outcome_not_gate: "http_outcome res = (st, content, err) \<Longrightarrow> err \<notin> Some ` set gate_errors"
  by (auto simp: http_outcome_def dest: gate_words split: http_result.splits)

lemma success_final: "http_outcome res = (st, content, err) \<Longrightarrow> is_success st \<or> is_client_error st \<Longrightarrow> \<not> is_retryable st err"
  by (auto simp: http_outcome_def is_success_def is_client_error_def is_retryable_def text_truthy_def
      split: http_result.splits)

lemma request_kafka: "kafka_ok E ev route body w (request_and_record E ev route body a w)"
proof -
  obtain res ms w1 where req: "do_request E route body w = (res, ms, w1)"
    by (metis prod_cases3)
  obtain st content err where out: "http_outcome res = (st, content, err)"
    by (metis prod_cases3)
  obtain r w2 where add: "add_attempt E ev route body a st content err ms w1 = (r, w2)"
    by (cases "add_attempt E ev route body a st content err ms w1")
  have w1: "dw_kafka w1 = dw_kafka w" "dw_db w1 = dw_db w"
    using do_request_appends [OF req] by (auto simp: appends_def)
  show ?thesis
  proof (cases r)
    case (Inl e)
    then show ?thesis by (simp add: request_and_record_def req out add andthen_def kafka_ok_def)
  next
    case (Inr u)
    obtain row where row: "attempts (dw_db w2) = attempts (dw_db w) @ [row]" "dw_kafka w2 = dw_kafka w"
        "at_error row = err" "at_response_status row = st" "at_attempt_number row = int a"
      using add_attempt_row add Inr w1 by metis
    have dlq: "dlq_row route row \<longleftrightarrow> is_retryable st err \<and> rc_max_retries route \<le> int (a + 1)"
      using outcome_not_gate [OF out] row by (simp add: dlq_row_def add.commute)
    obtain q w3 where rep: "cb_report E (rc_url route) (is_success st) w2 = (q, w3)"
      by (cases "cb_report E (rc_url route) (is_success st) w2")
    have w3: "dw_kafka w3 = dw_kafka w2" "dw_db w3 = dw_db w2"
      using cb_report_appends [OF rep] by (auto simp: appends_def)
    have "request_and_record E ev route body a w = after_request E ev route body a st err w2"
      by (simp add: request_and_record_def req out add andthen_def Inr)
    then show ?thesis
      using rep w3 row dlq success_final [OF out]
      by (cases q; cases "is_success st"; cases "is_client_error st"; cases "is_retryable st err")
        (auto simp: after_request_def andthen_def kafka_ok_def after_row_def tick_def Let_def
          send_dead_letter_def get_kafka_def split: option.splits prod.splits sum.splits exc.splits)
  qed
qed

lemma kafka_ok_andthen:
  assumes "dw_kafka (snd p) = dw_kafka w \<and> attempts (dw_db (snd p)) = attempts (dw_db w)"
    and "\<And>x. fst p = Inr x \<Longrightarrow> kafka_ok E ev route body (snd p) (f x (snd p))"
  shows "kafka_ok E ev route body w (andthen p f)"
  using assms by (cases p; cases "fst p") (auto simp: andthen_def kafka_ok_def split: pass_end.splits sum.splits)

lemma gate_kafka:
  assumes "g \<in> set gate_errors"
    and "\<And>u w1. f u w1 = (Return (Inr ()), w1) \<or> (\<exists>d b m. f u w1 = (Again d b m, w1))"
  shows "kafka_ok E ev route body w (andthen (add_attempt E ev route body a None None (Some g) ms w) f)"
proof -
  obtain r w1 where add: "add_attempt E ev route body a None None (Some g) ms w = (r, w1)"
    by (cases "add_attempt E ev route body a None None (Some g) ms w")
  show ?thesis
  proof (cases r)
    case (Inl e)
    then show ?thesis by (simp add: add andthen_def kafka_ok_def)
  next
    case (Inr u)
    have "dw_kafka w1 = dw_kafka w"
      using add_attempt_row add Inr by metis
    then show ?thesis
      using gate_row [OF add [unfolded Inr] assms(1)] assms(2) [of u w1] by (auto simp: add Inr andthen_def kafka_ok_def)
  qed
qed

lemma check_frame:
  "dw_kafka (snd (cb_check E url w)) = dw_kafka w \<and> attempts (dw_db (snd (cb_check E url w))) = attempts (dw_db w)"
  "dw_kafka (snd (rl_check E key m w)) = dw_kafka w \<and> attempts (dw_db (snd (rl_check E key m w))) = attempts (dw_db w)"
  using cb_check_appends [of E url w "fst (cb_check E url w)" "snd (cb_check E url w)"]
    rl_check_appends [of E key m w "fst (rl_check E key m w)" "snd (rl_check E key m w)"]
  by (auto simp: appends_def)

lemma gate_mem: "''circuit_breaker_open'' \<in> set gate_errors" "''route_rate_limited'' \<in> set gate_errors"
  "''rate_limited_abandoned'' \<in> set gate_errors"
  by (simp_all add: gate_errors_def)

lemma dest_kafka: "kafka_ok E ev route body w (dest_gate E ev route body a n w)"
  unfolding dest_gate_def
proof (rule kafka_ok_andthen [OF check_frame(2)])
  fix ok
  let ?w = "snd (rl_check E (''dest:'' @ rc_url route) None w)"
  have "kafka_ok E ev route body ?w
      (andthen (add_attempt E ev route body a None None (Some ''rate_limited_abandoned'') 0 ?w)
         (\<lambda>_ w. (Return (Inr ()), w)))"
    by (rule gate_kafka [OF gate_mem(3)]) simp
  moreover have "kafka_ok E ev route body ?w (Again 1 a (n + 1), ?w)"
    by (simp add: kafka_ok_def)
  ultimately show "kafka_ok E ev route body ?w
      (if ok then request_and_record E ev route body a ?w
       else if max_rate_limit_waits \<le> n
       then andthen (add_attempt E ev route body a None None (Some ''rate_limited_abandoned'') 0 ?w)
              (\<lambda>_ w. (Return (Inr ()), w))
       else (Again 1 a (n + 1), ?w))"
    by (simp add: request_kafka)
qed

lemma attempt_once_kafka: "kafka_ok E ev route body w (attempt_once E ev route body a n w)"
  unfolding attempt_once_def
proof (rule kafka_ok_andthen [OF check_frame(1)])
  fix opened
  let ?w = "snd (cb_check E (rc_url route) w)"
  have 1: "kafka_ok E ev route body ?w (breaker_open E ev route body a ?w)"
    unfolding breaker_open_def by (rule gate_kafka [OF gate_mem(1)]) simp
  have 2: "kafka_ok E ev route body ?w
      (andthen (rl_check E (''route:'' @ uuid_str (rc_id route)) (Some rpm) ?w) (\<lambda>ok w.
         if ok then dest_gate E ev route body a n w
         else andthen (add_attempt E ev route body a None None (Some ''route_rate_limited'') 0 w)
                (\<lambda>_ w. (Return (Inr ()), w))))" for rpm
    by (rule kafka_ok_andthen [OF check_frame(2)]) (simp add: dest_kafka gate_kafka gate_mem)
  show "kafka_ok E ev route body ?w
      (if opened then breaker_open E ev route body a ?w
       else (case rc_rate_limit_rpm route of
               None \<Rightarrow> dest_gate E ev route body a n ?w
             | Some rpm \<Rightarrow>
                 andthen (rl_check E (''route:'' @ uuid_str (rc_id route)) (Some rpm) ?w) (\<lambda>ok w.
                   if ok then dest_gate E ev route body a n w
                   else andthen (add_attempt E ev route body a None None (Some ''route_rate_limited'') 0 w)
                          (\<lambda>_ w. (Return (Inr ()), w)))))"
    using 1 2 by (simp add: dest_kafka split: option.split)
qed

lemma deliver_kafka:
  "fst (deliver E ev route body a n w) = Inr () \<Longrightarrow>
   \<exists>rs r. attempts (dw_db (snd (deliver E ev route body a n w))) = rs @ [r] \<and>
     dw_kafka (snd (deliver E ev route body a n w)) = after_row E ev route body r (dw_kafka w)"
proof (induction E ev route body a n w rule: deliver.induct)
  case (1 E ev route body a n w)
  obtain x w1 where pass: "attempt_once E ev route body a n w = (x, w1)"
    by (cases "attempt_once E ev route body a n w")
  note k = attempt_once_kafka [of E ev route body w a n, unfolded pass kafka_ok_def fst_conv snd_conv]
  show ?case
  proof (cases x)
    case (Return r)
    with 1(2) k show ?thesis
      by (auto simp: deliver.simps [of E ev route body a n w] pass)
  next
    case (Again d b m)
    have del: "deliver E ev route body a n w = deliver E ev route body b m (pause d w1)"
      by (simp add: deliver.simps [of E ev route body a n w] pass Again)
    show ?thesis
      using 1(1) [OF pass [symmetric] Again] 1(2) k Again by (simp add: del pause_def)
  qed
qed

section \<open>Pauses\<close>

definition pause_ok :: "('s, 'k) denv \<Rightarrow> route_cfg \<Rightarrow> act \<Rightarrow> bool" where
  "pause_ok E route x \<longleftrightarrow>
     (\<forall>d. x = Paused d \<longrightarrow>
        d = of_int (circuit_breaker_cooldown_s (de_cfg E)) \<or> d = 1 \<or>
        (\<exists>k m. int (k + 1) < rc_max_retries route \<and> d = backoff_delay E route k m))"

lemma attempt_once_pause:
  assumes "attempt_once E ev route body a n w = (Again d b m, w')"
  shows "pause_ok E route (Paused d)"
  using assms
  by (auto simp: pass_defs pause_ok_def Let_def split: prod.splits sum.splits option.splits if_splits)

lemma deliver_pauses:
  "\<exists>acts. dw_trace (snd (deliver E ev route body a n w)) = dw_trace w @ acts \<and> list_all (pause_ok E route) acts"
proof (induction E ev route body a n w rule: deliver.induct)
  case (1 E ev route body a n w)
  obtain x w1 where pass: "attempt_once E ev route body a n w = (x, w1)"
    by (cases "attempt_once E ev route body a n w")
  obtain acts where acts: "dw_trace w1 = dw_trace w @ acts" "list_all (exchange_ok E route body) acts"
    using attempt_once_ok [of E ev route body a w n] by (auto simp: pass_ok_def pass appends_def)
  have ok: "list_all (pause_ok E route) acts"
    using acts(2) by (auto simp: list_all_iff exchange_ok_def pause_ok_def)
  show ?case
  proof (cases x)
    case (Return r)
    with acts(1) ok show ?thesis by (simp add: deliver.simps [of E ev route body a n w] pass)
  next
    case (Again d b m)
    have "pause_ok E route (Paused d)"
      using attempt_once_pause pass Again by blast
    then show ?thesis
      using 1 [OF pass [symmetric] Again] acts(1) ok
      by (fastforce simp: deliver.simps [of E ev route body a n w] pass Again pause_def)
  qed
qed

text \<open>The pauses so far; an attempt number has at most five waits for the limit and one pause before the next number.\<close>

definition pauses :: "('s, 'k) dworld \<Rightarrow> nat" where
  "pauses w = length (filter (\<lambda>x. \<not> is_exchange x) (dw_trace w))"

lemma pauses_pause [simp]: "pauses (pause d w) = Suc (pauses w)"
  by (simp add: pauses_def pause_def is_exchange_def)

lemma attempt_once_pauses: "attempt_once E ev route body a n w = (x, w') \<Longrightarrow> pauses w' = pauses w"
  using attempt_once_ok [of E ev route body a w n]
  by (fastforce simp: pass_ok_def appends_def pauses_def list_all_iff filter_empty_conv dest: bspec exchange_is)

lemma deliver_pause_count:
  "n \<le> max_rate_limit_waits \<Longrightarrow>
   pauses (snd (deliver E ev route body a n w)) + n + 1 \<le> pauses w + 6 * max 1 (nat (rc_max_retries route) - a)"
proof (induction E ev route body a n w rule: deliver.induct)
  case (1 E ev route body a n w)
  obtain x w1 where pass: "attempt_once E ev route body a n w = (x, w1)"
    by (cases "attempt_once E ev route body a n w")
  have w1: "pauses w1 = pauses w" using attempt_once_pauses [OF pass] .
  have n: "n \<le> 5" using 1(2) by (simp add: max_rate_limit_waits_def)
  show ?case
  proof (cases x)
    case (Return r)
    then show ?thesis using w1 n by (simp add: deliver.simps [of E ev route body a n w] pass)
  next
    case (Again d b m)
    have del: "deliver E ev route body a n w = deliver E ev route body b m (pause d w1)"
      by (simp add: deliver.simps [of E ev route body a n w] pass Again)
    have again: "b = a + 1 \<and> int b < rc_max_retries route \<and> m = 0 \<or> b = a \<and> m = n + 1 \<and> n < max_rate_limit_waits"
      using attempt_once_again pass Again by blast
    then have "m \<le> max_rate_limit_waits" by auto
    from 1(1) [OF pass [symmetric] Again this] again show ?thesis
      using n unfolding del by (auto simp: w1)
  qed
qed

lemma backoff_bounds:
  assumes "0 \<le> rc_retry_backoff_ms route" "0 \<le> de_jitter E m" "de_jitter E m \<le> 1"
  shows "of_int (rc_retry_backoff_ms route) * 2 ^ k / 1000 \<le> backoff_delay E route k m"
    and "backoff_delay E route k m \<le> 3 / 2 * (of_int (rc_retry_backoff_ms route) * 2 ^ k / 1000)"
proof -
  have gen: "D \<le> D + D / 2 * u \<and> D + D / 2 * u \<le> 3 / 2 * D" if "0 \<le> D" "0 \<le> u" "u \<le> 1" for D u :: rat
  proof -
    have "0 \<le> D / 2 * u" using that by simp
    moreover have "D / 2 * u \<le> D / 2" using that by (intro mult_left_le) simp_all
    ultimately show ?thesis by linarith
  qed
  have "0 \<le> of_int (rc_retry_backoff_ms route) * 2 ^ k / (1000 :: rat)"
    using assms(1) by simp
  from gen [OF this assms(2,3)]
  show "of_int (rc_retry_backoff_ms route) * 2 ^ k / 1000 \<le> backoff_delay E route k m"
    "backoff_delay E route k m \<le> 3 / 2 * (of_int (rc_retry_backoff_ms route) * 2 ^ k / 1000)"
    unfolding backoff_delay_def Let_def by blast+
qed

section \<open>Properties\<close>

text \<open>
  C9: the audit trail.  A delivery adds nothing to the database but attempt rows, for its own event,
  route, URL and body; their attempt numbers are consecutive from the first one on; there are at most
  \<open>max_retries\<close> of them (one if \<open>max_retries\<close> is smaller); and a delivery that returns without an
  exception has left at least one.
\<close>
theorem delivery_audit:
  "\<exists>rows. dw_db (snd (deliver E event_id route body 0 0 w)) =
       (dw_db w)\<lparr>attempts := attempts (dw_db w) @ rows\<rparr> \<and>
     (\<forall>i < length rows. at_event_id (rows ! i) = event_id \<and> at_route_id (rows ! i) = rc_id route \<and>
        at_request_url (rows ! i) = rc_url route \<and> at_request_body (rows ! i) = body \<and>
        at_attempt_number (rows ! i) = int i) \<and>
     length rows \<le> max 1 (nat (rc_max_retries route)) \<and>
     (fst (deliver E event_id route body 0 0 w) = Inr () \<longrightarrow> rows \<noteq> [])"
  using deliver_ok [of E event_id route body 0 w 0]
  unfolding delivery_ok_def appends_def rows_ok_def row_of_def by auto


text \<open>
  C8: the dead letter.  When a delivery returns, its last attempt row decides about the dead-letter
  topic: the message (with that row's error and status) is handed to the producer exactly when that
  row is of an outcome to be retried and carries the last attempt number allowed.  A delivery given up
  because of the open breaker or a rate limit, or ended by a 3xx or 4xx, sends none; nor does any
  delivery of a process whose producer was never started.
\<close>
theorem delivery_dead_letter:
  assumes "fst (deliver E event_id route body 0 0 w) = Inr ()"
  shows "\<exists>r. attempts (dw_db (snd (deliver E event_id route body 0 0 w))) \<noteq> [] \<and>
     r = last (attempts (dw_db (snd (deliver E event_id route body 0 0 w)))) \<and>
     dw_kafka (snd (deliver E event_id route body 0 0 w)) =
       (if at_error r \<notin> Some ` set gate_errors \<and> is_retryable (at_response_status r) (at_error r) \<and>
           rc_max_retries route \<le> at_attempt_number r + 1
        then map_option (\<lambda>k. snd (de_send E
               (dead_letter (de_cfg E) event_id route body (at_error r) (at_response_status r)) k)) (dw_kafka w)
        else dw_kafka w)"
  using deliver_kafka [OF assms] by (auto simp: after_row_def dlq_row_def)


section \<open>Closed examples\<close>

text \<open>
  One event, one route to a public address with a single attempt, and a destination that answers
  \<open>status\<close>.
\<close>

definition ex_route :: route_cfg where
  "ex_route = \<lparr>rc_id = 3, rc_url = quad_url 93 184 216 34 ''in'', rc_method = ''POST'', rc_headers = [],
     rc_timeout_ms = 10000, rc_max_retries = 1, rc_retry_backoff_ms = 1000, rc_rate_limit_rpm = None\<rparr>"

definition ex_db :: db where
  "ex_db = empty_db\<lparr>
     workspaces := [\<lparr>ws_id = 1, ws_name = ''w'', ws_slug = ''w'', ws_created_at = 0, ws_updated_at = 0\<rparr>],
     endpoints := [\<lparr>ep_id = 2, ep_workspace_id = 1, ep_name = ''e'', ep_hmac_secret = ''s'', ep_is_active = True,
       ep_rate_limit_rps = None, ep_ip_allowlist = None, ep_request_body_schema = None, ep_created_at = 0,
       ep_updated_at = 0\<rparr>],
     routes := [\<lparr>rt_id = 3, rt_endpoint_id = 2, rt_name = ''r'', rt_url = quad_url 93 184 216 34 ''in'',
       rt_method = ''POST'', rt_headers = None, rt_transform_pipeline = None, rt_rate_limit_rpm = None,
       rt_timeout_ms = 10000, rt_max_retries = 1, rt_retry_backoff_ms = 1000, rt_is_active = True,
       rt_filter_expression = None, rt_created_at = 0\<rparr>],
     events := [\<lparr>ev_id = 4, ev_endpoint_id = 2, ev_idempotency_key = None, ev_request_body = JNull,
       ev_request_headers = None, ev_status = ''queued'', ev_retry_at = None, ev_received_at = 0,
       ev_is_discarded = False, ev_discarded_at = None\<rparr>]\<rparr>"

definition ex_env :: "int \<Rightarrow> (ref_state, broker) denv" where
  "ex_env status = \<lparr>de_redis = ref_redis, de_cfg = default_settings, de_send = ref_send,
     de_resolve = (\<lambda>n. literal_resolver), de_http = (\<lambda>n q. HResponse status ''body''), de_took = (\<lambda>n. 1 / 2),
     de_jitter = (\<lambda>n. 1 / 2), de_uuid = of_nat, de_db_fault = (\<lambda>n. None)\<rparr>"

definition ex_world :: "(ref_state, broker) dworld" where
  "ex_world = \<lparr>dw_redis = Some Map.empty, dw_db = ex_db, dw_now = 1000, dw_kafka = Some empty_broker,
     dw_trace = [], dw_tick = 0\<rparr>"

lemma ex_checks:
  "cb_check (ex_env st) (rc_url ex_route) ex_world = (Inr False, tick ex_world)"
  "\<exists>s. rl_check (ex_env st) (''dest:'' @ rc_url ex_route) None (tick ex_world) =
     (Inr True, tick (tick (ex_world\<lparr>dw_redis := Some s\<rparr>)))"
  by (simp_all add: cb_check_def rl_check_def with_redis_def get_redis_def ex_world_def ex_env_def cb_is_open_def
      allow_request_def Let_def ref_redis_def ref_get_def ref_view_def tick_def default_settings_def
      ref_zset_def ref_zrem_def zset_drop_def split: prod.split)

lemma ex_ids [simp]: "attempts ex_db = []" "rc_id ex_route = 3" "rc_max_retries ex_route = 1"
  by (simp_all add: ex_db_def empty_db_def ex_route_def)

lemma ex_commit:
  assumes "at_event_id r = 4" "at_route_id r = 3" "fits_attempt r"
  shows "commit None (ex_db\<lparr>attempts := [r]\<rparr>) = Inr (ex_db\<lparr>attempts := [r]\<rparr>)"
  using assms
  by (simp add: commit_def fits_def integrity_def ex_db_def empty_db_def keyed_def refers_def fits_workspace_def
      fits_endpoint_def fits_route_def fits_event_def short_def opt_ok_def int4_def)

lemma ex_pass:
  "\<exists>s row. attempt_once (ex_env 503) 4 ex_route JNull 0 0 ex_world =
    (Return (Inr ()), \<lparr>dw_redis = Some s, dw_db = ex_db\<lparr>attempts := [row]\<rparr>, dw_now = 1000 + 1 / 2,
       dw_kafka = Some (empty_broker\<lparr>br_log := [dead_letter default_settings 4 ex_route JNull None (Some 503)]\<rparr>),
       dw_trace = [Exchanged (request_of ex_route JNull) (HResponse 503 ''body'')], dw_tick = 5\<rparr>) \<and>
    row_of 4 ex_route JNull 0 row \<and> at_error row = None \<and> at_response_status row = Some 503"
proof -
  obtain s where s: "rl_check (ex_env 503) (''dest:'' @ rc_url ex_route) None (tick ex_world) =
     (Inr True, tick (tick (ex_world\<lparr>dw_redis := Some s\<rparr>)))"
    using ex_checks(2) by blast
  have rpm: "rc_rate_limit_rpm ex_route = None" by (simp add: ex_route_def)
  let ?w = "tick (tick (ex_world\<lparr>dw_redis := Some s\<rparr>))"
  have url: "validate_delivery_url_for_request default_settings literal_resolver (rc_url ex_route) = Inr ()"
    by (simp add: ex_route_def example_quad_ok)
  show ?thesis
    unfolding attempt_once_def ex_checks(1) andthen_def rpm
    apply (simp add: dest_gate_def andthen_def s del: append.simps)
    apply (simp add: request_and_record_def do_request_def url ex_env_def ex_world_def tick_def)
    apply (simp add: http_outcome_def add_attempt_def Let_def ex_commit ex_ids fits_attempt_def int4_def opt_ok_def
        tick_def andthen_def)
    apply (simp add: after_request_def is_success_def is_client_error_def is_retryable_def text_truthy_def
        cb_report_def with_redis_def get_redis_def andthen_def send_dead_letter_def get_kafka_def ref_send_def
        empty_broker_def row_of_def ex_ids tick_def)
    by (intro exI conjI, rule refl, simp_all)
qed

lemma ex_deliver:
  "fst (deliver (ex_env 503) 4 ex_route JNull 0 0 ex_world) = Inr ()"
  "\<exists>row. attempts (dw_db (snd (deliver (ex_env 503) 4 ex_route JNull 0 0 ex_world))) = [row] \<and>
     at_attempt_number row = 0 \<and> at_error row = None \<and> at_response_status row = Some 503"
  using ex_pass by (auto simp: deliver.simps [of _ _ _ _ 0 0] row_of_def)

lemma ex_start [simp]: "dw_db ex_world = ex_db" "dw_trace ex_world = []" "dw_kafka ex_world = Some empty_broker"
  by (simp_all add: ex_world_def)

theorem delivery_audit_witness:
  "length (attempts (dw_db (snd (deliver (ex_env 503) 4 ex_route JNull 0 0 ex_world)))) = 1"
  using delivery_audit [of "ex_env 503" 4 ex_route JNull ex_world] ex_deliver(1) by (auto simp: le_Suc_eq)


theorem delivery_dead_letter_witness:
  "dw_kafka (snd (deliver (ex_env 503) 4 ex_route JNull 0 0 ex_world)) =
     Some (snd (ref_send (dead_letter default_settings 4 ex_route JNull None (Some 503)) empty_broker))"
proof -
  have env: "de_send (ex_env 503) = ref_send" "de_cfg (ex_env 503) = default_settings"
    by (simp_all add: ex_env_def)
  show ?thesis
    using delivery_dead_letter [OF ex_deliver(1)] ex_deliver(2)
    by (auto simp: is_retryable_def env)
qed


end
