(* ===== verification/Json_Text.thy ===== *)
theory Json_Text
  imports Json
begin

text \<open>
  \<open>json.dumps\<close> and \<open>json.loads\<close> of the standard library on text: what \<open>app/api/endpoints.py\<close> stores of a
  schema and \<open>app/schemas/api.py\<close> reads back, and what the Kafka clients put on the wire.  \<open>float(text)\<close>
  followed by \<open>repr\<close> is the parameter \<open>fl\<close>.  A \<open>u\<close>-escape beyond the first 256 code points has no text
  in the model; reading one gives \<open>beyond_text\<close>, which no text of \<open>json_dumps\<close> causes.
\<close>

section \<open>Writing\<close>

definition hex4 :: "nat \<Rightarrow> string" where
  "hex4 n = hex2 (n div 256) @ hex2 (n mod 256)"

definition quote :: char where "quote = CHR 0x22"

definition backslash :: char where "backslash = CHR 0x5C"

definition dumps_char :: "char \<Rightarrow> string" where
  "dumps_char c =
     (if c = quote \<or> c = backslash then [backslash, c]
      else if ch c = 10 then [backslash, CHR ''n'']
      else if ch c = 13 then [backslash, CHR ''r'']
      else if ch c = 9 then [backslash, CHR ''t'']
      else if ch c = 12 then [backslash, CHR ''f'']
      else if ch c = 8 then [backslash, CHR ''b'']
      else if ch c < 32 \<or> 126 < ch c then [backslash, CHR ''u''] @ hex4 (ch c)
      else [c])"

definition dumps_str :: "string \<Rightarrow> string" where
  "dumps_str s = [quote] @ concat (map dumps_char s) @ [quote]"

definition dumps_float :: "string \<Rightarrow> string" where
  "dumps_float r =
     (if r = ''nan'' then ''NaN'' else if r = ''inf'' then ''Infinity'' else if r = ''-inf'' then ''-Infinity'' else r)"

fun json_dumps :: "json \<Rightarrow> string" where
  "json_dumps JNull = ''null''"
| "json_dumps (JBool b) = (if b then ''true'' else ''false'')"
| "json_dumps (JInt i) = show_int i"
| "json_dumps (JFloat r) = dumps_float r"
| "json_dumps (JStr s) = dumps_str s"
| "json_dumps (JArr xs) = ''['' @ join '', '' (map json_dumps xs) @ '']''"
| "json_dumps (JObj d) = ''{'' @ join '', '' (map (\<lambda>(k, v). dumps_str k @ '': '' @ json_dumps v) d) @ ''}''"

section \<open>Reading\<close>

definition is_ws :: "char \<Rightarrow> bool" where
  "is_ws c = (ch c = 32 \<or> ch c = 9 \<or> ch c = 10 \<or> ch c = 13)"

definition skip_ws :: "string \<Rightarrow> string" where
  "skip_ws s = dropWhile is_ws s"

definition beyond_text :: exc where
  "beyond_text = OtherError ''Unmodelled'' ''code point beyond 255''"

definition simple_escape :: "char \<Rightarrow> char option" where
  "simple_escape c =
     (if c = quote \<or> c = backslash \<or> c = CHR ''/'' then Some c
      else if c = CHR ''b'' then Some (char_of (8 :: nat))
      else if c = CHR ''f'' then Some (char_of (12 :: nat))
      else if c = CHR ''n'' then Some (char_of (10 :: nat))
      else if c = CHR ''r'' then Some (char_of (13 :: nat))
      else if c = CHR ''t'' then Some (char_of (9 :: nat))
      else None)"

definition hex_value :: "string \<Rightarrow> nat option" where
  "hex_value ds =
     (if list_all (\<lambda>c. hex_digit c \<noteq> None) ds
      then Some (fold (\<lambda>c n. 16 * n + the (hex_digit c)) ds 0) else None)"

definition cons_text :: "char \<Rightarrow> (string \<times> string) res \<Rightarrow> (string \<times> string) res" where
  "cons_text c r = bind_res r (\<lambda>(t, rest). Inr (c # t, rest))"

text \<open>A text after its opening quote; control characters are refused.\<close>

fun scan_string :: "string \<Rightarrow> (string \<times> string) res" where
  "scan_string [] = Inl JSONDecodeError"
| "scan_string (c # s) =
     (if c = quote then Inr ([], s)
      else if c = backslash then
        (case s of
           [] \<Rightarrow> Inl JSONDecodeError
         | e # s1 \<Rightarrow>
             if e = CHR ''u'' then
               (case s1 of
                  a # b # x # y # s2 \<Rightarrow>
                    (case hex_value [a, b, x, y] of
                       None \<Rightarrow> Inl JSONDecodeError
                     | Some n \<Rightarrow> if n < 256 then cons_text (char_of n) (scan_string s2) else Inl beyond_text)
                | _ \<Rightarrow> Inl JSONDecodeError)
             else (case simple_escape e of
                     None \<Rightarrow> Inl JSONDecodeError
                   | Some d \<Rightarrow> cons_text d (scan_string s1)))
      else if ch c < 32 then Inl JSONDecodeError
      else cons_text c (scan_string s))"

text \<open>The parts of a number; more than 4300 digits are refused by \<open>int\<close>.\<close>

definition frac_part :: "string \<Rightarrow> string" where
  "frac_part s = (case s of p # r \<Rightarrow> if p = CHR ''.'' \<and> takeWhile is_digit r \<noteq> [] then p # takeWhile is_digit r else [] | [] \<Rightarrow> [])"

definition sign_part :: "string \<Rightarrow> string" where
  "sign_part s = (case s of g # r \<Rightarrow> if g = CHR ''+'' \<or> g = CHR ''-'' then [g] else [] | [] \<Rightarrow> [])"

definition exp_part :: "string \<Rightarrow> string" where
  "exp_part s =
     (case s of
        e # r \<Rightarrow>
          (let g = sign_part r; ds = takeWhile is_digit (drop (length g) r)
           in if (e = CHR ''e'' \<or> e = CHR ''E'') \<and> ds \<noteq> [] then e # g @ ds else [])
      | [] \<Rightarrow> [])"

definition max_int_digits :: nat where
  "max_int_digits = 4300"

definition scan_number :: "(string \<Rightarrow> string) \<Rightarrow> string \<Rightarrow> (json \<times> string) res" where
  "scan_number fl s =
     (let m = (if starts_with s ''-'' then ''-'' else []);
          s1 = drop (length m) s;
          ds = takeWhile is_digit s1;
          whole = (if starts_with ds ''0'' then ''0'' else ds);
          s2 = drop (length whole) s1;
          fr = frac_part s2;
          s3 = drop (length fr) s2;
          ex = exp_part s3
      in if ds = [] then Inl JSONDecodeError
         else if fr = [] \<and> ex = [] then
           (if max_int_digits < length whole
            then Inl (ValueError ''Exceeds the limit (4300 digits) for integer string conversion'')
            else Inr (JInt (if m = [] then int (int_of_digits whole) else - int (int_of_digits whole)), s2))
         else Inr (JFloat (fl (m @ whole @ fr @ ex)), drop (length ex) s3))"

definition scan_word :: "string \<Rightarrow> (string \<times> json) list \<Rightarrow> (json \<times> string) option" where
  "scan_word s ws = map_option (\<lambda>(w, v). (v, drop (length w) s)) (find (\<lambda>(w, v). starts_with s w) ws)"

definition json_words :: "(string \<times> json) list" where
  "json_words = [(''null'', JNull), (''true'', JBool True), (''false'', JBool False), (''NaN'', JFloat ''nan''),
     (''Infinity'', JFloat ''inf''), (''-Infinity'', JFloat ''-inf'')]"

text \<open>
  A value, the members of an object and the elements of an array.  The number bounds the calls; the
  double length of the text is always enough.
\<close>

fun scan_value :: "(string \<Rightarrow> string) \<Rightarrow> nat \<Rightarrow> string \<Rightarrow> (json \<times> string) res"
  and scan_members :: "(string \<Rightarrow> string) \<Rightarrow> nat \<Rightarrow> string \<Rightarrow> dict \<Rightarrow> (json \<times> string) res"
  and scan_elements :: "(string \<Rightarrow> string) \<Rightarrow> nat \<Rightarrow> string \<Rightarrow> json list \<Rightarrow> (json \<times> string) res" where
  "scan_value fl 0 s = Inl JSONDecodeError"
| "scan_value fl (Suc n) s =
     (case s of
        [] \<Rightarrow> Inl JSONDecodeError
      | c # r \<Rightarrow>
          if c = quote then bind_res (scan_string r) (\<lambda>(t, rest). Inr (JStr t, rest))
          else if c = CHR ''{'' then
            (if starts_with (skip_ws r) ''}'' then Inr (JObj [], tl (skip_ws r)) else scan_members fl n (skip_ws r) [])
          else if c = CHR ''['' then
            (if starts_with (skip_ws r) '']'' then Inr (JArr [], tl (skip_ws r)) else scan_elements fl n (skip_ws r) [])
          else (case scan_word s json_words of Some p \<Rightarrow> Inr p | None \<Rightarrow> scan_number fl s))"
| "scan_members fl 0 s d = Inl JSONDecodeError"
| "scan_members fl (Suc n) s d =
     (if starts_with s [quote]
      then bind_res (scan_string (tl s)) (\<lambda>(k, r).
        if starts_with (skip_ws r) '':''
        then bind_res (scan_value fl n (skip_ws (tl (skip_ws r)))) (\<lambda>(v, q).
          if starts_with (skip_ws q) ''}'' then Inr (JObj (dict_set k v d), tl (skip_ws q))
          else if starts_with (skip_ws q) '','' then scan_members fl n (skip_ws (tl (skip_ws q))) (dict_set k v d)
          else Inl JSONDecodeError)
        else Inl JSONDecodeError)
      else Inl JSONDecodeError)"
| "scan_elements fl 0 s xs = Inl JSONDecodeError"
| "scan_elements fl (Suc n) s xs =
     bind_res (scan_value fl n s) (\<lambda>(v, q).
       if starts_with (skip_ws q) '']'' then Inr (JArr (xs @ [v]), tl (skip_ws q))
       else if starts_with (skip_ws q) '','' then scan_elements fl n (skip_ws (tl (skip_ws q))) (xs @ [v])
       else Inl JSONDecodeError)"

definition json_loads :: "(string \<Rightarrow> string) \<Rightarrow> string \<Rightarrow> json res" where
  "json_loads fl s =
     bind_res (scan_value fl (Suc (2 * length s)) (skip_ws s)) (\<lambda>(v, rest).
       if skip_ws rest = [] then Inr v else Inl JSONDecodeError)"

section \<open>Texts\<close>

lemma hex2_value:
  assumes "n < 256"
  shows "list_all (\<lambda>c. hex_digit c \<noteq> None) (hex2 n) \<and> fold (\<lambda>c n. 16 * n + the (hex_digit c)) (hex2 n) k = 256 * k + n"
proof -
  have "hex_digit (if d < 10 then char_of (48 + d) else char_of (87 + d)) = Some d" if "d < 16" for d
    using that by (simp add: hex_digit_def is_digit_def digit_val_def)
  from this [of "n div 16"] this [of "n mod 16"] assms show ?thesis by (simp add: hex2_def Let_def)
qed

lemma hex4_value: "n < 256 \<Longrightarrow> hex_value (hex4 n) = Some n"
  using hex2_value [of 0 0] hex2_value [of n 0] by (simp add: hex_value_def hex4_def)

lemma hex4_shape: "\<exists>a b x y. hex4 n = [a, b, x, y]"
  by (simp add: hex4_def hex2_def Let_def)

lemma escapes_differ [simp]: "quote \<noteq> backslash" "backslash \<noteq> quote"
  by (simp_all add: quote_def backslash_def)

lemma scan_dumps_char: "scan_string (dumps_char c @ s) = cons_text c (scan_string s)"
proof -
  obtain a b x y where h: "hex4 (ch c) = [a, b, x, y]" using hex4_shape by blast
  have v: "hex_value [a, b, x, y] = Some (ch c)" using hex4_value [OF ch_bound, of c] by (simp add: h)
  have same: "char_of (ch c) = c" by (simp add: ch_def)
  have named: "ch c = n \<Longrightarrow> n < 256 \<Longrightarrow> c = char_of n" for n by (metis ch_char_of ch_inject)
  show ?thesis
    by (auto simp: dumps_char_def h v same simple_escape_def quote_def backslash_def dest: named)
qed

lemma scan_dumps_str: "scan_string (concat (map dumps_char s) @ quote # rest) = Inr (s, rest)"
  by (induction s) (simp_all add: scan_dumps_char cons_text_def)

section \<open>Numbers\<close>

text \<open>What may follow a value inside a larger one.\<close>

definition ends :: "string \<Rightarrow> bool" where
  "ends s \<longleftrightarrow> s = [] \<or> hd s = CHR '','' \<or> hd s = CHR '']'' \<or> hd s = CHR ''}''"

lemma ends_head: "ends (c # s) \<Longrightarrow> c = CHR '','' \<or> c = CHR '']'' \<or> c = CHR ''}''"
  by (simp add: ends_def)

lemma digits_before_end: "ends rest \<Longrightarrow> takeWhile is_digit (s @ rest) = takeWhile is_digit s"
  by (induction s) (cases rest, auto simp: is_digit_def dest!: ends_head)

lemma minus_before_end: "ends rest \<Longrightarrow> starts_with (s @ rest) ''-'' = starts_with s ''-''"
  by (cases s; cases rest) (auto simp: starts_with_def dest!: ends_head)

lemma frac_before_end: "ends rest \<Longrightarrow> frac_part (s @ rest) = frac_part s"
  by (cases s; cases rest) (auto simp: frac_part_def digits_before_end dest!: ends_head)

lemma sign_before_end: "ends rest \<Longrightarrow> sign_part (s @ rest) = sign_part s"
  by (cases s; cases rest) (auto simp: sign_part_def dest!: ends_head)

lemma sign_length: "length (sign_part s) \<le> length s"
  by (simp add: sign_part_def split: list.split)

lemma exp_before_end:
  assumes "ends rest" shows "exp_part (s @ rest) = exp_part s"
proof (cases s)
  case Nil
  with assms show ?thesis by (cases rest) (auto simp: exp_part_def Let_def dest!: ends_head)
next
  case (Cons e r)
  have "takeWhile is_digit (drop (length (sign_part r)) (r @ rest)) = takeWhile is_digit (drop (length (sign_part r)) r)"
    using digits_before_end [OF assms, of "drop (length (sign_part r)) r"] sign_length [of r] by simp
  with Cons show ?thesis by (simp add: exp_part_def sign_before_end [OF assms] Let_def)
qed

lemma part_lengths: "length (frac_part s) \<le> length s" "length (exp_part s) \<le> length s"
proof -
  have dig: "length (takeWhile is_digit r) \<le> length r" for r by (rule length_takeWhile_le)
  show "length (frac_part s) \<le> length s"
    using dig by (simp add: frac_part_def split: list.split)
  show "length (exp_part s) \<le> length s"
  proof (cases s)
    case (Cons e r)
    then show ?thesis
      using dig [of "drop (length (sign_part r)) r"] sign_length [of r] by (auto simp: exp_part_def Let_def)
  qed (simp add: exp_part_def)
qed

lemma drop_front: "length p \<le> length s \<Longrightarrow> drop (length p) (s @ rest) = drop (length p) s @ rest"
  by simp

lemma number_shift:
  "(if P then Inl e else if Q then (if R then Inl e' else Inr (a, s @ rest)) else Inr (b, t @ rest)) =
   bind_res (if P then Inl e else if Q then (if R then Inl e' else Inr (a, s)) else Inr (b, t)) (\<lambda>(v, r). Inr (v, r @ rest))"
  by simp

lemma scan_number_before_end:
  assumes e: "ends rest"
  shows "scan_number fl (s @ rest) = bind_res (scan_number fl s) (\<lambda>(v, r). Inr (v, r @ rest))"
proof -
  let ?m = "if starts_with s ''-'' then ''-'' else []"
  let ?s1 = "drop (length ?m) s"
  let ?ds = "takeWhile is_digit ?s1"
  let ?w = "if starts_with ?ds ''0'' then ''0'' else ?ds"
  let ?s2 = "drop (length ?w) ?s1"
  let ?s3 = "drop (length (frac_part ?s2)) ?s2"
  have m: "length ?m \<le> length s" by (cases s) (auto simp: starts_with_def)
  have ds: "length ?ds \<le> length ?s1" by (rule length_takeWhile_le)
  have w: "length ?w \<le> length ?s1"
    using ds by (cases ?ds) (auto simp: starts_with_def)
  have d1: "drop (length ?m) (s @ rest) = ?s1 @ rest" using m by simp
  have d2: "drop (length ?w) (?s1 @ rest) = ?s2 @ rest" using w by simp
  have d3: "drop (length (frac_part ?s2)) (?s2 @ rest) = ?s3 @ rest" using part_lengths(1) [of ?s2] by simp
  have d4: "drop (length (exp_part ?s3)) (?s3 @ rest) = drop (length (exp_part ?s3)) ?s3 @ rest"
    using part_lengths(2) [of ?s3] by simp
  show ?thesis
    unfolding scan_number_def Let_def minus_before_end [OF e] d1 digits_before_end [OF e] d2 frac_before_end [OF e] d3
      exp_before_end [OF e] d4 by (rule number_shift)
qed

lemma show_nat_zero: "starts_with (show_nat n) ''0'' \<Longrightarrow> show_nat n = ''0''"
proof (cases "n = 0")
  case True
  moreover have "digit_char 0 = CHR ''0''" by code_simp
  ultimately show ?thesis by (simp add: show_nat.simps)
next
  case False
  then have "hd (show_nat n) \<noteq> CHR ''0''" using show_nat_head by simp
  then show "starts_with (show_nat n) ''0'' \<Longrightarrow> ?thesis"
    using show_nat_nonempty [of n] by (cases "show_nat n") (auto simp: starts_with_def)
qed

lemma all_digits: "takeWhile is_digit (show_nat n) = show_nat n"
  using show_nat_digits [of n] by (simp add: takeWhile_eq_all_conv list_all_iff)

lemma minus_no_digit: "\<not> starts_with (show_nat n) ''-''"
  using show_nat_no [of "CHR ''-''" n] by (cases "show_nat n") (auto simp: starts_with_def is_digit_def)

lemma scan_show_int:
  assumes "length (show_nat (nat \<bar>i\<bar>)) \<le> max_int_digits"
  shows "scan_number fl (show_int i) = Inr (JInt i, [])"
proof -
  have whole: "(if starts_with (show_nat n) ''0'' then ''0'' else show_nat n) = show_nat n" for n
    using show_nat_zero [of n] by (cases "starts_with (show_nat n) ''0''") simp_all
  have empty: "frac_part [] = []" "exp_part [] = []" by (simp_all add: frac_part_def exp_part_def)
  show ?thesis
  proof (cases "i < 0")
    case True
    let ?n = "nat (- i)"
    have shown: "show_int i = ''-'' @ show_nat ?n" using True by (simp add: show_int_def)
    have m: "(if starts_with (''-'' @ show_nat ?n) ''-'' then ''-'' else []) = ''-''" by (simp add: starts_with_def)
    have d: "drop (length ''-'') (''-'' @ show_nat ?n) = show_nat ?n" by simp
    show ?thesis
      unfolding scan_number_def shown m d all_digits whole Let_def
      using assms True by (simp add: empty show_nat_nonempty int_of_show_nat)
  next
    case False
    let ?n = "nat i"
    have shown: "show_int i = show_nat ?n" using False by (simp add: show_int_def)
    have m: "(if starts_with (show_nat ?n) ''-'' then ''-'' else []) = []" by (simp add: minus_no_digit)
    have d: "drop (length []) (show_nat ?n) = show_nat ?n" by simp
    show ?thesis
      unfolding scan_number_def shown m d all_digits whole Let_def
      using assms False by (simp add: empty show_nat_nonempty int_of_show_nat)
  qed
qed

section \<open>Reading back what was written\<close>

text \<open>Values whose writing is exact: floats in the form of \<open>repr\<close>, numbers that \<open>int\<close> reads, distinct keys.\<close>

definition float_repr :: "(string \<Rightarrow> string) \<Rightarrow> string \<Rightarrow> bool" where
  "float_repr fl r \<longleftrightarrow> r = ''nan'' \<or> r = ''inf'' \<or> r = ''-inf'' \<or> scan_number fl r = Inr (JFloat r, [])"

fun writable :: "(string \<Rightarrow> string) \<Rightarrow> json \<Rightarrow> bool" where
  "writable fl (JInt i) = (length (show_nat (nat \<bar>i\<bar>)) \<le> max_int_digits)"
| "writable fl (JFloat r) = float_repr fl r"
| "writable fl (JArr xs) = list_all (writable fl) xs"
| "writable fl (JObj d) = (distinct (map fst d) \<and> list_all (\<lambda>(k, v). writable fl v) d)"
| "writable fl v = True"

lemma starts_with_Cons [simp]:
  "starts_with (c # s) (p # ps) = (c = p \<and> starts_with s ps)" "starts_with s []" "\<not> starts_with [] (p # ps)"
  by (simp_all add: starts_with_def)

text \<open>A written value begins with a character that is no blank and closes nothing.\<close>

definition opens :: "char \<Rightarrow> bool" where
  "opens c \<longleftrightarrow> \<not> is_ws c \<and> c \<noteq> CHR '']'' \<and> c \<noteq> CHR ''}''"

lemma no_digits_no_number:
  "takeWhile is_digit (drop (length (if starts_with s ''-'' then ''-'' else [])) s) = [] \<Longrightarrow> scan_number fl s = Inl JSONDecodeError"
  unfolding scan_number_def Let_def by (rule if_P)

lemma number_head:
  assumes "scan_number fl s = Inr x"
  shows "\<exists>c t. s = c # t \<and> (is_digit c \<or> c = CHR ''-'' \<and> t \<noteq> [] \<and> is_digit (hd t))"
proof -
  have digits: "takeWhile is_digit (drop (length (if starts_with s ''-'' then ''-'' else [])) s) \<noteq> []"
    using no_digits_no_number [of s fl] assms by auto
  show ?thesis
  proof (cases s)
    case (Cons c t)
    then show ?thesis
      using digits by (cases "c = CHR ''-''"; cases t) (auto split: if_splits)
  qed (use digits in simp)
qed

lemma no_word:
  assumes "is_digit c \<or> c = CHR ''-'' \<and> t \<noteq> [] \<and> is_digit (hd t)"
  shows "scan_word (c # t @ rest) json_words = None \<and> c \<noteq> quote \<and> c \<noteq> CHR ''{'' \<and> c \<noteq> CHR ''['' \<and> opens c"
proof -
  have no: "\<not> is_digit x" if "x \<in> set ''ntfNI-[]{}'' \<union> {quote, CHR '' ''}" for x
    using that by (auto simp: is_digit_def quote_def)
  have ws: "is_ws x \<Longrightarrow> \<not> is_digit x" "\<not> is_ws CHR ''-''" for x
    by (auto simp: is_ws_def is_digit_def)
  show ?thesis
  proof (cases "is_digit c")
    case True
    then have "c \<notin> set ''ntfNI-[]{}'' \<union> {quote, CHR '' ''}" "\<not> is_ws c" using no ws by blast+
    then show ?thesis by (simp add: scan_word_def json_words_def opens_def)
  next
    case False
    with assms obtain d u where t: "c = CHR ''-''" "t = d # u" "is_digit d" by (cases t) auto
    then have "d \<noteq> CHR ''I''" using no [of d] by auto
    with t ws(2) show ?thesis by (simp add: scan_word_def json_words_def opens_def quote_def)
  qed
qed

lemma number_value:
  assumes "scan_number fl s = Inr (v, [])" and "ends rest" and "0 < n"
  shows "scan_value fl n (s @ rest) = Inr (v, rest)"
proof -
  obtain c t where s: "s = c # t" and c: "is_digit c \<or> c = CHR ''-'' \<and> t \<noteq> [] \<and> is_digit (hd t)"
    using number_head [OF assms(1)] by blast
  obtain k where n: "n = Suc k" using assms(3) by (cases n) auto
  have "scan_number fl (c # t @ rest) = Inr (v, rest)"
    using scan_number_before_end [OF assms(2), of fl s] assms(1) by (simp add: s)
  then show ?thesis using no_word [OF c, of rest] by (simp add: n s)
qed

lemma number_opens: "scan_number fl s = Inr x \<Longrightarrow> \<exists>c t. s = c # t \<and> opens c"
  using number_head [of fl s x] no_word by blast

lemma dumps_opens: "writable fl v \<Longrightarrow> \<exists>c t. json_dumps v = c # t \<and> opens c"
proof (cases v)
  case (JInt i)
  moreover assume "writable fl v"
  ultimately show ?thesis using number_opens [OF scan_show_int [of i fl]] by simp
next
  case (JFloat r)
  assume ok: "writable fl v"
  show ?thesis
  proof (cases "r = ''nan'' \<or> r = ''inf'' \<or> r = ''-inf''")
    case True
    then show ?thesis using JFloat by (auto simp: dumps_float_def opens_def is_ws_def)
  next
    case False
    then show ?thesis using ok JFloat number_opens [of fl r] by (simp add: float_repr_def dumps_float_def)
  qed
qed (auto simp: opens_def is_ws_def dumps_str_def quote_def)

lemma skip_opens: "opens c \<Longrightarrow> skip_ws (c # s) = c # s"
  by (simp add: skip_ws_def opens_def)

definition reads_back :: "(string \<Rightarrow> string) \<Rightarrow> json \<Rightarrow> bool" where
  "reads_back fl v \<longleftrightarrow>
     (\<forall>n rest. length (json_dumps v) \<le> n \<longrightarrow> ends rest \<longrightarrow> scan_value fl n (json_dumps v @ rest) = Inr (v, rest))"

lemma reads_back: "reads_back fl v \<Longrightarrow> length (json_dumps v) \<le> n \<Longrightarrow> ends rest \<Longrightarrow> scan_value fl n (json_dumps v @ rest) = Inr (v, rest)"
  by (simp add: reads_back_def)

lemma closing [simp]:
  "ends (CHR '','' # s)" "ends (CHR '']'' # s)" "ends (CHR ''}'' # s)"
  "skip_ws (CHR '','' # s) = CHR '','' # s" "skip_ws (CHR '']'' # s) = CHR '']'' # s"
  "skip_ws (CHR ''}'' # s) = CHR ''}'' # s" "skip_ws (CHR '':'' # s) = CHR '':'' # s" "skip_ws (CHR '' '' # s) = skip_ws s"
  by (simp_all add: ends_def skip_ws_def is_ws_def)

lemma skip_dumps: "writable fl v \<Longrightarrow> skip_ws (json_dumps v @ s) = json_dumps v @ s"
  using dumps_opens [of fl v] skip_opens by auto

lemma elements_back:
  assumes "\<And>x. x \<in> set xs \<Longrightarrow> reads_back fl x \<and> writable fl x" and "xs \<noteq> []"
    and "length (join '', '' (map json_dumps xs)) < n"
  shows "scan_elements fl n (join '', '' (map json_dumps xs) @ CHR '']'' # rest) acc = Inr (JArr (acc @ xs), rest)"
  using assms
proof (induction xs arbitrary: n acc)
  case (Cons x xs)
  obtain k where n: "n = Suc k" using Cons.prems(3) by (cases n) auto
  have x: "reads_back fl x" "writable fl x" using Cons.prems(1) by auto
  show ?case
  proof (cases xs)
    case Nil
    with Cons.prems(3) reads_back [OF x(1), of k "CHR '']'' # rest"] show ?thesis by (simp add: n)
  next
    case (Cons y ys)
    let ?more = "join '', '' (map json_dumps xs)"
    have join: "join '', '' (map json_dumps (x # xs)) = json_dumps x @ '', '' @ ?more" by (simp add: Cons)
    have "length (json_dumps x) \<le> k" "length ?more < k"
      using Cons.prems(3) unfolding join n by simp_all
    moreover from this(1) have "scan_value fl k (json_dumps x @ '', '' @ ?more @ CHR '']'' # rest) = Inr (x, '', '' @ ?more @ CHR '']'' # rest)"
      using reads_back [OF x(1)] by simp
    moreover have "\<exists>s. ?more @ CHR '']'' # rest = json_dumps y @ s"
      by (cases ys) (auto simp: Cons)
    then have "skip_ws (?more @ CHR '']'' # rest) = ?more @ CHR '']'' # rest"
      using skip_dumps [of fl y] Cons.prems(1) Cons by auto
    moreover have "scan_elements fl k (?more @ CHR '']'' # rest) (acc @ [x]) = Inr (JArr (acc @ [x] @ xs), rest)"
      using Cons.IH [of k "acc @ [x]"] Cons.prems(1) \<open>length ?more < k\<close> Cons by simp
    ultimately show ?thesis unfolding join n by simp
  qed
qed simp

lemma key_back: "scan_string (tl (dumps_str k @ s)) = Inr (k, s)" "starts_with (dumps_str k @ s) [quote]"
  by (simp_all add: dumps_str_def scan_dumps_str)

abbreviation member_text :: "string \<times> json \<Rightarrow> string" where
  "member_text \<equiv> \<lambda>(k, v). dumps_str k @ '': '' @ json_dumps v"

lemma members_back:
  assumes "\<And>k v. (k, v) \<in> set d \<Longrightarrow> reads_back fl v \<and> writable fl v" and "d \<noteq> []"
    and "distinct (map fst (acc @ d))" and "length (join '', '' (map member_text d)) < n"
  shows "scan_members fl n (join '', '' (map member_text d) @ CHR ''}'' # rest) acc = Inr (JObj (acc @ d), rest)"
  using assms
proof (induction d arbitrary: n acc)
  case (Cons p d)
  obtain key v where p: "p = (key, v)" by (cases p)
  obtain k where n: "n = Suc k" using Cons.prems(4) by (cases n) auto
  have v: "reads_back fl v" "writable fl v" using Cons.prems(1) p by auto
  have new: "dict_set key v acc = acc @ [p]"
    using Cons.prems(3) p by (intro dict_set_new [where d = acc, THEN trans]) auto
  have len: "length (dumps_str key) \<ge> 2" by (simp add: dumps_str_def)
  show ?case
  proof (cases d)
    case Nil
    with Cons.prems(4) reads_back [OF v(1), of k "CHR ''}'' # rest"] show ?thesis
      using skip_dumps [OF v(2)] new by (simp add: n p key_back)
  next
    case (Cons q e)
    let ?more = "join '', '' (map member_text d)"
    have join: "join '', '' (map member_text (p # d)) = dumps_str key @ '': '' @ json_dumps v @ '', '' @ ?more" by (simp add: Cons p)
    have lens: "length (json_dumps v) \<le> k" "length ?more < k"
      using Cons.prems(4) unfolding join n by simp_all
    have "scan_value fl k (json_dumps v @ '', '' @ ?more @ CHR ''}'' # rest) = Inr (v, '', '' @ ?more @ CHR ''}'' # rest)"
      using reads_back [OF v(1) lens(1)] by simp
    moreover have "skip_ws (?more @ CHR ''}'' # rest) = ?more @ CHR ''}'' # rest"
      by (cases e; cases q) (auto simp: Cons dumps_str_def skip_ws_def is_ws_def quote_def)
    moreover have "scan_members fl k (?more @ CHR ''}'' # rest) (acc @ [p]) = Inr (JObj ((acc @ [p]) @ d), rest)"
    proof (rule Cons.IH)
      show "reads_back fl w \<and> writable fl w" if "(j, w) \<in> set d" for j w
        using Cons.prems(1) that by (meson list.set_intros(2))
      show "distinct (map fst ((acc @ [p]) @ d))" using Cons.prems(3) by simp
    qed (use Cons lens in simp_all)
    ultimately show ?thesis unfolding join n using skip_dumps [OF v(2)] new by (simp add: key_back)
  qed
qed simp

lemma word_back:
  assumes "(json_dumps v, v) \<in> set json_words"
  shows "reads_back fl v"
proof -
  have "scan_value fl (Suc k) (json_dumps v @ rest) = Inr (v, rest)" for k rest
    using assms by (auto simp: json_words_def scan_word_def quote_def)
  moreover have "json_dumps v \<noteq> []" using assms by (auto simp: json_words_def)
  ultimately show ?thesis
    unfolding reads_back_def by (metis le_zero_eq length_0_conv not0_implies_Suc)
qed

lemma writable_reads_back: "writable fl v \<Longrightarrow> reads_back fl v"
proof (induction v)
  case (JInt i)
  then show ?case
    using number_value [OF scan_show_int [of i fl]] number_head [OF scan_show_int [of i fl]]
    by (auto simp: reads_back_def)
next
  case (JFloat r)
  then show ?case
  proof (cases "r = ''nan'' \<or> r = ''inf'' \<or> r = ''-inf''")
    case True
    then show ?thesis by (intro word_back) (auto simp: dumps_float_def json_words_def)
  next
    case False
    with JFloat have num: "scan_number fl r = Inr (JFloat r, [])" and dump: "json_dumps (JFloat r) = r"
      by (simp_all add: float_repr_def dumps_float_def)
    from number_head [OF num] number_value [OF num] show ?thesis
      unfolding reads_back_def dump by fastforce
  qed
next
  case (JStr s)
  have "scan_value fl (Suc k) (json_dumps (JStr s) @ rest) = Inr (JStr s, rest)" for k rest
    by (simp add: dumps_str_def scan_dumps_str)
  moreover have "json_dumps (JStr s) \<noteq> []" by (simp add: dumps_str_def)
  ultimately show ?case
    unfolding reads_back_def by (metis le_zero_eq length_0_conv not0_implies_Suc)
next
  case (JArr xs)
  show ?case
    unfolding reads_back_def
  proof (intro allI impI)
    fix n rest
    assume len: "length (json_dumps (JArr xs)) \<le> n" and "ends rest"
    obtain k where n: "n = Suc k" using len by (cases n) auto
    show "scan_value fl n (json_dumps (JArr xs) @ rest) = Inr (JArr xs, rest)"
    proof (cases xs)
      case Nil
      then show ?thesis by (simp add: n quote_def)
    next
      case (Cons x ys)
      let ?body = "join '', '' (map json_dumps xs) @ CHR '']'' # rest"
      have all: "reads_back fl y \<and> writable fl y" if "y \<in> set xs" for y
        using JArr that by (auto simp: list_all_iff)
      have "length (join '', '' (map json_dumps xs)) < k" using len n by simp
      with elements_back [OF all, of xs k rest "[]"] Cons have "scan_elements fl k ?body [] = Inr (JArr xs, rest)" by simp
      moreover obtain c t where "json_dumps x = c # t" "opens c" using dumps_opens all Cons by fastforce
      then have "skip_ws ?body = ?body" "\<not> starts_with ?body '']''"
        using Cons skip_opens by (cases ys; auto simp: opens_def)+
      ultimately show ?thesis by (simp add: n quote_def)
    qed
  qed
next
  case (JObj d)
  show ?case
    unfolding reads_back_def
  proof (intro allI impI)
    fix n rest
    assume len: "length (json_dumps (JObj d)) \<le> n" and "ends rest"
    obtain k where n: "n = Suc k" using len by (cases n) auto
    show "scan_value fl n (json_dumps (JObj d) @ rest) = Inr (JObj d, rest)"
    proof (cases d)
      case Nil
      then show ?thesis by (simp add: n quote_def)
    next
      case (Cons p e)
      let ?body = "join '', '' (map member_text d) @ CHR ''}'' # rest"
      have all: "reads_back fl v \<and> writable fl v" if "(key, v) \<in> set d" for key v
        using JObj that by (fastforce simp: list_all_iff)
      have "length (join '', '' (map member_text d)) < k" using len n by simp
      with members_back [where d = d and acc = "[]" and n = k and rest = rest and fl = fl, OF all] Cons JObj.prems have "scan_members fl k ?body [] = Inr (JObj d, rest)" by simp
      moreover have "skip_ws ?body = ?body" "\<not> starts_with ?body ''}''"
        using Cons by (cases e; cases p; auto simp: dumps_str_def skip_ws_def is_ws_def quote_def)+
      ultimately show ?thesis by (simp add: n quote_def)
    qed
  qed
next
  case JNull
  then show ?case by (intro word_back) (simp add: json_words_def)
next
  case (JBool b)
  then show ?case by (intro word_back) (simp add: json_words_def)
qed

lemma loads_dumps: "writable fl v \<Longrightarrow> json_loads fl (json_dumps v) = Inr v"
proof -
  assume ok: "writable fl v"
  have "skip_ws (json_dumps v) = json_dumps v" using skip_dumps [OF ok, of "[]"] by simp
  moreover have "scan_value fl (Suc (2 * length (json_dumps v))) (json_dumps v @ []) = Inr (v, [])"
    by (rule reads_back [OF writable_reads_back [OF ok]]) (simp_all add: ends_def)
  moreover have "skip_ws [] = []" by (simp add: skip_ws_def)
  ultimately show ?thesis by (simp add: json_loads_def del: scan_value.simps)
qed

section \<open>The bound on the calls is no restriction\<close>

lemma skip_ws_length: "length (skip_ws s) \<le> length s"
  by (simp add: skip_ws_def length_dropWhile_le)

lemma tl_skip: "starts_with (skip_ws s) [c] \<Longrightarrow> length (tl (skip_ws s)) < length s"
  using skip_ws_length [of s] by (cases "skip_ws s") auto

lemma after_skip: "starts_with (skip_ws q) [c] \<Longrightarrow> length (skip_ws (tl (skip_ws q))) < length q"
  using tl_skip [of q c] skip_ws_length [of "tl (skip_ws q)"] by linarith

lemma rest_shorter:
  "starts_with (skip_ws q) [c] \<and> r = tl (skip_ws q) \<or>
   starts_with (skip_ws q) [c'] \<and> length r < length (skip_ws (tl (skip_ws q))) \<Longrightarrow> length r < length q"
  using tl_skip [of q c] after_skip [of q c'] by (elim disjE conjE) (simp_all only: order.strict_trans)

lemma scan_string_shorter: "scan_string s = Inr (t, r) \<Longrightarrow> length r < length s"
  by (induction s arbitrary: t r rule: scan_string.induct)
    (fastforce simp: cons_text_def bind_res_eq_Inr split: if_splits list.splits option.splits)+

lemma find_member: "find P xs = Some x \<Longrightarrow> P x \<and> x \<in> set xs"
  by (induction xs) (auto split: if_splits)

lemma scan_word_shorter: "scan_word s json_words = Some (v, r) \<Longrightarrow> length r < length s"
proof -
  assume "scan_word s json_words = Some (v, r)"
  then obtain w u where "find (\<lambda>(w, v). starts_with s w) json_words = Some (w, u)" and r: "r = drop (length w) s"
    by (auto simp: scan_word_def)
  from find_member [OF this(1)] have "starts_with s w" "(w, u) \<in> set json_words" by auto
  moreover from this have "0 < length w" "length w \<le> length s"
    by (auto simp: json_words_def starts_with_def dest: arg_cong [where f = length])
  ultimately show ?thesis unfolding r length_drop by linarith
qed

lemma number_shape:
  "(if P then Inl e else if Q then (if R then Inl e' else Inr (a, x)) else Inr (b, drop n (drop m x))) = Inr (v, r) \<Longrightarrow>
   length r \<le> length x"
  by (auto split: if_splits)

lemma scan_number_shorter: "scan_number fl s = Inr (v, r) \<Longrightarrow> length r < length s"
proof -
  assume num: "scan_number fl s = Inr (v, r)"
  let ?m = "if starts_with s ''-'' then ''-'' else []"
  let ?s1 = "drop (length ?m) s"
  let ?ds = "takeWhile is_digit ?s1"
  let ?w = "if starts_with ?ds ''0'' then ''0'' else ?ds"
  have ds: "?ds \<noteq> []" using no_digits_no_number [of s fl] num by auto
  have "length r \<le> length (drop (length ?w) ?s1)"
    using num unfolding scan_number_def Let_def by (rule number_shape)
  moreover have "0 < length ?w" using ds by simp
  moreover have "0 < length ?s1" using ds by (cases ?s1) auto
  moreover have "length ?s1 \<le> length s" by simp
  ultimately show ?thesis unfolding length_drop [of "length ?w"] by linarith
qed

lemma scan_shorter:
  "(scan_value fl n s = Inr (v, r) \<longrightarrow> length r < length s) \<and> (scan_members fl n s d = Inr (v, r) \<longrightarrow> length r < length s) \<and>
   (scan_elements fl n s xs = Inr (v, r) \<longrightarrow> length r < length s)"
proof (induction n arbitrary: s v r d xs)
  case (Suc n)
  note val_ih = Suc.IH [THEN conjunct1, rule_format]
    and mem_ih = Suc.IH [THEN conjunct2, THEN conjunct1, rule_format]
    and elem_ih = Suc.IH [THEN conjunct2, THEN conjunct2, rule_format]
  have "length r < length s" if run: "scan_value fl (Suc n) s = Inr (v, r)"
  proof (cases s)
    case (Cons c t)
    have skip: "length (skip_ws t) \<le> length t" by (rule skip_ws_length)
    consider (str) "c = quote" | (object) "c = CHR ''{''" "c \<noteq> quote" | (array) "c = CHR ''[''" "c \<noteq> quote" |
      (other) "c \<noteq> quote" "c \<noteq> CHR ''{''" "c \<noteq> CHR ''[''" by blast
    then show ?thesis
    proof cases
      case str
      with run Cons show ?thesis by (auto simp: bind_res_eq_Inr dest!: scan_string_shorter)
    next
      case object
      show ?thesis
      proof (cases "starts_with (skip_ws t) ''}''")
        case True
        with run Cons object have "r = tl (skip_ws t)" by simp
        with tl_skip [OF True] have "length r < length t" by (simp only:)
        then show ?thesis by (simp add: Cons)
      next
        case False
        with run Cons object have "scan_members fl n (skip_ws t) [] = Inr (v, r)" by simp
        from mem_ih [OF this] skip Cons show ?thesis by simp
      qed
    next
      case array
      show ?thesis
      proof (cases "starts_with (skip_ws t) '']''")
        case True
        with run Cons array have "r = tl (skip_ws t)" by simp
        with tl_skip [OF True] have "length r < length t" by (simp only:)
        then show ?thesis by (simp add: Cons)
      next
        case False
        with run Cons array have "scan_elements fl n (skip_ws t) [] = Inr (v, r)" by simp
        from elem_ih [OF this] skip Cons show ?thesis by simp
      qed
    next
      case other
      with run Cons show ?thesis
        using scan_word_shorter [of s v r] scan_number_shorter [of fl s v r] by (auto split: option.splits)
    qed
  qed (use run in simp)
  moreover have "length r < length s" if run: "scan_members fl (Suc n) s d = Inr (v, r)"
  proof -
    obtain k q1 w q2 where parts: "scan_string (tl s) = Inr (k, q1)" "starts_with (skip_ws q1) '':''"
        "scan_value fl n (skip_ws (tl (skip_ws q1))) = Inr (w, q2)"
      and after: "starts_with (skip_ws q2) ''}'' \<and> r = tl (skip_ws q2) \<or>
        starts_with (skip_ws q2) '','' \<and> scan_members fl n (skip_ws (tl (skip_ws q2))) (dict_set k w d) = Inr (v, r)"
      using run by (auto simp: bind_res_eq_Inr split: if_splits)
    have "length q1 < length s" using scan_string_shorter [OF parts(1)] by simp
    moreover have "length q2 < length q1"
      using val_ih [OF parts(3)] tl_skip [OF parts(2)] skip_ws_length [of "tl (skip_ws q1)"] by linarith
    moreover have "length r < length q2"
      using after mem_ih by (intro rest_shorter [of q2 "CHR ''}''" r "CHR '',''"]) blast
    ultimately show ?thesis by linarith
  qed
  moreover have "length r < length s" if run: "scan_elements fl (Suc n) s xs = Inr (v, r)"
  proof -
    obtain w q2 where part: "scan_value fl n s = Inr (w, q2)"
      and after: "starts_with (skip_ws q2) '']'' \<and> r = tl (skip_ws q2) \<or>
        starts_with (skip_ws q2) '','' \<and> scan_elements fl n (skip_ws (tl (skip_ws q2))) (xs @ [w]) = Inr (v, r)"
      using run by (auto simp: bind_res_eq_Inr split: if_splits)
    have "length r < length q2"
      using after elem_ih by (intro rest_shorter [of q2 "CHR '']''" r "CHR '',''"]) blast
    with val_ih [OF part] show ?thesis by linarith
  qed
  ultimately show ?case by blast
qed simp

lemma bound_irrelevant:
  "(2 * length s < n \<longrightarrow> 2 * length s < m \<longrightarrow> scan_value fl n s = scan_value fl m s) \<and>
   (Suc (2 * length s) < n \<longrightarrow> Suc (2 * length s) < m \<longrightarrow> scan_members fl n s d = scan_members fl m s d) \<and>
   (Suc (2 * length s) < n \<longrightarrow> Suc (2 * length s) < m \<longrightarrow> scan_elements fl n s xs = scan_elements fl m s xs)"
proof (induction n arbitrary: m s d xs)
  case (Suc n)
  note val_ih = Suc.IH [THEN conjunct1, rule_format]
    and mem_ih = Suc.IH [THEN conjunct2, THEN conjunct1, rule_format]
    and elem_ih = Suc.IH [THEN conjunct2, THEN conjunct2, rule_format]
  note val_short = scan_shorter [THEN conjunct1, rule_format]
  show ?case
  proof (cases m)
    case (Suc k)
    have "scan_value fl (Suc n) s = scan_value fl (Suc k) s" if len: "2 * length s < Suc n" "2 * length s < Suc k"
    proof (cases s)
      case (Cons c t)
      have short: "Suc (2 * length (skip_ws t)) < n" "Suc (2 * length (skip_ws t)) < k"
        using skip_ws_length [of t] len Cons by simp_all
      show ?thesis
        unfolding Cons by (simp add: mem_ih [OF short] elem_ih [OF short])
    qed simp
    moreover have "scan_members fl (Suc n) s d = scan_members fl (Suc k) s d"
      if len: "Suc (2 * length s) < Suc n" "Suc (2 * length s) < Suc k"
    proof -
      have one: "scan_value fl n (skip_ws (tl (skip_ws q))) = scan_value fl k (skip_ws (tl (skip_ws q)))"
        if "scan_string (tl s) = Inr (key, q)" "starts_with (skip_ws q) '':''" for key q
        using scan_string_shorter [OF that(1)] after_skip [OF that(2)] len by (intro val_ih) simp_all
      have more: "scan_members fl n (skip_ws (tl (skip_ws q2))) e = scan_members fl k (skip_ws (tl (skip_ws q2))) e"
        if "scan_string (tl s) = Inr (key, q)" "starts_with (skip_ws q) '':''"
          "scan_value fl k (skip_ws (tl (skip_ws q))) = Inr (w, q2)" "starts_with (skip_ws q2) '',''" for key q w q2 e
        using scan_string_shorter [OF that(1)] after_skip [OF that(2)] after_skip [OF that(4)] val_short [OF that(3)] len
        by (intro mem_ih) simp_all
      show ?thesis
        by (auto simp: bind_res_def one more split: sum.split prod.split)
    qed
    moreover have "scan_elements fl (Suc n) s xs = scan_elements fl (Suc k) s xs"
      if len: "Suc (2 * length s) < Suc n" "Suc (2 * length s) < Suc k"
    proof -
      have one: "scan_value fl n s = scan_value fl k s" using len by (intro val_ih) simp_all
      have more: "scan_elements fl n (skip_ws (tl (skip_ws q))) ys = scan_elements fl k (skip_ws (tl (skip_ws q))) ys"
        if "scan_value fl k s = Inr (w, q)" "starts_with (skip_ws q) '',''" for w q ys
        using after_skip [OF that(2)] val_short [OF that(1)] len by (intro elem_ih) simp_all
      show ?thesis
        by (auto simp: bind_res_def one more split: sum.split prod.split)
    qed
    ultimately show ?thesis unfolding Suc by blast
  qed simp
qed simp

lemma loads_bound:
  assumes "2 * length s < n"
  shows "json_loads fl s = bind_res (scan_value fl n (skip_ws s)) (\<lambda>(v, rest). if skip_ws rest = [] then Inr v else Inl JSONDecodeError)"
proof -
  have "scan_value fl (Suc (2 * length s)) (skip_ws s) = scan_value fl n (skip_ws s)"
    using skip_ws_length [of s] assms by (intro bound_irrelevant [THEN conjunct1, rule_format]) linarith+
  then show ?thesis by (simp only: json_loads_def)
qed

end
