(* ===== verification/Wire.thy ===== *)
theory Wire
  imports Json_Text Kafka Settings
begin

text \<open>
  What the two consumers of \<open>workers/transform_worker.py\<close> and \<open>workers/delivery_worker.py\<close> share: their
  configuration, and the serialisers at both ends of a topic, \<open>json.dumps(v).encode("utf-8")\<close> and
  \<open>json.loads(b.decode("utf-8"))\<close>.  \<open>json.dumps\<close> escapes everything outside ASCII, so the bytes are the text.
\<close>

section \<open>Consumers\<close>

record consumer_config =
  cf_topic :: string
  cf_bootstrap_servers :: string
  cf_group_id :: string
  cf_auto_offset_reset :: string
  cf_enable_auto_commit :: bool

definition transform_consumer :: "settings \<Rightarrow> consumer_config" where
  "transform_consumer cfg =
     \<lparr>cf_topic = kafka_topic_raw_events cfg, cf_bootstrap_servers = kafka_bootstrap_servers cfg,
      cf_group_id = kafka_consumer_group_transform cfg, cf_auto_offset_reset = ''earliest'', cf_enable_auto_commit = False\<rparr>"

definition delivery_consumer :: "settings \<Rightarrow> consumer_config" where
  "delivery_consumer cfg =
     \<lparr>cf_topic = kafka_topic_transformed_events cfg, cf_bootstrap_servers = kafka_bootstrap_servers cfg,
      cf_group_id = kafka_consumer_group_delivery cfg, cf_auto_offset_reset = ''earliest'', cf_enable_auto_commit = False\<rparr>"

section \<open>Messages as text\<close>

definition wire :: "kmsg \<Rightarrow> string" where
  "wire m = json_dumps (km_value m)"

text \<open>Anything but an object raises in the loop: the text does not parse, or its value has no \<open>get\<close>.\<close>

definition receive :: "(string \<Rightarrow> string) \<Rightarrow> string \<Rightarrow> dict res" where
  "receive fl raw =
     bind_res (json_loads fl raw) (\<lambda>v. case v of
       JObj d \<Rightarrow> Inr d | _ \<Rightarrow> Inl (OtherError ''AttributeError'' ''object has no attribute get''))"

lemma receive_wire: "km_value m = JObj d \<Longrightarrow> writable fl (JObj d) \<Longrightarrow> receive fl (wire m) = Inr d"
  by (simp add: receive_def wire_def loads_dumps del: json_dumps.simps writable.simps)

section \<open>Numbers that fit a column can be written\<close>

lemma length_show_nat: "n < 10 ^ Suc k \<Longrightarrow> length (show_nat n) \<le> Suc k"
proof (induction k arbitrary: n)
  case 0
  then show ?case by (simp add: show_nat.simps)
next
  case (Suc k)
  have "n div 10 < 10 ^ Suc k" using Suc.prems by (simp add: div_less_iff_less_mult)
  with Suc.IH show ?case by (subst show_nat.simps) simp
qed

lemma writable_int: "- (2 ^ 31) \<le> i \<Longrightarrow> i < 2 ^ 31 \<Longrightarrow> writable fl (JInt i)"
proof -
  assume "- (2 ^ 31) \<le> i" "i < 2 ^ 31"
  then have "nat \<bar>i\<bar> < 10 ^ Suc 9" by simp
  from length_show_nat [OF this] show ?thesis by (simp add: max_int_digits_def)
qed

end
