(* ===== verification/Delivery_Worker.thy ===== *)
theory Delivery_Worker
  imports Delivery Transform_Engine Wire
begin

text \<open>
  What surrounds a delivery: \<open>schedule_deliveries\<close> of \<open>app/delivery/worker.py\<close>, and the process
  of \<open>workers/delivery_worker.py\<close>: the reading of a message (\<open>_dispatch\<close>), its start-up, and the
  consumer loop with its offsets as a step relation, in which many deliveries are in flight at
  once and each one that returns commits the consumer's position.
\<close>

section \<open>Reading a message\<close>

text \<open>
  The fields of a message have the JSON types the transform worker writes; for a message whose
  numbers, texts or headers have other types the result is \<open>None\<close>, which is outside the model.
\<close>

definition int_field :: "dict \<Rightarrow> string \<Rightarrow> int \<Rightarrow> int option" where
  "int_field data k dflt = (case dict_get data k (JInt dflt) of JInt i \<Rightarrow> Some i | _ \<Rightarrow> None)"

definition str_field :: "json \<Rightarrow> string option" where
  "str_field v = (case v of JStr s \<Rightarrow> Some s | _ \<Rightarrow> None)"

fun str_items :: "dict \<Rightarrow> (string \<times> string) list option" where
  "str_items [] = Some []"
| "str_items ((k, JStr v) # d) = map_option (Cons (k, v)) (str_items d)"
| "str_items (x # d) = None"

definition headers_field :: "dict \<Rightarrow> (string \<times> string) list option" where
  "headers_field data =
     (let v = dict_get data ''headers'' JNull
      in if \<not> truthy v then Some [] else case v of JObj d \<Rightarrow> str_items d | _ \<Rightarrow> None)"

definition malformed :: "dict \<Rightarrow> bool" where
  "malformed data =
     (\<not> truthy (dict_get data ''event_id'' JNull) \<or> \<not> truthy (dict_get data ''route_id'' JNull) \<or>
      \<not> truthy (dict_get data ''url'' JNull))"

definition read_message :: "settings \<Rightarrow> dict \<Rightarrow> (uuid \<times> route_cfg \<times> json) res option" where
  "read_message cfg data =
     (case (str_field (dict_get data ''route_id'' JNull), str_field (dict_get data ''url'' JNull),
            str_field (dict_get data ''method'' (JStr ''POST'')), headers_field data,
            int_field data ''timeout_ms'' (delivery_timeout_ms cfg),
            int_field data ''max_retries'' (max_delivery_attempts cfg),
            int_field data ''retry_backoff_ms'' (retry_backoff_ms cfg),
            str_field (dict_get data ''event_id'' JNull)) of
        (Some rid, Some url, Some method, Some headers, Some timeout, Some retries, Some backoff, Some eid) \<Rightarrow>
          Some (bind_res (uuid_parse rid) (\<lambda>route_id.
            bind_res (uuid_parse eid) (\<lambda>event_id.
            Inr (event_id,
                 \<lparr>rc_id = route_id, rc_url = url, rc_method = method, rc_headers = headers,
                  rc_timeout_ms = timeout, rc_max_retries = retries, rc_retry_backoff_ms = backoff,
                  rc_rate_limit_rpm = None\<rparr>,
                 dict_get data ''body'' (JObj [])))))
      | _ \<Rightarrow> None)"

definition dispatch :: "('s, 'k) denv \<Rightarrow> dict \<Rightarrow> ('s, 'k) dworld \<Rightarrow> (unit res \<times> ('s, 'k) dworld) option" where
  "dispatch E data w =
     (case read_message (de_cfg E) data of
        None \<Rightarrow> None
      | Some (Inl e) \<Rightarrow> Some (Inl e, w)
      | Some (Inr (event_id, route, body)) \<Rightarrow> Some (deliver E event_id route body 0 0 w))"

text \<open>The process's handles after \<open>run\<close> has started: Redis is initialised, the Kafka producer is not.\<close>

definition start_worker :: "'s \<Rightarrow> db \<Rightarrow> time \<Rightarrow> ('s, 'k) dworld" where
  "start_worker client d now =
     \<lparr>dw_redis = init_redis client None, dw_db = d, dw_now = now, dw_kafka = None, dw_trace = [], dw_tick = 0\<rparr>"

text \<open>The deliveries of a series of messages, one after the other.\<close>

fun dispatch_all :: "('s, 'k) denv \<Rightarrow> dict list \<Rightarrow> ('s, 'k) dworld \<Rightarrow> ('s, 'k) dworld" where
  "dispatch_all E [] w = w"
| "dispatch_all E (m # ms) w =
     (if malformed m then dispatch_all E ms w
      else case dispatch E m w of
             None \<Rightarrow> dispatch_all E ms w
           | Some (r, w') \<Rightarrow> dispatch_all E ms w')"

text \<open>The tasks of \<open>schedule_deliveries\<close>: a pipeline that raises stops it before any delivery starts.\<close>

fun schedule_tasks :: "float_ops \<Rightarrow> jsearch \<Rightarrow> json \<Rightarrow> (route_cfg \<times> dict list option) list \<Rightarrow>
    (route_cfg \<times> json) list res" where
  "schedule_tasks fo jsearch request_body [] = Inr []"
| "schedule_tasks fo jsearch request_body ((route, pipeline) # rest) =
     bind_res (case pipeline of
                 None \<Rightarrow> Inr request_body
               | Some steps \<Rightarrow> if steps = [] then Inr request_body
                              else apply_pipeline fo jsearch steps request_body) (\<lambda>body.
     bind_res (schedule_tasks fo jsearch request_body rest) (\<lambda>tasks. Inr ((route, body) # tasks)))"

section \<open>The consumer loop\<close>

text \<open>
  \<open>cw_position\<close> is the next offset to read, \<open>cw_committed\<close> the offset a restarted process begins
  at, \<open>cw_inflight\<close> the offsets of running deliveries.  \<open>cw_done\<close> and \<open>cw_dropped\<close> record for the
  proofs which deliveries returned and which offsets were given up: a delivery that raised, a
  message read after the stop signal, a delivery in flight when the process died.
\<close>

record worker =
  cw_position :: nat
  cw_committed :: nat
  cw_inflight :: "nat set"
  cw_done :: "nat set"
  cw_dropped :: "nat set"
  cw_stop :: bool
  cw_looping :: bool

definition fresh_worker :: worker where
  "fresh_worker = \<lparr>cw_position = 0, cw_committed = 0, cw_inflight = {}, cw_done = {}, cw_dropped = {},
     cw_stop = False, cw_looping = True\<rparr>"

definition handle_signal :: "worker \<Rightarrow> worker" where
  "handle_signal w = w\<lparr>cw_stop := True\<rparr>"

text \<open>The end of \<open>_dispatch\<close>: only a delivery that returned commits, and a commit that raises is logged.\<close>

definition after_dispatch :: "unit res \<Rightarrow> bool \<Rightarrow> nat \<Rightarrow> worker \<Rightarrow> worker" where
  "after_dispatch r commit_raises i w =
     (case r of
        Inl e \<Rightarrow> w\<lparr>cw_inflight := cw_inflight w - {i}, cw_dropped := insert i (cw_dropped w)\<rparr>
      | Inr u \<Rightarrow>
          w\<lparr>cw_inflight := cw_inflight w - {i}, cw_done := insert i (cw_done w),
            cw_committed := (if commit_raises then cw_committed w else cw_position w)\<rparr>)"

definition skipped :: "(string \<Rightarrow> string) \<Rightarrow> string \<Rightarrow> bool" where
  "skipped fl raw = (case receive fl raw of Inl e \<Rightarrow> False | Inr data \<Rightarrow> malformed data)"

definition deliverable :: "(string \<Rightarrow> string) \<Rightarrow> string \<Rightarrow> bool" where
  "deliverable fl raw = (case receive fl raw of Inl e \<Rightarrow> False | Inr data \<Rightarrow> \<not> malformed data)"

text \<open>
  The topic is the texts of its messages.  A message that is no object ends the loop with an exception,
  whether or not the client has counted it as read, while deliveries may still be in flight.
\<close>

inductive worker_step :: "(string \<Rightarrow> string) \<Rightarrow> string list \<Rightarrow> worker \<Rightarrow> worker \<Rightarrow> bool" for fl topic where
  signal: "worker_step fl topic w (handle_signal w)"
| poll_stop: "cw_looping w \<Longrightarrow> cw_position w < length topic \<Longrightarrow> cw_stop w \<Longrightarrow>
    worker_step fl topic w (w\<lparr>cw_position := cw_position w + 1,
      cw_dropped := insert (cw_position w) (cw_dropped w), cw_looping := False\<rparr>)"
| poll_raise: "cw_looping w \<Longrightarrow> cw_position w < length topic \<Longrightarrow> receive fl (topic ! cw_position w) = Inl e \<Longrightarrow>
    p = cw_position w \<or> p = cw_position w + 1 \<Longrightarrow>
    worker_step fl topic w (w\<lparr>cw_position := p,
      cw_dropped := insert (cw_position w) (cw_dropped w), cw_looping := False\<rparr>)"
| poll_malformed: "cw_looping w \<Longrightarrow> cw_position w < length topic \<Longrightarrow> \<not> cw_stop w \<Longrightarrow>
    skipped fl (topic ! cw_position w) \<Longrightarrow>
    worker_step fl topic w (w\<lparr>cw_position := cw_position w + 1\<rparr>)"
| poll_dispatch: "cw_looping w \<Longrightarrow> cw_position w < length topic \<Longrightarrow> \<not> cw_stop w \<Longrightarrow>
    deliverable fl (topic ! cw_position w) \<Longrightarrow>
    worker_step fl topic w (w\<lparr>cw_position := cw_position w + 1,
      cw_inflight := insert (cw_position w) (cw_inflight w)\<rparr>)"
| finish: "i \<in> cw_inflight w \<Longrightarrow> worker_step fl topic w (after_dispatch r commit_raises i w)"
| restart: "worker_step fl topic w (w\<lparr>cw_position := cw_committed w, cw_inflight := {},
    cw_dropped := cw_dropped w \<union> cw_inflight w, cw_stop := False, cw_looping := True\<rparr>)"

abbreviation worker_steps :: "(string \<Rightarrow> string) \<Rightarrow> string list \<Rightarrow> worker \<Rightarrow> worker \<Rightarrow> bool" where
  "worker_steps fl topic \<equiv> (worker_step fl topic)\<^sup>*\<^sup>*"

definition worker_inv :: "(string \<Rightarrow> string) \<Rightarrow> string list \<Rightarrow> worker \<Rightarrow> bool" where
  "worker_inv fl topic w \<longleftrightarrow>
     cw_committed w \<le> cw_position w \<and> cw_position w \<le> length topic \<and>
     (\<forall>i \<in> cw_inflight w. i < cw_position w) \<and>
     (\<forall>i < cw_position w. skipped fl (topic ! i) \<or> i \<in> cw_inflight w \<union> cw_done w \<union> cw_dropped w)"

lemma worker_inv_start: "worker_inv fl topic fresh_worker"
  by (simp add: worker_inv_def fresh_worker_def)

lemma worker_inv_step: "worker_step fl topic w w' \<Longrightarrow> worker_inv fl topic w \<Longrightarrow> worker_inv fl topic w'"
  by (induction rule: worker_step.induct)
    (auto simp: worker_inv_def after_dispatch_def handle_signal_def less_Suc_eq dest: less_le_trans split: sum.splits)

lemma worker_inv_steps: "worker_steps fl topic w w' \<Longrightarrow> worker_inv fl topic w \<Longrightarrow> worker_inv fl topic w'"
  by (induction rule: rtranclp_induct) (auto intro: worker_inv_step)

text \<open>An offset below the committed one that is not in flight is never read again.\<close>

definition passed_over :: "nat \<Rightarrow> worker \<Rightarrow> bool" where
  "passed_over i w \<longleftrightarrow> i < cw_committed w \<and> i < cw_position w \<and> i \<notin> cw_inflight w \<and> i \<notin> cw_done w"

lemma passed_over_step:
  "worker_step fl topic w w' \<Longrightarrow> passed_over i w \<Longrightarrow> passed_over i w'"
  by (induction rule: worker_step.induct) (auto simp: passed_over_def after_dispatch_def handle_signal_def split: sum.splits)

lemma passed_over_steps: "worker_steps fl topic w w' \<Longrightarrow> passed_over i w \<Longrightarrow> passed_over i w'"
  by (induction rule: rtranclp_induct) (auto intro: passed_over_step)

text \<open>The worker at offset \<open>i\<close>, whose message it cannot take, with nothing in flight.\<close>

definition stuck :: "nat \<Rightarrow> nat set \<Rightarrow> worker \<Rightarrow> bool" where
  "stuck i returned w \<longleftrightarrow> cw_inflight w = {} \<and> cw_committed w = i \<and> cw_done w = returned \<and>
     (cw_position w = i \<or> \<not> cw_looping w)"

lemma stuck_step:
  assumes "worker_step fl topic w w'" and "receive fl (topic ! i) = Inl e" and "stuck i returned w"
  shows "stuck i returned w'"
  using assms by (induction rule: worker_step.induct) (auto simp: stuck_def skipped_def deliverable_def handle_signal_def)

lemma stuck_steps:
  "worker_steps fl topic w w' \<Longrightarrow> stuck i returned w \<Longrightarrow> receive fl (topic ! i) = Inl e \<Longrightarrow> stuck i returned w'"
  by (induction rule: rtranclp_induct) (auto intro: stuck_step)

section \<open>A process without a producer\<close>

lemma andthen_no_kafka:
  assumes "dw_kafka (snd p) = None" and "\<And>x w. dw_kafka w = None \<Longrightarrow> dw_kafka (snd (f x w)) = None"
  shows "dw_kafka (snd (andthen p f)) = None"
  using assms by (cases p; cases "fst p") (auto simp: andthen_def)

lemma add_attempt_kafka: "dw_kafka (snd (add_attempt E ev route body a st content err ms w)) = dw_kafka w"
  using add_attempt_appends [of E ev route body a st content err ms w] by (metis prod.collapse)

lemma cb_report_kafka: "dw_kafka (snd (cb_report E url ok w)) = dw_kafka w"
  using cb_report_appends [of E url ok w] by (metis prod.collapse)

lemma dead_letter_no_kafka: "dw_kafka w = None \<Longrightarrow> send_dead_letter E m w = (Inr (), w)"
  by (simp add: send_dead_letter_def get_kafka_def)

lemma after_request_no_kafka: "dw_kafka w = None \<Longrightarrow> dw_kafka (snd (after_request E ev route body a st err w)) = None"
  unfolding after_request_def
  by (auto intro!: andthen_no_kafka simp: cb_report_kafka dead_letter_no_kafka tick_def)

lemma request_no_kafka: "dw_kafka w = None \<Longrightarrow> dw_kafka (snd (request_and_record E ev route body a w)) = None"
proof -
  assume none: "dw_kafka w = None"
  obtain res ms w1 where req: "do_request E route body w = (res, ms, w1)"
    by (metis prod_cases3)
  then have "dw_kafka w1 = None"
    using do_request_appends none by metis
  then show ?thesis
    by (auto simp: request_and_record_def req add_attempt_kafka after_request_no_kafka
        intro!: andthen_no_kafka split: prod.split)
qed

lemma dest_gate_no_kafka: "dw_kafka w = None \<Longrightarrow> dw_kafka (snd (dest_gate E ev route body a n w)) = None"
  unfolding dest_gate_def
  by (auto intro!: andthen_no_kafka simp: check_frame add_attempt_kafka request_no_kafka)

lemma attempt_once_no_kafka: "dw_kafka w = None \<Longrightarrow> dw_kafka (snd (attempt_once E ev route body a n w)) = None"
  unfolding attempt_once_def breaker_open_def
  by (auto intro!: andthen_no_kafka simp: check_frame add_attempt_kafka dest_gate_no_kafka split: option.split)

lemma deliver_no_kafka: "dw_kafka w = None \<Longrightarrow> dw_kafka (snd (deliver E ev route body a n w)) = None"
proof (induction E ev route body a n w rule: deliver.induct)
  case (1 E ev route body a n w)
  obtain x w1 where pass: "attempt_once E ev route body a n w = (x, w1)"
    by (cases "attempt_once E ev route body a n w")
  have "dw_kafka w1 = None"
    using attempt_once_no_kafka [OF 1(2), of E ev route body a n] pass by simp
  then show ?case
    using 1(1) [OF pass [symmetric]]
    by (cases x) (simp_all add: deliver.simps [of E ev route body a n w] pass pause_def)
qed

lemma dispatch_no_kafka: "dw_kafka w = None \<Longrightarrow> dispatch E data w = Some (r, w') \<Longrightarrow> dw_kafka w' = None"
  using deliver_no_kafka [of w E _ _ _ 0 0]
  by (auto simp: dispatch_def split: option.splits sum.splits) (metis snd_conv)

lemma dispatch_all_no_kafka: "dw_kafka w = None \<Longrightarrow> dw_kafka (dispatch_all E messages w) = None"
  by (induction messages arbitrary: w) (auto dest: dispatch_no_kafka split: option.splits)

section \<open>Properties\<close>

text \<open>
  The worker process never sends a dead letter.  Its start-up initialises Redis but no Kafka
  producer, so whatever messages it dispatches one after the other, the producer handle stays empty
  and the branch that sends the dead letter is skipped.
\<close>
theorem worker_sends_no_dead_letter:
  "dw_kafka (dispatch_all E messages (start_worker client d now)) = None"
  by (rule dispatch_all_no_kafka) (simp add: start_worker_def)


text \<open>
  A delivery that raises can be lost.  On every topic that begins with two well-formed messages
  there is a run in which the first delivery raises, the second returns and commits the position, and
  from then on, whatever happens (restarts included), the first message is never delivered.
\<close>
theorem failed_delivery_can_be_lost:
  assumes "2 \<le> length topic" and "deliverable fl (topic ! 0)" and "deliverable fl (topic ! 1)"
  shows "\<exists>w. worker_steps fl topic fresh_worker w \<and> cw_committed w = 2 \<and>
    (\<forall>w'. worker_steps fl topic w w' \<longrightarrow> 0 \<notin> cw_done w')"
proof -
  let ?w1 = "fresh_worker\<lparr>cw_position := 1, cw_inflight := {0}\<rparr>"
  let ?w2 = "fresh_worker\<lparr>cw_position := 2, cw_inflight := {0, 1}\<rparr>"
  let ?w3 = "fresh_worker\<lparr>cw_position := 2, cw_inflight := {1}, cw_dropped := {0}\<rparr>"
  let ?w4 = "fresh_worker\<lparr>cw_position := 2, cw_committed := 2, cw_inflight := {}, cw_done := {1}, cw_dropped := {0}\<rparr>"
  have len: "0 < length topic" "1 < length topic" using assms(1) by linarith+
  have "worker_step fl topic fresh_worker ?w1"
    using worker_step.poll_dispatch [of fresh_worker topic fl] assms len(1) by (simp add: fresh_worker_def)
  moreover have "worker_step fl topic ?w1 ?w2"
    using worker_step.poll_dispatch [of ?w1 topic fl] assms len(2) by (simp add: fresh_worker_def insert_commute numeral_2_eq_2)
  moreover have "worker_step fl topic ?w2 ?w3"
    using worker_step.finish [of 0 ?w2 fl topic "Inl IntegrityError"] by (simp add: after_dispatch_def fresh_worker_def)
  moreover have "worker_step fl topic ?w3 ?w4"
    using worker_step.finish [of 1 ?w3 fl topic "Inr ()" False] by (simp add: after_dispatch_def fresh_worker_def)
  ultimately have run: "worker_steps fl topic fresh_worker ?w4"
    by (meson converse_rtranclp_into_rtranclp rtranclp.rtrancl_refl)
  have "passed_over 0 ?w4"
    by (simp add: passed_over_def fresh_worker_def)
  then have "0 \<notin> cw_done w'" if "worker_steps fl topic ?w4 w'" for w'
    using passed_over_steps [OF that] by (simp add: passed_over_def)
  with run show ?thesis
    by (intro exI [of _ ?w4]) (simp add: fresh_worker_def)
qed

text \<open>
  A message can be lost at shutdown.  On every topic that begins with two well-formed messages
  there is a run in which the stop signal arrives while the first delivery runs, the second message is
  read and dropped by the loop, the first delivery returns and commits past it, and the second message
  is never delivered, not even after a restart.
\<close>
theorem shutdown_can_lose_message:
  assumes "2 \<le> length topic" and "deliverable fl (topic ! 0)" and "deliverable fl (topic ! 1)"
  shows "\<exists>w. worker_steps fl topic fresh_worker w \<and> cw_committed w = 2 \<and> 0 \<in> cw_done w \<and>
    (\<forall>w'. worker_steps fl topic w w' \<longrightarrow> 1 \<notin> cw_done w')"
proof -
  let ?w1 = "fresh_worker\<lparr>cw_position := 1, cw_inflight := {0}\<rparr>"
  let ?w2 = "?w1\<lparr>cw_stop := True\<rparr>"
  let ?w3 = "?w2\<lparr>cw_position := 2, cw_dropped := {1}, cw_looping := False\<rparr>"
  let ?w4 = "?w3\<lparr>cw_committed := 2, cw_inflight := {}, cw_done := {0}\<rparr>"
  have len: "0 < length topic" "1 < length topic" using assms(1) by linarith+
  have "worker_step fl topic fresh_worker ?w1"
    using worker_step.poll_dispatch [of fresh_worker topic fl] assms len(1) by (simp add: fresh_worker_def)
  moreover have "worker_step fl topic ?w1 ?w2"
    using worker_step.signal [of fl topic ?w1] by (simp add: handle_signal_def)
  moreover have "worker_step fl topic ?w2 ?w3"
    using worker_step.poll_stop [of ?w2 topic fl] len(2) by (simp add: fresh_worker_def numeral_2_eq_2)
  moreover have "worker_step fl topic ?w3 ?w4"
    using worker_step.finish [of 0 ?w3 fl topic "Inr ()" False] by (simp add: after_dispatch_def fresh_worker_def)
  ultimately have run: "worker_steps fl topic fresh_worker ?w4"
    by (meson converse_rtranclp_into_rtranclp rtranclp.rtrancl_refl)
  have "passed_over 1 ?w4"
    by (simp add: passed_over_def fresh_worker_def)
  then have "1 \<notin> cw_done w'" if "worker_steps fl topic ?w4 w'" for w'
    using passed_over_steps [OF that] by (simp add: passed_over_def)
  with run show ?thesis
    by (intro exI [of _ ?w4]) (simp add: fresh_worker_def)
qed


section \<open>Closed examples\<close>

definition ex_message :: string where
  "ex_message = json_dumps (JObj [(''event_id'', JStr ''e''), (''route_id'', JStr ''r''), (''url'', JStr ''u'')])"

lemma ex_deliverable: "deliverable fl ex_message"
proof -
  have "receive fl ex_message = Inr [(''event_id'', JStr ''e''), (''route_id'', JStr ''r''), (''url'', JStr ''u'')]"
    by (simp add: receive_def ex_message_def loads_dumps del: json_dumps.simps)
  then show ?thesis by (simp add: deliverable_def malformed_def dict_get_def)
qed

definition no_floats :: "string \<Rightarrow> string" where
  "no_floats s = s"


theorem failed_delivery_can_be_lost_witness:
  "\<exists>w. worker_steps no_floats [ex_message, ex_message] fresh_worker w \<and> cw_committed w = 2 \<and> 0 \<notin> cw_done w"
  using failed_delivery_can_be_lost [of "[ex_message, ex_message]" no_floats] by (auto simp: ex_deliverable)

theorem shutdown_can_lose_message_witness:
  "\<exists>w. worker_steps no_floats [ex_message, ex_message] fresh_worker w \<and> cw_committed w = 2 \<and> 1 \<notin> cw_done w"
  using shutdown_can_lose_message [of "[ex_message, ex_message]" no_floats] by (auto simp: ex_deliverable)


end
