(* ===== verification/Transform_Worker.thy ===== *)
theory Transform_Worker
  imports Transform_Filter Delivery_Worker
begin

text \<open>
  The transform worker of \<open>workers/transform_worker.py\<close>: it reads an event's message, loads the
  event and the active routes of the endpoint, and sends one delivery message for every route
  whose filter takes the event and whose pipeline does not raise.  The state is the broker behind
  its producer; the database is only read.
\<close>

section \<open>The operations\<close>

record transform_env =
  te_cfg :: settings
  te_floats :: float_ops
  te_search :: jsearch

definition delivery_msg :: "settings \<Rightarrow> event_row \<Rightarrow> route_row \<Rightarrow> json \<Rightarrow> kmsg" where
  "delivery_msg cfg ev route body =
     \<lparr>km_topic = kafka_topic_transformed_events cfg, km_key = uuid_str (rt_id route),
      km_value = JObj [
        (''event_id'', JStr (uuid_str (ev_id ev))),
        (''route_id'', JStr (uuid_str (rt_id route))),
        (''url'', JStr (rt_url route)),
        (''method'', JStr (rt_method route)),
        (''headers'', headers_json (case rt_headers route of None \<Rightarrow> [] | Some h \<Rightarrow> h)),
        (''body'', body),
        (''timeout_ms'', JInt (rt_timeout_ms route)),
        (''max_retries'', JInt (rt_max_retries route)),
        (''retry_backoff_ms'', JInt (rt_retry_backoff_ms route))]\<rparr>"

text \<open>The body for a route: \<open>None\<close> when the filter refuses the event or the pipeline raises.\<close>

definition route_body :: "transform_env \<Rightarrow> event_row \<Rightarrow> route_row \<Rightarrow> json option" where
  "route_body E ev route =
     (if \<not> route_matches_event (te_search E) (rt_filter_expression route) (ev_request_body ev) (ev_request_headers ev)
      then None
      else case rt_transform_pipeline route of
             None \<Rightarrow> Some (ev_request_body ev)
           | Some pipeline \<Rightarrow>
               if pipeline = [] then Some (ev_request_body ev)
               else (case apply_pipeline (te_floats E) (te_search E) pipeline (ev_request_body ev) of
                       Inl e \<Rightarrow> None
                     | Inr body \<Rightarrow> Some body))"

definition dispatch_route :: "transform_env \<Rightarrow> 'k sender \<Rightarrow> event_row \<Rightarrow> route_row \<Rightarrow> 'k \<Rightarrow> unit res \<times> 'k" where
  "dispatch_route E send ev route k =
     (case route_body E ev route of
        None \<Rightarrow> (Inr (), k)
      | Some body \<Rightarrow> send (delivery_msg (te_cfg E) ev route body) k)"

fun dispatch_routes :: "transform_env \<Rightarrow> 'k sender \<Rightarrow> event_row \<Rightarrow> route_row list \<Rightarrow> 'k \<Rightarrow> unit res \<times> 'k" where
  "dispatch_routes E send ev [] k = (Inr (), k)"
| "dispatch_routes E send ev (route # rest) k =
     (case dispatch_route E send ev route k of
        (Inl e, k') \<Rightarrow> (Inl e, k')
      | (Inr u, k') \<Rightarrow> dispatch_routes E send ev rest k')"

definition active_routes :: "db \<Rightarrow> uuid \<Rightarrow> route_row list" where
  "active_routes d endpoint = filter (\<lambda>r. rt_endpoint_id r = endpoint \<and> rt_is_active r) (routes d)"

definition process_event :: "transform_env \<Rightarrow> 'k sender \<Rightarrow> db \<Rightarrow> json \<Rightarrow> json \<Rightarrow> 'k \<Rightarrow> unit res \<times> 'k" where
  "process_event E send d event_id endpoint_id k =
     (case json_uuid event_id of
        Inl e \<Rightarrow> (Inl e, k)
      | Inr eid \<Rightarrow>
          (case by_key ev_id eid (events d) of
             None \<Rightarrow> (Inr (), k)
           | Some ev \<Rightarrow>
               (case json_uuid endpoint_id of
                  Inl e \<Rightarrow> (Inl e, k)
                | Inr ep \<Rightarrow> dispatch_routes E send ev (active_routes d ep) k)))"

text \<open>Every exception is caught: the message counts as handled.\<close>

definition handle_message :: "transform_env \<Rightarrow> 'k sender \<Rightarrow> db \<Rightarrow> dict \<Rightarrow> 'k \<Rightarrow> 'k" where
  "handle_message E send d data k =
     (let event_id = dict_get data ''event_id'' JNull;
          endpoint_id = dict_get data ''endpoint_id'' JNull
      in if \<not> truthy event_id \<or> \<not> truthy endpoint_id then k
         else snd (process_event E send d event_id endpoint_id k))"

text \<open>
  The consumer loop over the messages from the committed offset on: each one is handled, then its
  offset is committed.  \<open>faults\<close> says which commits raise (that is logged); a stop ends the loop
  before the next message is handled.
\<close>

fun consume :: "transform_env \<Rightarrow> 'k sender \<Rightarrow> db \<Rightarrow> (dict \<times> bool \<times> bool) list \<Rightarrow> nat \<Rightarrow> nat \<Rightarrow> 'k \<Rightarrow> nat \<times> 'k" where
  "consume E send d [] position offset k = (offset, k)"
| "consume E send d ((data, stop, commit_raises) # rest) position offset k =
     (if stop then (offset, k)
      else consume E send d rest (position + 1) (if commit_raises then offset else position + 1)
             (handle_message E send d data k))"

section \<open>Lemmas\<close>

definition deliveries :: "transform_env \<Rightarrow> event_row \<Rightarrow> route_row list \<Rightarrow> kmsg list" where
  "deliveries E ev rs =
     concat (map (\<lambda>r. case route_body E ev r of None \<Rightarrow> [] | Some body \<Rightarrow> [delivery_msg (te_cfg E) ev r body]) rs)"

context kafka_producer
begin

lemma dispatch_routes_log:
  assumes "\<And>m k. fst (send m k) = Inr ()"
  shows "fst (dispatch_routes E send ev rs k) = Inr () \<and>
    log (snd (dispatch_routes E send ev rs k)) = log k @ deliveries E ev rs"
proof (induction rs arbitrary: k)
  case Nil
  then show ?case by (simp add: deliveries_def)
next
  case (Cons r rs)
  have sure: "log (snd (send m k)) = log k @ [m]" for m k
    using send_ok assms [of m k] by (metis prod.collapse)
  show ?case
  proof (cases "route_body E ev r")
    case None
    then show ?thesis using Cons by (simp add: dispatch_route_def deliveries_def)
  next
    case (Some body)
    obtain u k1 where s: "send (delivery_msg (te_cfg E) ev r body) k = (u, k1)"
      by (cases "send (delivery_msg (te_cfg E) ev r body) k")
    have "u = Inr ()" "log k1 = log k @ [delivery_msg (te_cfg E) ev r body]"
      using sure [of "delivery_msg (te_cfg E) ev r body" k] assms [of "delivery_msg (te_cfg E) ev r body" k] s by simp_all
    then show ?thesis using Cons [of k1] s Some by (simp add: dispatch_route_def deliveries_def)
  qed
qed

lemma dispatch_routes_sub:
  "set (log k) \<subseteq> set (log (snd (dispatch_routes E send ev rs k))) \<and>
   set (log (snd (dispatch_routes E send ev rs k))) \<subseteq> set (log k) \<union> set (deliveries E ev rs)"
proof (induction rs arbitrary: k)
  case Nil
  then show ?case by simp
next
  case (Cons r rs)
  show ?case
  proof (cases "route_body E ev r")
    case None
    then show ?thesis using Cons by (simp add: dispatch_route_def deliveries_def)
  next
    case (Some body)
    obtain u k1 where s: "send (delivery_msg (te_cfg E) ev r body) k = (u, k1)"
      by (cases "send (delivery_msg (te_cfg E) ev r body) k")
    have "set (log k) \<subseteq> set (log k1)" "set (log k1) \<subseteq> insert (delivery_msg (te_cfg E) ev r body) (set (log k))"
      using send_log [OF s] by blast+
    then show ?thesis
      using Cons [of k1] s Some by (cases u) (auto simp: dispatch_route_def deliveries_def)
  qed
qed

end

lemma handle_event:
  assumes "by_key ev_id i (events d) = Some ev"
    and "dict_get data ''event_id'' JNull = JStr (uuid_str i)"
    and "dict_get data ''endpoint_id'' JNull = JStr (uuid_str ep)"
  shows "handle_message E send d data k = snd (dispatch_routes E send ev (active_routes d ep) k)"
proof -
  have "uuid_str i \<noteq> []" "uuid_str ep \<noteq> []"
    using length_uuid_str by (metis list.size(3) zero_neq_numeral)+
  then show ?thesis
    using assms by (simp add: handle_message_def process_event_def json_uuid_def)
qed

lemma str_items_headers: "str_items (map (\<lambda>(k, v). (k, JStr v)) h) = Some h"
  by (induction h) auto

lemma headers_field_json:
  "dict_get data ''headers'' JNull = headers_json h \<Longrightarrow> headers_field data = Some h"
  by (cases h) (auto simp: headers_field_def headers_json_def str_items_headers)

text \<open>What the delivery worker makes of a route's message.\<close>

definition delivered_route :: "route_row \<Rightarrow> route_cfg" where
  "delivered_route r =
     \<lparr>rc_id = rt_id r, rc_url = rt_url r, rc_method = rt_method r,
      rc_headers = (case rt_headers r of None \<Rightarrow> [] | Some h \<Rightarrow> h), rc_timeout_ms = rt_timeout_ms r,
      rc_max_retries = rt_max_retries r, rc_retry_backoff_ms = rt_retry_backoff_ms r, rc_rate_limit_rpm = None\<rparr>"

lemma read_delivery_msg:
  "km_value (delivery_msg cfg ev route body) = JObj data \<Longrightarrow>
   read_message cfg' data = Some (Inr (ev_id ev, delivered_route route, body))"
  by (auto simp: delivery_msg_def read_message_def str_field_def int_field_def dict_get_def
      headers_field_json delivered_route_def)

section \<open>Properties\<close>

text \<open>
  C24: fan-out.  For a message that names a stored event and an endpoint, when every send succeeds, the
  worker sends exactly one message for each active route of that endpoint whose filter takes the event
  and whose pipeline does not raise, in the order of the routes, carrying the transformed body; and
  nothing for any other route.
\<close>
theorem transform_fan_out:
  assumes "kafka_producer send lg" and "\<And>m k. fst (send m k) = Inr ()"
    and "by_key ev_id i (events d) = Some ev"
    and "dict_get data ''event_id'' JNull = JStr (uuid_str i)"
    and "dict_get data ''endpoint_id'' JNull = JStr (uuid_str ep)"
  shows "lg (handle_message E send d data k) = lg k @
    concat (map (\<lambda>r. case route_body E ev r of None \<Rightarrow> [] | Some body \<Rightarrow> [delivery_msg (te_cfg E) ev r body])
      (filter (\<lambda>r. rt_endpoint_id r = ep \<and> rt_is_active r) (routes d)))"
  unfolding handle_event [OF assms(3-5)]
  using kafka_producer.dispatch_routes_log [OF assms(1,2)] by (simp add: deliveries_def active_routes_def)

lemma writable_delivery_msg:
  assumes "writable fl body" and "distinct (map fst (case rt_headers route of None \<Rightarrow> [] | Some h \<Rightarrow> h))" and "fits_route route"
  shows "\<exists>data. km_value (delivery_msg cfg ev route body) = JObj data \<and> writable fl (JObj data)"
proof -
  have "writable fl (headers_json h)" if "distinct (map fst h)" for h
    using that by (simp add: headers_json_def comp_def case_prod_unfold list_all_iff)
  then show ?thesis
    using assms writable_int [of _ fl]
    by (simp add: delivery_msg_def fits_route_def int4_def del: writable.simps(1))
qed

text \<open>
  C33: the two workers agree on the message format, down to the text on the wire.  For every route that fits
  its columns and every transformed body that came out of a parser, the text that the transform worker's
  producer writes is read back by the delivery worker's consumer, and the delivery worker takes from it the
  event's identifier, the route's identifier, URL, method, headers, time-out, retry count and back-off, and
  the body; but the route's own rate limit is never part of it, so the delivery always runs without it.
\<close>
theorem delivery_message_roundtrip:
  assumes "writable fl body" and "distinct (map fst (case rt_headers route of None \<Rightarrow> [] | Some h \<Rightarrow> h))" and "fits_route route"
  shows "\<exists>data. receive fl (wire (delivery_msg cfg ev route body)) = Inr data \<and>
    read_message cfg' data = Some (Inr (ev_id ev,
      \<lparr>rc_id = rt_id route, rc_url = rt_url route, rc_method = rt_method route,
       rc_headers = (case rt_headers route of None \<Rightarrow> [] | Some h \<Rightarrow> h), rc_timeout_ms = rt_timeout_ms route,
       rc_max_retries = rt_max_retries route, rc_retry_backoff_ms = rt_retry_backoff_ms route,
       rc_rate_limit_rpm = None\<rparr>, body))"
proof -
  obtain data where data: "km_value (delivery_msg cfg ev route body) = JObj data" "writable fl (JObj data)"
    using writable_delivery_msg [OF assms] by blast
  show ?thesis
    using read_delivery_msg [OF data(1), of cfg'] receive_wire [OF data] by (simp add: delivered_route_def)
qed

text \<open>
  A failed send is not retried.  If the send for the first deliverable route of an event raises, the
  worker sends nothing for the routes after it, and yet commits the offset past the event's message,
  so that no later run of the worker sees the message again.
\<close>
theorem failed_send_is_committed:
  assumes "by_key ev_id i (events d) = Some ev"
    and "dict_get data ''event_id'' JNull = JStr (uuid_str i)"
    and "dict_get data ''endpoint_id'' JNull = JStr (uuid_str ep)"
    and "active_routes d ep = route # others" and "route_body E ev route = Some body"
    and "send (delivery_msg (te_cfg E) ev route body) k = (Inl e, k')"
  shows "consume E send d [(data, False, False)] position offset k = (position + 1, k')"
  using handle_event [OF assms(1-3), of E send k] assms(4-6) by (simp add: dispatch_route_def)

section \<open>Closed examples\<close>

definition ex_transform :: transform_env where
  "ex_transform = \<lparr>te_cfg = default_settings, te_floats = ex_floats, te_search = (\<lambda>x v. Inr v)\<rparr>"

definition ex_event_row :: event_row where
  "ex_event_row = \<lparr>ev_id = 4, ev_endpoint_id = 2, ev_idempotency_key = None, ev_request_body = JInt 7,
     ev_request_headers = None, ev_status = ''queued'', ev_retry_at = None, ev_received_at = 0,
     ev_is_discarded = False, ev_discarded_at = None\<rparr>"

definition ex_route_row :: "uuid \<Rightarrow> bool \<Rightarrow> route_row" where
  "ex_route_row i active = \<lparr>rt_id = i, rt_endpoint_id = 2, rt_name = ''r'', rt_url = ''u'', rt_method = ''POST'',
     rt_headers = None, rt_transform_pipeline = None, rt_rate_limit_rpm = Some 1, rt_timeout_ms = 10000,
     rt_max_retries = 5, rt_retry_backoff_ms = 1000, rt_is_active = active, rt_filter_expression = None,
     rt_created_at = 0\<rparr>"

definition ex_fan_db :: db where
  "ex_fan_db = empty_db\<lparr>events := [ex_event_row], routes := [ex_route_row 5 False, ex_route_row 6 True]\<rparr>"

definition ex_raw :: dict where
  "ex_raw = [(''event_id'', JStr (uuid_str 4)), (''endpoint_id'', JStr (uuid_str 2))]"

lemma ex_fan:
  "by_key ev_id 4 (events ex_fan_db) = Some ex_event_row"
  "dict_get ex_raw ''event_id'' JNull = JStr (uuid_str 4)"
  "dict_get ex_raw ''endpoint_id'' JNull = JStr (uuid_str 2)"
  "active_routes ex_fan_db 2 = [ex_route_row 6 True]"
  "route_body ex_transform ex_event_row (ex_route_row 6 True) = Some (JInt 7)"
  by (simp_all add: ex_fan_db_def empty_db_def by_key_def ex_event_row_def ex_raw_def dict_get_def active_routes_def
      ex_route_row_def route_body_def route_matches_event_def)

definition steady_send :: "broker sender" where
  "steady_send m k = (Inr (), k\<lparr>br_log := br_log k @ [m]\<rparr>)"

interpretation steady: kafka_producer steady_send br_log
  by unfold_locales (simp_all add: steady_send_def)

theorem transform_fan_out_witness:
  "br_log (handle_message ex_transform steady_send ex_fan_db ex_raw empty_broker) =
     [delivery_msg default_settings ex_event_row (ex_route_row 6 True) (JInt 7)]"
proof -
  have "fst (steady_send m k) = Inr ()" for m k by (simp add: steady_send_def)
  note out = transform_fan_out [OF steady.kafka_producer_axioms this ex_fan(1-3), where k = empty_broker and E = ex_transform]
  have "filter (\<lambda>r. rt_endpoint_id r = 2 \<and> rt_is_active r) (routes ex_fan_db) = [ex_route_row 6 True]"
    using ex_fan(4) by (simp only: active_routes_def)
  with out show ?thesis
    by (simp add: ex_fan(5) empty_broker_def) (simp add: ex_transform_def)
qed

theorem delivery_message_roundtrip_witness:
  "\<exists>data. receive no_floats (wire (delivery_msg default_settings ex_event_row (ex_route_row 6 True) (JInt 7))) = Inr data \<and>
     dict_get data ''body'' JNull = JInt 7"
proof -
  have ok: "writable no_floats (JInt 7)" "fits_route (ex_route_row 6 True)"
    "distinct (map fst (case rt_headers (ex_route_row 6 True) of None \<Rightarrow> [] | Some h \<Rightarrow> h))"
    by (rule writable_int) (simp_all add: fits_route_def ex_route_row_def short_def int4_def opt_ok_def)
  obtain data where "receive no_floats (wire (delivery_msg default_settings ex_event_row (ex_route_row 6 True) (JInt 7))) = Inr data"
      "read_message default_settings data = Some (Inr (ev_id ex_event_row, delivered_route (ex_route_row 6 True), JInt 7))"
    using delivery_message_roundtrip [OF ok(1,3,2), of default_settings ex_event_row default_settings]
    by (auto simp: delivered_route_def)
  then show ?thesis
    by (auto simp: read_message_def bind_res_eq_Inr dict_get_def split: option.splits)
qed

theorem failed_send_is_committed_witness:
  "consume ex_transform ref_send ex_fan_db [(ex_raw, False, False)] 3 3
     \<lparr>br_log = [], br_script = [Some (OtherError ''KafkaTimeoutError'' ''t'', False)]\<rparr> =
   (4, \<lparr>br_log = [], br_script = []\<rparr>)"
  using failed_send_is_committed [OF ex_fan, where send = ref_send and position = 3 and offset = 3
      and k = "\<lparr>br_log = [], br_script = [Some (OtherError ''KafkaTimeoutError'' ''t'', False)]\<rparr>"]
  by (simp add: ref_send_def)

end
