(* ===== verification/Auth.thy ===== *)
theory Auth
  imports Redis_Store Data_Model Settings Hmac
begin

text \<open>
  Passwords and tokens (\<open>app/core/security.py\<close>), the current user and the workspace roles
  (\<open>app/middleware/rbac.py\<close>), and registration, login and logout (\<open>app/api/auth.py\<close>).
  Bcrypt and the JWT package are parameters; what the code relies on of the last is the locale
  \<open>jwt_codec\<close>.  The state is the Redis handle and the database.
\<close>

section \<open>Parameters\<close>

record ('s, 't) auth_env =
  ae_redis :: "'s redis_ops"
  ae_cfg :: settings
  ae_hashpw :: "string \<Rightarrow> string \<Rightarrow> string"
  ae_checkpw :: "string \<Rightarrow> string \<Rightarrow> bool res"
  ae_encode :: "string \<Rightarrow> dict \<Rightarrow> 't"
  ae_decode :: "time \<Rightarrow> string \<Rightarrow> 't \<Rightarrow> dict res"

text \<open>
  The claim \<open>exp\<close> is a number of whole seconds.  A token that was signed with the secret decodes to
  its claims until the second of \<open>exp\<close> is over, and raises a \<open>JWTError\<close> afterwards.
\<close>

definition jwt_errors :: "string list" where
  "jwt_errors = [''JWTError'', ''ExpiredSignatureError'', ''JWTClaimsError'']"

locale jwt_codec =
  fixes encode :: "string \<Rightarrow> dict \<Rightarrow> 't"
    and decode :: "time \<Rightarrow> string \<Rightarrow> 't \<Rightarrow> dict res"
  assumes decode_live: "map_of claims ''exp'' = Some (JInt x) \<Longrightarrow> \<lfloor>now\<rfloor> \<le> x \<Longrightarrow>
      decode now secret (encode secret claims) = Inr claims"
    and decode_expired: "map_of claims ''exp'' = Some (JInt x) \<Longrightarrow> x < \<lfloor>now\<rfloor> \<Longrightarrow>
      \<exists>name msg. decode now secret (encode secret claims) = Inl (OtherError name msg) \<and> name \<in> set jwt_errors"

section \<open>Passwords and tokens\<close>

definition peppered_password :: "('s, 't) auth_env \<Rightarrow> string \<Rightarrow> string" where
  "peppered_password E password = hmac_sha256 (utf8 (password_pepper (ae_cfg E))) (utf8 password)"

definition hash_password :: "('s, 't) auth_env \<Rightarrow> string \<Rightarrow> string \<Rightarrow> string" where
  "hash_password E salt password = ae_hashpw E (peppered_password E password) salt"

definition verify_password :: "('s, 't) auth_env \<Rightarrow> string \<Rightarrow> string \<Rightarrow> bool res" where
  "verify_password E plain hashed = ae_checkpw E (peppered_password E plain) hashed"

text \<open>\<open>expires_delta or settings.jwt_expire_minutes\<close>; the package rounds \<open>exp\<close> down to a second.\<close>

definition create_access_token :: "('s, 't) auth_env \<Rightarrow> time \<Rightarrow> uuid \<Rightarrow> dict \<Rightarrow> int option \<Rightarrow> 't" where
  "create_access_token E now jti data expires_delta =
     (let minutes = (case expires_delta of Some m \<Rightarrow> if m = 0 then jwt_expire_minutes (ae_cfg E) else m
                                         | None \<Rightarrow> jwt_expire_minutes (ae_cfg E));
          expire = now + of_int (minutes * 60)
      in ae_encode E (jwt_secret_key (ae_cfg E))
           (dict_set ''jti'' (JStr (uuid_str jti)) (dict_set ''exp'' (JInt \<lfloor>expire\<rfloor>) data)))"

definition decode_access_token :: "('s, 't) auth_env \<Rightarrow> time \<Rightarrow> 't \<Rightarrow> dict res" where
  "decode_access_token E now token =
     (case ae_decode E now (jwt_secret_key (ae_cfg E)) token of
        Inl (OtherError name msg) \<Rightarrow>
          Inl (if name \<in> set jwt_errors then HTTPException 401 ''invalid or expired token'' else OtherError name msg)
      | r \<Rightarrow> r)"

section \<open>The current user and the roles\<close>

definition revoked_key :: "json \<Rightarrow> string" where
  "revoked_key jti = ''revoked:jti:'' @ py_str jti"

definition check_revoked :: "('s, 't) auth_env \<Rightarrow> time \<Rightarrow> json \<Rightarrow> 's option \<Rightarrow> unit res" where
  "check_revoked E now jti redis =
     (if \<not> truthy jti then Inr ()
      else case get_redis redis of
             Inl e \<Rightarrow> Inr ()
           | Inr s \<Rightarrow> if op_exists (ae_redis E) now (revoked_key jti) s
                     then Inl (HTTPException 401 ''token has been revoked'') else Inr ())"

definition get_current_user :: "('s, 't) auth_env \<Rightarrow> time \<Rightarrow> 't \<Rightarrow> 's option \<Rightarrow> db \<Rightarrow> user_row res" where
  "get_current_user E now token redis d =
     bind_res (decode_access_token E now token) (\<lambda>payload.
       let user_id = dict_get payload ''sub'' JNull
       in if \<not> truthy user_id then Inl (HTTPException 401 ''invalid token payload'')
          else bind_res (check_revoked E now (dict_get payload ''jti'' JNull) redis) (\<lambda>_.
            bind_res (json_uuid user_id) (\<lambda>uid.
            case by_key u_id uid (users d) of
              None \<Rightarrow> Inl (HTTPException 401 ''user not found or inactive'')
            | Some user \<Rightarrow> if u_is_active user then Inr user
                          else Inl (HTTPException 401 ''user not found or inactive''))))"

definition role_level :: "string \<Rightarrow> int \<Rightarrow> int" where
  "role_level role dflt =
     (case map_of [(''viewer'', 0), (''member'', 1), (''admin'', 2), (''owner'', 3)] role of
        Some n \<Rightarrow> n | None \<Rightarrow> dflt)"

definition get_workspace_membership :: "db \<Rightarrow> string \<Rightarrow> user_row \<Rightarrow> membership_row res" where
  "get_workspace_membership d workspace_id user =
     (case uuid_parse workspace_id of
        Inl e \<Rightarrow> Inl (HTTPException 400 ''invalid workspace id'')
      | Inr ws \<Rightarrow>
          (case by_key mb_key (u_id user, ws) (memberships d) of
             None \<Rightarrow> Inl (HTTPException 403 ''not a member of this workspace'')
           | Some m \<Rightarrow> Inr m))"

definition check_role :: "string \<Rightarrow> membership_row \<Rightarrow> membership_row res" where
  "check_role minimum_role m =
     (if role_level (mb_role m) (-1) < role_level minimum_role 99
      then Inl (HTTPException 403 (''requires role '' @ [CHR 0x27] @ minimum_role @ [CHR 0x27] @ '' or higher''))
      else Inr m)"

text \<open>\<open>Depends(require_workspace_role(minimum))\<close>: the chain token, user, membership, role.\<close>

definition require_workspace_role :: "('s, 't) auth_env \<Rightarrow> string \<Rightarrow> time \<Rightarrow> 't \<Rightarrow> string \<Rightarrow> 's option \<Rightarrow> db \<Rightarrow>
    membership_row res" where
  "require_workspace_role E minimum_role now token workspace_id redis d =
     bind_res (get_current_user E now token redis d) (\<lambda>user.
       bind_res (get_workspace_membership d workspace_id user) (check_role minimum_role))"

section \<open>Registration, login, logout\<close>

definition slug_char :: "char \<Rightarrow> bool" where
  "slug_char c = (97 \<le> ch c \<and> ch c \<le> 122 \<or> is_digit c \<or> c = CHR ''-'')"

definition slugify :: "string \<Rightarrow> string" where
  "slugify name =
     (let slug = take 63 (filter slug_char (replace_char CHR '' '' CHR ''-'' (py_lower name)))
      in if slug = [] then ''workspace'' else slug)"

definition normalize_email :: "string \<Rightarrow> string" where
  "normalize_email email = py_lower (py_strip is_space email)"

text \<open>One counter of the login limiter; \<open>INCR\<close>, and \<open>EXPIRE\<close> at the first count.\<close>

definition count_attempt :: "('s, 't) auth_env \<Rightarrow> time \<Rightarrow> string \<Rightarrow> 's \<Rightarrow> int \<times> 's" where
  "count_attempt E now key s =
     (let (count, s1) = op_incr (ae_redis E) now key s
      in (count, if count = 1 then op_expire (ae_redis E) now key 60 s1 else s1))"

fun count_keys :: "('s, 't) auth_env \<Rightarrow> time \<Rightarrow> string list \<Rightarrow> 's \<Rightarrow> unit res \<times> 's" where
  "count_keys E now [] s = (Inr (), s)"
| "count_keys E now (key # keys) s =
     (let (count, s') = count_attempt E now key s
      in if auth_rate_limit_per_minute (ae_cfg E) < count
         then (Inl (HTTPException 429 ''too many authentication attempts''), s')
         else count_keys E now keys s')"

definition check_auth_rate_limit :: "('s, 't) auth_env \<Rightarrow> time \<Rightarrow> string option \<Rightarrow> string \<Rightarrow> string \<Rightarrow> 's option \<Rightarrow>
    unit res \<times> 's option" where
  "check_auth_rate_limit E now client email action redis =
     (case get_redis redis of
        Inl e \<Rightarrow> (Inr (), redis)
      | Inr s \<Rightarrow>
          (let client_host = (case client of Some h \<Rightarrow> h | None \<Rightarrow> ''unknown'');
               (r, s') = count_keys E now
                  [''auth-rl:'' @ action @ '':ip:'' @ client_host,
                   ''auth-rl:'' @ action @ '':email:'' @ normalize_email email] s
           in (r, Some s')))"

record user_create =
  uc_email :: string
  uc_password :: string
  uc_display_name :: string

record auth_draw =
  ad_now :: time
  ad_client :: "string option"
  ad_user_id :: uuid
  ad_workspace_id :: uuid
  ad_jti :: uuid
  ad_salt :: string
  ad_fault :: "exc option"

record login_request =
  lr_email :: string
  lr_password :: string

text \<open>\<open>UserOut\<close> leaves out the password hash; \<open>TokenResponse\<close>.\<close>

record user_out =
  uo_id :: uuid
  uo_email :: string
  uo_display_name :: string
  uo_is_active :: bool
  uo_created_at :: time

record 't token_response =
  tk_access_token :: 't
  tk_token_type :: string
  tk_user :: user_out

definition user_view :: "user_row \<Rightarrow> user_out" where
  "user_view u =
     \<lparr>uo_id = u_id u, uo_email = u_email u, uo_display_name = u_display_name u, uo_is_active = u_is_active u,
      uo_created_at = u_created_at u\<rparr>"

definition token_answer :: "'t \<Rightarrow> user_row \<Rightarrow> 't token_response" where
  "token_answer token user = \<lparr>tk_access_token = token, tk_token_type = ''bearer'', tk_user = user_view user\<rparr>"

definition new_user :: "('s, 't) auth_env \<Rightarrow> auth_draw \<Rightarrow> user_create \<Rightarrow> user_row" where
  "new_user E dr body =
     \<lparr>u_id = ad_user_id dr, u_email = normalize_email (uc_email body), u_display_name = uc_display_name body,
      u_password_hash = hash_password E (ad_salt dr) (uc_password body), u_is_active = True,
      u_created_at = ad_now dr, u_updated_at = ad_now dr\<rparr>"

definition own_workspace :: "auth_draw \<Rightarrow> user_create \<Rightarrow> workspace_row" where
  "own_workspace dr body =
     \<lparr>ws_id = ad_workspace_id dr, ws_name = uc_display_name body @ [CHR 0x27] @ ''s Workspace'',
      ws_slug = slugify (uc_display_name body @ ''-'' @ uuid_str (ad_user_id dr)),
      ws_created_at = ad_now dr, ws_updated_at = ad_now dr\<rparr>"

definition own_membership :: "auth_draw \<Rightarrow> membership_row" where
  "own_membership dr =
     \<lparr>mb_user_id = ad_user_id dr, mb_workspace_id = ad_workspace_id dr, mb_role = ''owner'', mb_joined_at = ad_now dr\<rparr>"

text \<open>The transaction: two flushes, each of which checks the constraints, and the commit.\<close>

definition create_account :: "('s, 't) auth_env \<Rightarrow> auth_draw \<Rightarrow> user_create \<Rightarrow> db \<Rightarrow> db res" where
  "create_account E dr body d =
     bind_res (commit None (d\<lparr>users := users d @ [new_user E dr body]\<rparr>)) (\<lambda>d1.
     bind_res (commit None (d1\<lparr>workspaces := workspaces d1 @ [own_workspace dr body]\<rparr>)) (\<lambda>d2.
     commit (ad_fault dr) (d2\<lparr>memberships := memberships d2 @ [own_membership dr]\<rparr>)))"

definition sub_claim :: "uuid \<Rightarrow> dict" where
  "sub_claim uid = [(''sub'', JStr (uuid_str uid))]"

definition register :: "('s, 't) auth_env \<Rightarrow> auth_draw \<Rightarrow> user_create \<Rightarrow> 's option \<Rightarrow> db \<Rightarrow>
    't token_response res \<times> 's option \<times> db" where
  "register E dr body redis d =
     (let (limited, redis') = check_auth_rate_limit E (ad_now dr) (ad_client dr) (uc_email body) ''register'' redis
      in case limited of
           Inl e \<Rightarrow> (Inl e, redis', d)
         | Inr u \<Rightarrow>
             if length (uc_password body) < 8
             then (Inl (HTTPException 400 ''password must be at least 8 characters''), redis', d)
             else if by_key u_email (normalize_email (uc_email body)) (users d) \<noteq> None
             then (Inl (HTTPException 409 ''email already registered''), redis', d)
             else (case create_account E dr body d of
                     Inl e \<Rightarrow> (Inl e, redis', d)
                   | Inr d' \<Rightarrow>
                       (Inr (token_answer (create_access_token E (ad_now dr) (ad_jti dr) (sub_claim (ad_user_id dr)) None)
                               (new_user E dr body)), redis', d')))"

definition login :: "('s, 't) auth_env \<Rightarrow> auth_draw \<Rightarrow> login_request \<Rightarrow> 's option \<Rightarrow> db \<Rightarrow>
    't token_response res \<times> 's option" where
  "login E dr body redis d =
     (let (limited, redis') = check_auth_rate_limit E (ad_now dr) (ad_client dr) (lr_email body) ''login'' redis
      in (bind_res limited (\<lambda>_.
            case by_key u_email (normalize_email (lr_email body)) (users d) of
              None \<Rightarrow> Inl (HTTPException 401 ''invalid email or password'')
            | Some user \<Rightarrow>
                bind_res (verify_password E (lr_password body) (u_password_hash user)) (\<lambda>same.
                  if \<not> same then Inl (HTTPException 401 ''invalid email or password'')
                  else if \<not> u_is_active user then Inl (HTTPException 403 ''account is disabled'')
                  else Inr (token_answer (create_access_token E (ad_now dr) (ad_jti dr) (sub_claim (u_id user)) None) user))),
          redis'))"

text \<open>\<open>/me\<close>.\<close>

definition me_view :: "('s, 't) auth_env \<Rightarrow> time \<Rightarrow> 't \<Rightarrow> 's option \<Rightarrow> db \<Rightarrow> user_out res" where
  "me_view E now token redis d = bind_res (get_current_user E now token redis d) (\<lambda>user. Inr (user_view user))"

text \<open>\<open>int(x)\<close> cuts towards zero.  The key lives for the whole seconds left of the token.\<close>

definition py_int :: "rat \<Rightarrow> int" where
  "py_int x = (if 0 \<le> x then \<lfloor>x\<rfloor> else \<lceil>x\<rceil>)"

definition logout :: "('s, 't) auth_env \<Rightarrow> time \<Rightarrow> 't \<Rightarrow> 's option \<Rightarrow> db \<Rightarrow> unit res \<times> 's option" where
  "logout E now token redis d =
     (case bind_res (get_current_user E now token redis d) (\<lambda>_. decode_access_token E now token) of
        Inl e \<Rightarrow> (Inl e, redis)
      | Inr payload \<Rightarrow>
          (let jti = dict_get payload ''jti'' JNull
           in case dict_get payload ''exp'' JNull of
                JInt x \<Rightarrow>
                  (let ttl = py_int (of_int x - now)
                   in if truthy jti \<and> x \<noteq> 0 \<and> 0 < ttl
                      then (case get_redis redis of
                              Inl e \<Rightarrow> (Inr (), redis)
                            | Inr s \<Rightarrow> (Inr (), Some (op_set_ex (ae_redis E) now (revoked_key jti) (RStr ''1'') ttl s)))
                      else (Inr (), redis))
              | _ \<Rightarrow> (Inr (), redis)))"

lemma token_answer_parts [simp]:
  "tk_access_token (token_answer token user) = token" "tk_user (token_answer token user) = user_view user"
  "uo_id (user_view user) = u_id user"
  by (simp_all add: token_answer_def user_view_def)

section \<open>A reference token codec\<close>

definition ref_encode :: "string \<Rightarrow> dict \<Rightarrow> string \<times> dict" where
  "ref_encode secret claims = (secret, claims)"

definition ref_decode :: "time \<Rightarrow> string \<Rightarrow> string \<times> dict \<Rightarrow> dict res" where
  "ref_decode now secret token =
     (if fst token \<noteq> secret then Inl (OtherError ''JWTError'' ''Signature verification failed.'')
      else case map_of (snd token) ''exp'' of
             Some (JInt x) \<Rightarrow> if x < \<lfloor>now\<rfloor> then Inl (OtherError ''ExpiredSignatureError'' ''Signature has expired.'')
                            else Inr (snd token)
           | _ \<Rightarrow> Inr (snd token))"

interpretation ref_jwt: jwt_codec ref_encode ref_decode
  by unfold_locales (auto simp: ref_encode_def ref_decode_def jwt_errors_def)

section \<open>Lemmas on tokens\<close>

definition expiry :: "('s, 't) auth_env \<Rightarrow> time \<Rightarrow> int" where
  "expiry E now = \<lfloor>now + of_int (jwt_expire_minutes (ae_cfg E) * 60)\<rfloor>"

definition issued_claims :: "('s, 't) auth_env \<Rightarrow> time \<Rightarrow> uuid \<Rightarrow> uuid \<Rightarrow> dict" where
  "issued_claims E now jti uid =
     dict_set ''jti'' (JStr (uuid_str jti))
       (dict_set ''exp'' (JInt (expiry E now)) (sub_claim uid))"

lemma issued_token:
  "create_access_token E now jti (sub_claim uid) None =
     ae_encode E (jwt_secret_key (ae_cfg E)) (issued_claims E now jti uid)"
  by (simp add: create_access_token_def issued_claims_def expiry_def)

lemma issued_lookups:
  "map_of (issued_claims E now jti uid) ''sub'' = Some (JStr (uuid_str uid))"
  "map_of (issued_claims E now jti uid) ''jti'' = Some (JStr (uuid_str jti))"
  "map_of (issued_claims E now jti uid) ''exp'' = Some (JInt (expiry E now))"
  by (simp_all add: issued_claims_def sub_claim_def)

lemma uuid_str_nonempty [simp]: "uuid_str u \<noteq> []"
  using length_uuid_str [of u] by (metis list.size(3) zero_neq_numeral)

lemma decode_issued:
  assumes "jwt_codec (ae_encode E) (ae_decode E)"
  shows "\<lfloor>t\<rfloor> \<le> (expiry E now) \<Longrightarrow>
      decode_access_token E t (create_access_token E now jti (sub_claim uid) None) = Inr (issued_claims E now jti uid)"
    and "(expiry E now) < \<lfloor>t\<rfloor> \<Longrightarrow>
      decode_access_token E t (create_access_token E now jti (sub_claim uid) None) =
        Inl (HTTPException 401 ''invalid or expired token'')"
proof -
  assume "\<lfloor>t\<rfloor> \<le> (expiry E now)"
  note live = jwt_codec.decode_live [OF assms issued_lookups(3) this, where secret = "jwt_secret_key (ae_cfg E)"]
  show "decode_access_token E t (create_access_token E now jti (sub_claim uid) None) = Inr (issued_claims E now jti uid)"
    by (simp add: decode_access_token_def issued_token live)
next
  assume "(expiry E now) < \<lfloor>t\<rfloor>"
  then obtain name msg where "ae_decode E t (jwt_secret_key (ae_cfg E))
      (ae_encode E (jwt_secret_key (ae_cfg E)) (issued_claims E now jti uid)) = Inl (OtherError name msg)"
    "name \<in> set jwt_errors"
    using jwt_codec.decode_expired [OF assms issued_lookups(3)] by metis
  then show "decode_access_token E t (create_access_token E now jti (sub_claim uid) None) =
      Inl (HTTPException 401 ''invalid or expired token'')"
    by (simp add: decode_access_token_def issued_token)
qed

lemma current_user_issued:
  assumes "jwt_codec (ae_encode E) (ae_decode E)"
    and "\<lfloor>t\<rfloor> \<le> (expiry E now)"
  shows "get_current_user E t (create_access_token E now jti (sub_claim uid) None) redis d =
    bind_res (check_revoked E t (JStr (uuid_str jti)) redis) (\<lambda>_.
      case by_key u_id uid (users d) of
        None \<Rightarrow> Inl (HTTPException 401 ''user not found or inactive'')
      | Some user \<Rightarrow> if u_is_active user then Inr user else Inl (HTTPException 401 ''user not found or inactive''))"
  unfolding get_current_user_def decode_issued(1) [OF assms]
  by (simp add: dict_get_def issued_lookups json_uuid_def)

lemma revoked_key_str: "revoked_key (JStr s) = ''revoked:jti:'' @ s"
  by (simp add: revoked_key_def)

lemma logout_issued:
  assumes "jwt_codec (ae_encode E) (ae_decode E)"
    and "logout E t (create_access_token E now jti (sub_claim uid) None) (Some s) d = (Inr (), redis')"
    and "0 < \<lfloor>of_int (expiry E now) - t\<rfloor>" (is "0 < ?ttl")
    and "(expiry E now) \<noteq> 0" (is "?x \<noteq> 0")
  shows "redis' = Some (op_set_ex (ae_redis E) t (revoked_key (JStr (uuid_str jti))) (RStr ''1'') ?ttl s)"
proof -
  have "0 \<le> of_int ?x - t"
    using assms(3) by (simp only: zero_less_floor)
  then have ttl: "py_int (of_int ?x - t) = ?ttl"
    by (simp add: py_int_def)
  have "t \<le> of_int ?x"
    using \<open>0 \<le> of_int ?x - t\<close> by simp
  then have "\<lfloor>t\<rfloor> \<le> ?x"
    by (metis floor_mono floor_of_int)
  note dec = decode_issued(1) [OF assms(1) this, where jti = jti and uid = uid]
  show ?thesis
    using assms(2-4) ttl
    by (auto simp: logout_def dec bind_res_def dict_get_def issued_lookups get_redis_def Let_def split: sum.splits)
qed

section \<open>Lemmas on slugs\<close>

lemma slugify_chars: "c \<in> set (slugify name) \<Longrightarrow> slug_char c"
  by (auto simp: slugify_def Let_def slug_char_def is_digit_def dest!: in_set_takeD split: if_splits)

lemma slugify_length: "1 \<le> length (slugify name) \<and> length (slugify name) \<le> 63"
  by (auto simp: slugify_def Let_def Suc_le_eq)

lemma slugify_prefix:
  assumes "63 \<le> length (filter slug_char (replace_char CHR '' '' CHR ''-'' (py_lower name)))"
  shows "slugify (name @ a) = slugify (name @ b)"
  using assms by (simp add: slugify_def Let_def replace_char_def)

section \<open>Properties\<close>


text \<open>
  C25: logout revokes.  After a logout with a token that still has at least a second to live, the same
  token is refused as revoked at every instant until the revocation entry expires, the whole number of
  seconds that the token had left.
\<close>
theorem logout_revokes:
  assumes "jwt_codec (ae_encode E) (ae_decode E)" and "redis_store (ae_redis E) view"
    and "token = create_access_token E now jti (sub_claim uid) None"
    and "x = (expiry E now)" and "x \<noteq> 0" and "0 < \<lfloor>of_int x - t\<rfloor>"
    and "logout E t token (Some s) d = (Inr (), Some s')"
    and "t \<le> t'" and "t' < t + of_int \<lfloor>of_int x - t\<rfloor>"
  shows "get_current_user E t' token (Some s') d' = Inl (HTTPException 401 ''token has been revoked'')"
proof -
  let ?key = "revoked_key (JStr (uuid_str jti))"
  have s': "s' = op_set_ex (ae_redis E) t ?key (RStr ''1'') \<lfloor>of_int x - t\<rfloor> s"
    using logout_issued [OF assms(1)] assms(3-7) by blast
  have entry: "view s' t ?key = Some (RStr ''1'', Some (t + of_int \<lfloor>of_int x - t\<rfloor>))"
    unfolding s' by (simp add: redis_store.set_ex [OF assms(2) assms(6)])
  have "view s' t' ?key \<noteq> None"
    using redis_store.later_live [OF assms(2) entry assms(8,9)] by simp
  then have rev: "check_revoked E t' (JStr (uuid_str jti)) (Some s') = Inl (HTTPException 401 ''token has been revoked'')"
    using redis_store.exists [OF assms(2)] by (simp add: check_revoked_def get_redis_def)
  have "of_int \<lfloor>of_int x - t\<rfloor> \<le> of_int x - t"
    by (rule of_int_floor_le)
  then have "t' \<le> of_int x"
    using assms(9) by linarith
  then have "\<lfloor>t'\<rfloor> \<le> x"
    by (metis floor_mono floor_of_int)
  then show ?thesis
    using current_user_issued [OF assms(1), of t' now jti uid "Some s'" d'] assms(3,4) rev by simp
qed

text \<open>
  Logout is not final.  The revocation entry is gone before the token is: half a second after the
  instant of its \<open>exp\<close> claim, a token that was logged out resolves to its user again.
\<close>
theorem logout_not_final:
  assumes "jwt_codec (ae_encode E) (ae_decode E)" and "redis_store (ae_redis E) view"
    and "token = create_access_token E now jti (sub_claim uid) None"
    and "x = (expiry E now)" and "x \<noteq> 0" and "0 < \<lfloor>of_int x - t\<rfloor>"
    and "logout E t token (Some s) d = (Inr (), Some s')"
    and "by_key u_id uid (users d') = Some user" and "u_is_active user"
  shows "get_current_user E (of_int x + 1 / 2) token (Some s') d' = Inr user"
proof -
  let ?key = "revoked_key (JStr (uuid_str jti))" and ?t = "of_int x + 1 / 2 :: rat"
  have s': "s' = op_set_ex (ae_redis E) t ?key (RStr ''1'') \<lfloor>of_int x - t\<rfloor> s"
    using logout_issued [OF assms(1)] assms(3-7) by blast
  have entry: "view s' t ?key = Some (RStr ''1'', Some (t + of_int \<lfloor>of_int x - t\<rfloor>))"
    unfolding s' by (simp add: redis_store.set_ex [OF assms(2) assms(6)])
  have le: "of_int \<lfloor>of_int x - t\<rfloor> \<le> of_int x - t"
    by (rule of_int_floor_le)
  have "0 \<le> of_int x - t"
    using assms(6) by (simp only: zero_less_floor)
  with le have "t \<le> ?t" "t + of_int \<lfloor>of_int x - t\<rfloor> < ?t"
    by linarith+
  then have "view s' ?t ?key = None"
    by (rule redis_store.later_dead [OF assms(2) entry])
  then have rev: "check_revoked E ?t (JStr (uuid_str jti)) (Some s') = Inr ()"
    using redis_store.exists [OF assms(2)] by (simp add: check_revoked_def get_redis_def)
  have "\<lfloor>?t\<rfloor> \<le> x"
    by (simp add: floor_eq_iff)
  then show ?thesis
    using current_user_issued [OF assms(1), of ?t now jti uid "Some s'" d'] assms(3,4,8,9) rev by simp
qed

section \<open>The order of the roles\<close>

text \<open>The roles of \<open>ROLE_HIERARCHY\<close> as a linearly ordered type, and the name each has in a row.\<close>

datatype role = Viewer | Member | Admin | Owner

fun role_rank :: "role \<Rightarrow> int" where
  "role_rank Viewer = 0"
| "role_rank Member = 1"
| "role_rank Admin = 2"
| "role_rank Owner = 3"

instantiation role :: linorder
begin

definition less_eq_role :: "role \<Rightarrow> role \<Rightarrow> bool" where
  "less_eq_role r s = (role_rank r \<le> role_rank s)"

definition less_role :: "role \<Rightarrow> role \<Rightarrow> bool" where
  "less_role r s = (role_rank r < role_rank s)"

instance
proof
  fix r s :: role
  show "r \<le> s \<Longrightarrow> s \<le> r \<Longrightarrow> r = s"
    by (cases r; cases s) (simp_all add: less_eq_role_def)
qed (auto simp: less_eq_role_def less_role_def)

end

definition role_of :: "string \<Rightarrow> role option" where
  "role_of name = map_of [(''viewer'', Viewer), (''member'', Member), (''admin'', Admin), (''owner'', Owner)] name"

lemma role_level_rank: "role_level name dflt = (case role_of name of Some r \<Rightarrow> role_rank r | None \<Rightarrow> dflt)"
  by (simp add: role_level_def role_of_def)

lemma role_rank_bounds: "0 \<le> role_rank r \<and> role_rank r \<le> 3"
  by (cases r) simp_all

text \<open>\<open>check_role\<close> compares in the order of the roles; a membership with an unknown role never passes.\<close>

lemma check_role_iff:
  assumes "role_of minimum = Some least"
  shows "check_role minimum m = Inr m' \<longleftrightarrow> m' = m \<and> (\<exists>role. role_of (mb_role m) = Some role \<and> least \<le> role)"
  using assms role_rank_bounds [of least]
  by (auto simp: check_role_def role_level_rank less_eq_role_def split: option.split)

text \<open>
  C13: the role gate, exactly.  The dependency \<open>require_workspace_role\<close> returns a membership if and
  only if the token decodes to a stored, active user, the path names a workspace, the membership is
  the one stored for this user and workspace, and its role is the minimum or one above it in the order
  viewer, member, admin, owner.  A role outside this order opens nothing.
\<close>
theorem role_gate_sound:
  assumes "role_of minimum = Some least"
  shows "require_workspace_role E minimum now token workspace_id redis d = Inr m \<longleftrightarrow>
    (\<exists>user ws role. get_current_user E now token redis d = Inr user \<and> user \<in> set (users d) \<and> u_is_active user \<and>
      uuid_parse workspace_id = Inr ws \<and> by_key mb_key (u_id user, ws) (memberships d) = Some m \<and>
      role_of (mb_role m) = Some role \<and> least \<le> role)"
proof -
  have stored: "user \<in> set (users d) \<and> u_is_active user" if "get_current_user E now token redis d = Inr user" for user
    using that by (auto simp: get_current_user_def bind_res_eq_Inr Let_def split: if_splits option.splits dest: by_key_Some)
  have row: "get_workspace_membership d workspace_id user = Inr m \<longleftrightarrow>
      (\<exists>ws. uuid_parse workspace_id = Inr ws \<and> by_key mb_key (u_id user, ws) (memberships d) = Some m)" for user
    by (auto simp: get_workspace_membership_def split: sum.splits option.splits)
  show ?thesis
    unfolding require_workspace_role_def bind_res_eq_Inr check_role_iff [OF assms]
    using stored row by blast
qed

text \<open>
  Registration.  If it succeeds, the password had at least eight characters, nobody had the
  normalised address before, and the transaction added exactly one active user with that address and
  the hash of the password, one workspace, and the membership that makes the user its owner; the
  database still satisfies its constraints, and the new user's membership is found.
\<close>
theorem register_creates_account:
  assumes "register E dr body redis d = (Inr out, redis', d')"
  shows "\<exists>user. 8 \<le> length (uc_password body) \<and> normalize_email (uc_email body) \<notin> u_email ` set (users d) \<and>
    tk_user out = user_view user \<and> u_email user = normalize_email (uc_email body) \<and> u_is_active user \<and>
    u_password_hash user = hash_password E (ad_salt dr) (uc_password body) \<and> db_ok d' \<and>
    d' = d\<lparr>users := users d @ [user], workspaces := workspaces d @ [own_workspace dr body],
           memberships := memberships d @ [own_membership dr]\<rparr> \<and>
    get_workspace_membership d' (uuid_str (ad_workspace_id dr)) user = Inr (own_membership dr) \<and>
    mb_role (own_membership dr) = ''owner''"
proof -
  have parts: "8 \<le> length (uc_password body)" "by_key u_email (normalize_email (uc_email body)) (users d) = None"
    "create_account E dr body d = Inr d'" "tk_user out = user_view (new_user E dr body)"
    using assms by (auto simp: register_def Let_def token_answer_def split: prod.splits sum.splits if_splits)
  let ?user = "new_user E dr body"
  have d': "db_ok d'" "d' = d\<lparr>users := users d @ [?user], workspaces := workspaces d @ [own_workspace dr body],
      memberships := memberships d @ [own_membership dr]\<rparr>"
    using parts(3) by (auto simp: create_account_def bind_res_eq_Inr commit_ok)
  have keyed: "keyed mb_key (memberships d')" and mem: "own_membership dr \<in> set (memberships d')"
    using d' by (simp_all add: db_ok_def integrity_def)
  have "by_key mb_key (u_id ?user, ad_workspace_id dr) (memberships d') = Some (own_membership dr)"
    using by_key_in [OF keyed mem] by (simp add: own_membership_def new_user_def)
  then show ?thesis
    using parts d' by (intro exI [of _ ?user]) (simp add: by_key_None get_workspace_membership_def new_user_def own_membership_def)
qed

text \<open>
  Slugs.  Every slug consists of 1 to 63 lower-case letters, digits and hyphens; but the cut at 63
  loses what is meant to make it unique: two names that agree on 63 kept characters and differ only in
  the identifier appended to them get the same slug.
\<close>
theorem slug_shape_and_collision:
  "1 \<le> length (slugify name) \<and> length (slugify name) \<le> 63 \<and>
   set (slugify name) \<subseteq> set ''abcdefghijklmnopqrstuvwxyz0123456789-'' \<and>
   (63 \<le> length (filter slug_char (replace_char CHR '' '' CHR ''-'' (py_lower base))) \<longrightarrow>
      slugify (base @ ''-'' @ uuid_str u1) = slugify (base @ ''-'' @ uuid_str u2))"
proof -
  have "c \<in> set ''abcdefghijklmnopqrstuvwxyz0123456789-''" if "slug_char c" for c
  proof -
    have c: "c = char_of (ch c)" by (simp add: ch_def)
    have "ch c \<in> set ([97..<123] @ [48..<58] @ [45])"
    proof (cases "c = CHR ''-''")
      case False
      with that have "97 \<le> ch c \<and> ch c < 123 \<or> 48 \<le> ch c \<and> ch c < 58"
        by (auto simp: slug_char_def is_digit_def)
      then show ?thesis
        unfolding set_append set_upt Un_iff atLeastLessThan_iff by blast
    qed simp
    then have mem: "char_of (ch c) \<in> set (map char_of ([97..<123] @ [48..<58] @ [45::nat]))"
      unfolding set_map by (rule imageI)
    have eq: "set (map char_of ([97..<123] @ [48..<58] @ [45::nat])) = set ''abcdefghijklmnopqrstuvwxyz0123456789-''"
      by (simp add: upt_rec char_of_def bit_0)
    show ?thesis
      by (subst c) (rule mem [unfolded eq])
  qed
  then show ?thesis
    using slugify_length [of name] slugify_chars [of _ name] slugify_prefix [of base] by blast
qed

lemma length_peppered [simp]: "length (peppered_password E password) = 64"
  by (simp add: peppered_password_def)

text \<open>
  Passwords reach bcrypt whole.  Whatever the password and the pepper, what is hashed and checked is
  64 lower-case hexadecimal digits: within the 72 bytes that bcrypt reads, and without a zero byte.
\<close>
theorem peppered_password_fits_bcrypt:
  "length (peppered_password E password) = 64 \<and> set (peppered_password E password) \<subseteq> set ''0123456789abcdef''"
  using hmac_hex unfolding hex_digits_def peppered_password_def by blast

section \<open>Closed examples\<close>

definition ex_auth :: "(ref_state, string \<times> dict) auth_env" where
  "ex_auth = \<lparr>ae_redis = ref_redis, ae_cfg = default_settings, ae_hashpw = (\<lambda>p s. s @ p),
     ae_checkpw = (\<lambda>p h. Inr (h = ''salt'' @ p)), ae_encode = ref_encode, ae_decode = ref_decode\<rparr>"

definition ex_auth_draw :: auth_draw where
  "ex_auth_draw = \<lparr>ad_now = 1000, ad_client = None, ad_user_id = 1, ad_workspace_id = 2, ad_jti = 3,
     ad_salt = ''salt'', ad_fault = None\<rparr>"

definition ex_user :: user_row where
  "ex_user = \<lparr>u_id = 1, u_email = ''a@b.c'', u_display_name = ''Ann'', u_password_hash = ''salt'' @ peppered_password ex_auth ''password'',
     u_is_active = True, u_created_at = 0, u_updated_at = 0\<rparr>"

definition ex_auth_db :: db where
  "ex_auth_db = empty_db\<lparr>users := [ex_user],
     memberships := [\<lparr>mb_user_id = 1, mb_workspace_id = 2, mb_role = ''admin'', mb_joined_at = 0\<rparr>]\<rparr>"

lemma ex_codec: "jwt_codec (ae_encode ex_auth) (ae_decode ex_auth)"
  using ref_jwt.jwt_codec_axioms by (simp add: ex_auth_def)

lemma ex_redis: "redis_store (ae_redis ex_auth) ref_view"
  using ref.redis_store_axioms by (simp add: ex_auth_def)

lemma ex_email: "normalize_email ''a@b.c'' = ''a@b.c''"
  by (simp add: normalize_email_def py_strip_def py_lstrip_def py_rstrip_def is_space_def py_lower_def lower_char_def)

lemma ex_find [simp]:
  "by_key u_email ''a@b.c'' (users ex_auth_db) = Some ex_user" "by_key u_id 1 (users ex_auth_db) = Some ex_user"
  by (simp_all add: by_key_def ex_auth_db_def ex_user_def)

lemma ex_login:
  "login ex_auth ex_auth_draw \<lparr>lr_email = ''a@b.c'', lr_password = ''password''\<rparr> None ex_auth_db =
     (Inr (token_answer (create_access_token ex_auth 1000 3 (sub_claim 1) None) ex_user), None)"
  by (simp add: login_def check_auth_rate_limit_def get_redis_def ex_email verify_password_def peppered_password_def)
    (simp add: ex_auth_def ex_user_def ex_auth_draw_def peppered_password_def)

lemma ex_expiry: "expiry ex_auth 1000 = 87400"
  by (simp add: expiry_def ex_auth_def default_settings_def)


lemma ex_logout:
  "\<exists>s'. logout ex_auth 5000 (create_access_token ex_auth 1000 3 (sub_claim 1) None) (Some Map.empty) ex_auth_db = (Inr (), Some s')"
proof -
  have "get_current_user ex_auth 5000 (create_access_token ex_auth 1000 3 (sub_claim 1) None) (Some Map.empty) ex_auth_db = Inr ex_user"
    using current_user_issued [OF ex_codec, of 5000 1000 3 1 "Some Map.empty" ex_auth_db]
    by (simp add: ex_expiry check_revoked_def get_redis_def) (simp add: ex_auth_def ref_redis_def ref_view_def ex_user_def)
  then show ?thesis
    using decode_issued(1) [OF ex_codec, of 5000 1000 3 1]
    by (simp add: logout_def ex_expiry dict_get_def issued_lookups get_redis_def Let_def)
qed

theorem logout_revokes_witness:
  "\<exists>s'. get_current_user ex_auth 6000 (create_access_token ex_auth 1000 3 (sub_claim 1) None) (Some s') ex_auth_db =
     Inl (HTTPException 401 ''token has been revoked'')"
proof -
  obtain s' where out: "logout ex_auth 5000 (create_access_token ex_auth 1000 3 (sub_claim 1) None) (Some Map.empty) ex_auth_db =
      (Inr (), Some s')"
    using ex_logout by blast
  show ?thesis
    using logout_revokes [OF ex_codec ex_redis refl refl _ _ out, of 6000 ex_auth_db] by (auto simp: ex_expiry)
qed

theorem logout_not_final_witness:
  "\<exists>s'. logout ex_auth 5000 (create_access_token ex_auth 1000 3 (sub_claim 1) None) (Some Map.empty) ex_auth_db = (Inr (), Some s') \<and>
     get_current_user ex_auth (87400 + 1 / 2) (create_access_token ex_auth 1000 3 (sub_claim 1) None) (Some s') ex_auth_db = Inr ex_user"
proof -
  obtain s' where out: "logout ex_auth 5000 (create_access_token ex_auth 1000 3 (sub_claim 1) None) (Some Map.empty) ex_auth_db =
      (Inr (), Some s')"
    using ex_logout by blast
  have "u_is_active ex_user" by (simp add: ex_user_def)
  then show ?thesis
    using logout_not_final [OF ex_codec ex_redis refl refl _ _ out, of ex_auth_db ex_user] out by (auto simp: ex_expiry)
qed

theorem role_gate_sound_witness:
  "\<exists>m. require_workspace_role ex_auth ''member'' 2000 (create_access_token ex_auth 1000 3 (sub_claim 1) None) (uuid_str 2)
       None ex_auth_db = Inr m \<and> m \<in> set (memberships ex_auth_db)"
proof -
  have "get_current_user ex_auth 2000 (create_access_token ex_auth 1000 3 (sub_claim 1) None) None ex_auth_db = Inr ex_user"
    using current_user_issued [OF ex_codec, of 2000 1000 3 1 None ex_auth_db]
    by (simp add: ex_expiry check_revoked_def get_redis_def) (simp add: ex_user_def)
  then have "\<exists>m. require_workspace_role ex_auth ''member'' 2000 (create_access_token ex_auth 1000 3 (sub_claim 1) None)
      (uuid_str 2) None ex_auth_db = Inr m"
    by (simp add: require_workspace_role_def get_workspace_membership_def by_key_def ex_auth_db_def ex_user_def
        check_role_def role_level_def)
  then obtain m where gate: "require_workspace_role ex_auth ''member'' 2000 (create_access_token ex_auth 1000 3 (sub_claim 1) None)
      (uuid_str 2) None ex_auth_db = Inr m" by blast
  have "role_of ''member'' = Some Member" by (simp add: role_of_def)
  from role_gate_sound [OF this, of ex_auth 2000] gate show ?thesis
    using by_key_Some [of mb_key _ "memberships ex_auth_db" m] by blast
qed

definition ex_body :: user_create where
  "ex_body = \<lparr>uc_email = ''a@b.c'', uc_password = ''password'', uc_display_name = ''Ann''\<rparr>"

lemma ex_register:
  "\<exists>out d. register ex_auth ex_auth_draw ex_body None empty_db = (Inr out, None, d)"
proof -
  have "length (slugify n) \<le> 255" for n using slugify_length [of n] by linarith
  then show ?thesis
    by (simp add: register_def check_auth_rate_limit_def get_redis_def ex_body_def by_key_def empty_db_def
        create_account_def commit_def fits_def integrity_def keyed_def refers_def fits_user_def fits_workspace_def
        fits_membership_def short_def new_user_def own_workspace_def own_membership_def ex_auth_draw_def ex_email
        hash_password_def peppered_password_def ex_auth_def)
qed

theorem register_creates_account_witness:
  "\<exists>out d. register ex_auth ex_auth_draw ex_body None empty_db = (Inr out, None, d) \<and> db_ok d"
  using ex_register register_creates_account by meson

theorem slug_shape_and_collision_witness:
  "slugify (replicate 63 CHR ''a'' @ ''-'' @ uuid_str 1) = slugify (replicate 63 CHR ''a'' @ ''-'' @ uuid_str 2)"
proof -
  have "filter slug_char (replace_char CHR '' '' CHR ''-'' (py_lower (replicate 63 CHR ''a''))) = replicate 63 CHR ''a''"
    by (simp add: py_lower_def lower_char_def replace_char_def slug_char_def)
  then show ?thesis
    using slug_shape_and_collision [of "[]" "replicate 63 CHR ''a''" 1 2] by (simp only: length_replicate)
qed

end
