(* ===== verification/Workspaces_Api.thy ===== *)
theory Workspaces_Api
  imports Auth
begin

text \<open>
  The workspace endpoints of \<open>app/api/workspaces.py\<close>.  A call carries the instant, the token and
  the workspace of the path; its answer comes with the database after it.  Loading the relationship
  \<open>membership.workspace\<close> of a row whose session is closed is a parameter, because it is
  SQLAlchemy's decision.
\<close>

section \<open>Calls\<close>

record 't api_call =
  ac_now :: time
  ac_token :: 't
  ac_workspace_id :: string
  ac_fault :: "exc option"

definition with_role :: "('s, 't) auth_env \<Rightarrow> string \<Rightarrow> 't api_call \<Rightarrow> 's option \<Rightarrow> db \<Rightarrow>
    (membership_row \<Rightarrow> 'a res \<times> db) \<Rightarrow> 'a res \<times> db" where
  "with_role E minimum call redis d f =
     (case require_workspace_role E minimum (ac_now call) (ac_token call) (ac_workspace_id call) redis d of
        Inl e \<Rightarrow> (Inl e, d)
      | Inr m \<Rightarrow> f m)"

definition finish :: "exc option \<Rightarrow> db \<Rightarrow> db \<Rightarrow> 'a \<Rightarrow> 'a res \<times> db" where
  "finish fault before after answer =
     (case commit fault after of Inl e \<Rightarrow> (Inl e, before) | Inr d \<Rightarrow> (Inr answer, d))"

definition parse_id :: "string \<Rightarrow> string \<Rightarrow> uuid res" where
  "parse_id value label =
     (case uuid_parse value of
        Inl e \<Rightarrow> Inl (HTTPException 400 (''invalid '' @ label @ '' format''))
      | Inr u \<Rightarrow> Inr u)"

definition or_fail :: "'a res \<Rightarrow> db \<Rightarrow> ('a \<Rightarrow> 'b res \<times> db) \<Rightarrow> 'b res \<times> db" where
  "or_fail r d f = (case r of Inl e \<Rightarrow> (Inl e, d) | Inr x \<Rightarrow> f x)"

text \<open>\<open>WorkspaceOut\<close> and \<open>WorkspaceMembershipOut\<close>.\<close>

record workspace_out =
  wo_id :: uuid
  wo_name :: string
  wo_slug :: string
  wo_created_at :: time
  wo_role :: string

record member_out =
  mo_user_id :: uuid
  mo_workspace_id :: uuid
  mo_role :: string
  mo_joined_at :: time
  mo_email :: "string option"
  mo_display_name :: "string option"

definition workspace_view :: "workspace_row \<Rightarrow> string \<Rightarrow> workspace_out" where
  "workspace_view ws role =
     \<lparr>wo_id = ws_id ws, wo_name = ws_name ws, wo_slug = ws_slug ws, wo_created_at = ws_created_at ws, wo_role = role\<rparr>"

definition member_view :: "membership_row \<Rightarrow> user_row option \<Rightarrow> member_out" where
  "member_view m user =
     \<lparr>mo_user_id = mb_user_id m, mo_workspace_id = mb_workspace_id m, mo_role = mb_role m,
      mo_joined_at = mb_joined_at m, mo_email = map_option u_email user,
      mo_display_name = map_option u_display_name user\<rparr>"

section \<open>Workspaces\<close>

definition list_workspaces :: "user_row \<Rightarrow> db \<Rightarrow> workspace_out list" where
  "list_workspaces user d =
     map (\<lambda>(ws, role). workspace_view ws role)
       (sort_key (\<lambda>(ws, role). - ws_created_at ws)
         (concat (map (\<lambda>ws. map (\<lambda>m. (ws, mb_role m))
            (filter (\<lambda>m. mb_workspace_id m = ws_id ws \<and> mb_user_id m = u_id user) (memberships d)))
          (workspaces d))))"

text \<open>The bodies \<open>WorkspaceCreate\<close>, \<open>WorkspaceUpdate\<close> and \<open>UpdateMemberRoleRequest\<close> are their only fields.\<close>

type_synonym workspace_create = string

type_synonym workspace_update = "string option"

type_synonym update_member_role_request = string

definition create_workspace :: "('s, 't) auth_env \<Rightarrow> 't api_call \<Rightarrow> uuid \<Rightarrow> workspace_create \<Rightarrow> 's option \<Rightarrow> db \<Rightarrow>
    workspace_out res \<times> db" where
  "create_workspace E call new_id name redis d =
     or_fail (get_current_user E (ac_now call) (ac_token call) redis d) d (\<lambda>user.
       let ws = \<lparr>ws_id = new_id, ws_name = name, ws_slug = slugify (name @ ''-'' @ uuid_str (u_id user)),
                 ws_created_at = ac_now call, ws_updated_at = ac_now call\<rparr>;
           m = \<lparr>mb_user_id = u_id user, mb_workspace_id = new_id, mb_role = ''owner'', mb_joined_at = ac_now call\<rparr>
       in or_fail (commit None (d\<lparr>workspaces := workspaces d @ [ws]\<rparr>)) d (\<lambda>d1.
            finish (ac_fault call) d (d1\<lparr>memberships := memberships d1 @ [m]\<rparr>) (workspace_view ws ''owner'')))"

type_synonym lazy_load = "membership_row \<Rightarrow> workspace_row res"

definition get_workspace :: "('s, 't) auth_env \<Rightarrow> lazy_load \<Rightarrow> 't api_call \<Rightarrow> 's option \<Rightarrow> db \<Rightarrow>
    workspace_out res \<times> db" where
  "get_workspace E lazy call redis d =
     with_role E ''viewer'' call redis d (\<lambda>m.
       or_fail (lazy m) d (\<lambda>ws. (Inr (workspace_view ws (mb_role m)), d)))"

text \<open>The object mapper writes a row, and its \<open>onupdate\<close> time, only if a column really changes.\<close>

definition renamed :: "time \<Rightarrow> string option \<Rightarrow> uuid \<Rightarrow> workspace_row \<Rightarrow> workspace_row" where
  "renamed now name i w =
     (case name of
        None \<Rightarrow> w
      | Some n \<Rightarrow> if ws_id w = i \<and> n \<noteq> ws_name w then w\<lparr>ws_name := n, ws_updated_at := now\<rparr> else w)"

definition update_workspace :: "('s, 't) auth_env \<Rightarrow> lazy_load \<Rightarrow> 't api_call \<Rightarrow> workspace_update \<Rightarrow> 's option \<Rightarrow> db \<Rightarrow>
    workspace_out res \<times> db" where
  "update_workspace E lazy call name redis d =
     with_role E ''admin'' call redis d (\<lambda>m.
       or_fail (lazy m) d (\<lambda>ws.
         let rename = renamed (ac_now call) name (ws_id ws)
         in finish (ac_fault call) d (d\<lparr>workspaces := map rename (workspaces d)\<rparr>)
              (workspace_view (rename ws) (mb_role m))))"

text \<open>
  Deleting a workspace takes its memberships with it, and by the declared cascades its endpoints
  and their routes; whatever still refers to those makes the commit fail.
\<close>

definition without_workspace :: "uuid \<Rightarrow> db \<Rightarrow> db" where
  "without_workspace ws d =
     (let gone = map ep_id (filter (\<lambda>e. ep_workspace_id e = ws) (endpoints d))
      in d\<lparr>workspaces := drop_row ws_id ws (workspaces d),
           memberships := drop_row mb_workspace_id ws (memberships d),
           endpoints := drop_row ep_workspace_id ws (endpoints d),
           routes := filter (\<lambda>r. rt_endpoint_id r \<notin> set gone) (routes d)\<rparr>)"

definition delete_workspace :: "('s, 't) auth_env \<Rightarrow> lazy_load \<Rightarrow> 't api_call \<Rightarrow> 's option \<Rightarrow> db \<Rightarrow> unit res \<times> db" where
  "delete_workspace E lazy call redis d =
     with_role E ''owner'' call redis d (\<lambda>m.
       or_fail (lazy m) d (\<lambda>ws. finish (ac_fault call) d (without_workspace (ws_id ws) d) ()))"

section \<open>Members\<close>

definition list_members :: "('s, 't) auth_env \<Rightarrow> 't api_call \<Rightarrow> 's option \<Rightarrow> db \<Rightarrow> member_out list res \<times> db" where
  "list_members E call redis d =
     with_role E ''viewer'' call redis d (\<lambda>me.
       (Inr (concat (map (\<lambda>m. map (\<lambda>u. member_view m (Some u)) (filter (\<lambda>u. u_id u = mb_user_id m) (users d)))
          (filter (\<lambda>m. mb_workspace_id m = mb_workspace_id me) (memberships d)))), d))"

definition granted_roles :: "string list" where
  "granted_roles = [''admin'', ''member'', ''viewer'']"

definition add_member :: "('s, 't) auth_env \<Rightarrow> 't api_call \<Rightarrow> string \<Rightarrow> string \<Rightarrow> 's option \<Rightarrow> db \<Rightarrow>
    member_out res \<times> db" where
  "add_member E call email role redis d =
     with_role E ''admin'' call redis d (\<lambda>me.
       if role \<notin> set granted_roles then (Inl (HTTPException 400 ''role must be admin, member, or viewer''), d)
       else case by_key u_email email (users d) of
              None \<Rightarrow> (Inl (HTTPException 404 ''user not found''), d)
            | Some user \<Rightarrow>
                if by_key mb_key (u_id user, mb_workspace_id me) (memberships d) \<noteq> None
                then (Inl (HTTPException 409 ''user is already a member''), d)
                else
                  let m = \<lparr>mb_user_id = u_id user, mb_workspace_id = mb_workspace_id me, mb_role = role,
                           mb_joined_at = ac_now call\<rparr>
                  in finish (ac_fault call) d (d\<lparr>memberships := memberships d @ [m]\<rparr>) (member_view m (Some user)))"

definition update_member_role :: "('s, 't) auth_env \<Rightarrow> 't api_call \<Rightarrow> string \<Rightarrow> update_member_role_request \<Rightarrow> 's option \<Rightarrow> db \<Rightarrow>
    member_out res \<times> db" where
  "update_member_role E call user_id role redis d =
     with_role E ''admin'' call redis d (\<lambda>me.
       if role \<notin> set granted_roles then (Inl (HTTPException 400 ''role must be admin, member, or viewer''), d)
       else or_fail (parse_id user_id ''user_id'') d (\<lambda>target.
         case by_key mb_key (target, mb_workspace_id me) (memberships d) of
           None \<Rightarrow> (Inl (HTTPException 404 ''membership not found''), d)
         | Some m \<Rightarrow>
             if mb_role m = ''owner'' then (Inl (HTTPException 403 ''cannot change owner role''), d)
             else
               let m' = m\<lparr>mb_role := role\<rparr>;
                   d' = d\<lparr>memberships := put_row mb_key m' (memberships d)\<rparr>
               in finish (ac_fault call) d d' (member_view m' (by_key u_id target (users d)))))"

definition remove_member :: "('s, 't) auth_env \<Rightarrow> 't api_call \<Rightarrow> string \<Rightarrow> 's option \<Rightarrow> db \<Rightarrow> unit res \<times> db" where
  "remove_member E call user_id redis d =
     with_role E ''admin'' call redis d (\<lambda>me.
       or_fail (parse_id user_id ''user_id'') d (\<lambda>target.
         case by_key mb_key (target, mb_workspace_id me) (memberships d) of
           None \<Rightarrow> (Inl (HTTPException 404 ''membership not found''), d)
         | Some m \<Rightarrow>
             if mb_role m = ''owner'' then (Inl (HTTPException 403 ''cannot remove owner''), d)
             else finish (ac_fault call) d
                    (d\<lparr>memberships := drop_row mb_key (target, mb_workspace_id me) (memberships d)\<rparr>) ()))"

section \<open>Every change of the members\<close>

text \<open>One operation that can change users, workspaces or memberships, on the database alone.\<close>

inductive member_step :: "('s, 't) auth_env \<Rightarrow> lazy_load \<Rightarrow> db \<Rightarrow> db \<Rightarrow> bool" for E lazy where
  st_register: "member_step E lazy d (snd (snd (register E dr body redis d)))"
| st_create: "member_step E lazy d (snd (create_workspace E call new_id name redis d))"
| st_update: "member_step E lazy d (snd (update_workspace E lazy call nm redis d))"
| st_delete: "member_step E lazy d (snd (delete_workspace E lazy call redis d))"
| st_add: "member_step E lazy d (snd (add_member E call email role redis d))"
| st_role: "member_step E lazy d (snd (update_member_role E call user_id role redis d))"
| st_remove: "member_step E lazy d (snd (remove_member E call user_id redis d))"

text \<open>The owners of a workspace.\<close>

definition owners :: "db \<Rightarrow> uuid \<Rightarrow> membership_row list" where
  "owners d ws = filter (\<lambda>m. mb_workspace_id m = ws \<and> mb_role m = ''owner'') (memberships d)"

definition one_owner :: "db \<Rightarrow> bool" where
  "one_owner d \<longleftrightarrow> db_ok d \<and> (\<forall>w \<in> set (workspaces d). length (owners d (ws_id w)) = 1)"

declare with_role_def [relay_defs] and or_fail_def [relay_defs]

lemma with_role_cases:
  "snd (with_role E minimum call redis d f) = d \<or>
   (\<exists>m. require_workspace_role E minimum (ac_now call) (ac_token call) (ac_workspace_id call) redis d = Inr m \<and>
        snd (with_role E minimum call redis d f) = snd (f m))"
  by (auto simp: with_role_def split: sum.splits)

lemma finish_cases: "snd (finish fault d d' x) = d \<or> snd (finish fault d d' x) = d' \<and> db_ok d'"
  by (auto simp: finish_def commit_ok split: sum.splits)

lemma or_fail_cases: "snd (or_fail r d f) = d \<or> (\<exists>x. r = Inr x \<and> snd (or_fail r d f) = snd (f x))"
  by (auto simp: or_fail_def split: sum.splits)

lemma commit_step: "commit None d = Inr d' \<Longrightarrow> d' = d \<and> db_ok d"
  by (simp add: commit_ok)

text \<open>The database an operation leaves is the old one, or a new one of the given form that satisfies the constraints.\<close>

lemma register_result:
  "snd (snd (register E dr body redis d)) = d \<or>
   (db_ok (snd (snd (register E dr body redis d))) \<and>
    snd (snd (register E dr body redis d)) =
      d\<lparr>users := users d @ [new_user E dr body], workspaces := workspaces d @ [own_workspace dr body],
        memberships := memberships d @ [own_membership dr]\<rparr>)"
  by (auto simp: register_def create_account_def Let_def bind_res_def commit_ok
      split: prod.splits sum.splits if_splits dest!: commit_step)

lemma create_result:
  "snd (create_workspace E call new_id name redis d) = d \<or>
   (\<exists>uid ws. ws_id ws = new_id \<and> db_ok (snd (create_workspace E call new_id name redis d)) \<and>
      snd (create_workspace E call new_id name redis d) =
        d\<lparr>workspaces := workspaces d @ [ws],
          memberships := memberships d @ [\<lparr>mb_user_id = uid, mb_workspace_id = new_id, mb_role = ''owner'', mb_joined_at = ac_now call\<rparr>]\<rparr>)"
  by (auto simp: create_workspace_def or_fail_def finish_def Let_def commit_ok split: sum.splits dest!: commit_step)
    (metis workspace_row.select_convs(1))

lemma renamed_id [simp]: "ws_id (renamed now name i w) = ws_id w"
  by (simp add: renamed_def split: option.split)

lemma update_result:
  "snd (update_workspace E lazy call nm redis d) = d \<or>
   (\<exists>now i. db_ok (snd (update_workspace E lazy call nm redis d)) \<and>
      snd (update_workspace E lazy call nm redis d) = d\<lparr>workspaces := map (renamed now nm i) (workspaces d)\<rparr>)"
  by (auto simp: update_workspace_def relay_defs finish_def Let_def commit_ok split: sum.splits)

lemma delete_result:
  "snd (delete_workspace E lazy call redis d) = d \<or>
   (\<exists>ws. db_ok (snd (delete_workspace E lazy call redis d)) \<and> snd (delete_workspace E lazy call redis d) = without_workspace ws d)"
  by (auto simp: delete_workspace_def relay_defs finish_def commit_ok split: sum.splits)

lemma add_result:
  "snd (add_member E call email role redis d) = d \<or>
   (\<exists>uid ws. role \<in> set granted_roles \<and> db_ok (snd (add_member E call email role redis d)) \<and>
      snd (add_member E call email role redis d) = d\<lparr>memberships := memberships d @
        [\<lparr>mb_user_id = uid, mb_workspace_id = ws, mb_role = role, mb_joined_at = ac_now call\<rparr>]\<rparr>)"
  by (auto simp: add_member_def with_role_def finish_def Let_def commit_ok split: sum.splits option.splits if_splits)

lemma role_result:
  "snd (update_member_role E call user_id role redis d) = d \<or>
   (\<exists>m. m \<in> set (memberships d) \<and> mb_role m \<noteq> ''owner'' \<and> role \<in> set granted_roles \<and>
      db_ok (snd (update_member_role E call user_id role redis d)) \<and>
      snd (update_member_role E call user_id role redis d) =
        d\<lparr>memberships := put_row mb_key (m\<lparr>mb_role := role\<rparr>) (memberships d)\<rparr>)"
  by (auto simp: update_member_role_def relay_defs finish_def Let_def commit_ok
      split: sum.splits option.splits if_splits dest!: by_key_Some)

lemma remove_result:
  "snd (remove_member E call user_id redis d) = d \<or>
   (\<exists>m. m \<in> set (memberships d) \<and> mb_role m \<noteq> ''owner'' \<and> db_ok (snd (remove_member E call user_id redis d)) \<and>
      snd (remove_member E call user_id redis d) = d\<lparr>memberships := drop_row mb_key (mb_key m) (memberships d)\<rparr>)"
  by (auto simp: remove_member_def relay_defs finish_def commit_ok
      split: sum.splits option.splits if_splits dest!: by_key_Some)

section \<open>One owner per workspace\<close>

lemma no_members_of_new:
  assumes "db_ok d" and "ws \<notin> ws_id ` set (workspaces d)"
  shows "filter (\<lambda>m. mb_workspace_id m = ws \<and> P m) (memberships d) = []"
  using assms by (auto simp: db_ok_def integrity_def refers_def list_all_iff filter_empty_conv)

lemma one_owner_new:
  assumes "one_owner d" and "db_ok d'" and "workspaces d' = workspaces d @ [ws]"
    and "memberships d' = memberships d @ [m]" and "mb_workspace_id m = ws_id ws" and "mb_role m = ''owner''"
  shows "one_owner d'"
proof -
  have new: "ws_id ws \<notin> ws_id ` set (workspaces d)"
    using assms(2,3) by (auto simp: db_ok_def integrity_def keyed_def)
  then have "filter (\<lambda>m. mb_workspace_id m = ws_id ws \<and> mb_role m = ''owner'') (memberships d) = []"
    using assms(1) by (intro no_members_of_new) (simp_all add: one_owner_def)
  then show ?thesis
    using assms new by (auto simp: one_owner_def owners_def)
qed

lemma filter_put_row:
  assumes "keyed f rows" "r \<in> set rows" "f r' = f r" "\<not> P r" "\<not> P r'"
  shows "filter P (put_row f r' rows) = filter P rows"
proof -
  have "\<not> P x" if "x \<in> set rows" "f x = f r" for x
    using that assms by (metis by_key_in option.inject)
  then show ?thesis
    using assms(3,5) by (induction rows) (auto simp: put_row_def)
qed

lemma filter_drop_row:
  assumes "keyed f rows" "r \<in> set rows" "\<not> P r"
  shows "filter P (drop_row f (f r) rows) = filter P rows"
proof -
  have "\<not> P x" if "x \<in> set rows" "f x = f r" for x
    using that assms by (metis by_key_in option.inject)
  then show ?thesis
    by (auto simp: drop_row_def intro!: filter_cong)
qed

lemma owners_without: "w \<noteq> ws \<Longrightarrow> owners (without_workspace ws d) w = owners d w"
  by (auto simp: owners_def without_workspace_def drop_row_def Let_def intro!: filter_cong)

lemma owners_put_row:
  assumes "db_ok d" "m \<in> set (memberships d)" "mb_role m \<noteq> ''owner''" "role \<noteq> ''owner''"
  shows "owners (d\<lparr>memberships := put_row mb_key (m\<lparr>mb_role := role\<rparr>) (memberships d)\<rparr>) w = owners d w"
proof -
  have "keyed mb_key (memberships d)" using assms(1) by (simp add: db_ok_def integrity_def)
  then have "filter (\<lambda>m. mb_workspace_id m = w \<and> mb_role m = ''owner'') (put_row mb_key (m\<lparr>mb_role := role\<rparr>) (memberships d)) =
      filter (\<lambda>m. mb_workspace_id m = w \<and> mb_role m = ''owner'') (memberships d)"
    using assms(2) by (rule filter_put_row) (use assms in auto)
  then show ?thesis by (simp add: owners_def)
qed

lemma owners_drop_row:
  assumes "db_ok d" "m \<in> set (memberships d)" "mb_role m \<noteq> ''owner''"
  shows "owners (d\<lparr>memberships := drop_row mb_key (mb_key m) (memberships d)\<rparr>) w = owners d w"
proof -
  have "keyed mb_key (memberships d)" using assms(1) by (simp add: db_ok_def integrity_def)
  then have "filter (\<lambda>m. mb_workspace_id m = w \<and> mb_role m = ''owner'') (drop_row mb_key (mb_key m) (memberships d)) =
      filter (\<lambda>m. mb_workspace_id m = w \<and> mb_role m = ''owner'') (memberships d)"
    using assms(2) by (rule filter_drop_row) (use assms in auto)
  then show ?thesis by (simp add: owners_def)
qed

lemma one_owner_without:
  assumes "one_owner d" "db_ok (without_workspace ws d)"
  shows "one_owner (without_workspace ws d)"
proof -
  have "w \<in> set (workspaces d) \<and> ws_id w \<noteq> ws" if "w \<in> set (workspaces (without_workspace ws d))" for w
    using that by (auto simp: without_workspace_def Let_def drop_row_def)
  with assms show ?thesis by (auto simp: one_owner_def owners_without)
qed

lemma one_owner_create: "one_owner d \<Longrightarrow> one_owner (snd (create_workspace E call new_id name redis d))"
  using create_result [of E call new_id name redis d] one_owner_new [of d "snd (create_workspace E call new_id name redis d)"]
  by (elim disjE exE conjE) simp_all

lemma one_owner_delete: "one_owner d \<Longrightarrow> one_owner (snd (delete_workspace E lazy call redis d))"
  using delete_result [of E lazy call redis d] one_owner_without [of d] by auto

lemma one_owner_role:
  assumes "one_owner d"
  shows "one_owner (snd (update_member_role E call user_id role redis d))"
proof (cases "snd (update_member_role E call user_id role redis d) = d")
  case False
  then obtain m where m: "m \<in> set (memberships d)" "mb_role m \<noteq> ''owner''" "role \<in> set granted_roles"
    "db_ok (snd (update_member_role E call user_id role redis d))"
    "snd (update_member_role E call user_id role redis d) = d\<lparr>memberships := put_row mb_key (m\<lparr>mb_role := role\<rparr>) (memberships d)\<rparr>"
    using role_result by blast
  moreover have "role \<noteq> ''owner''" using m(3) by (auto simp: granted_roles_def)
  ultimately show ?thesis using assms by (simp add: one_owner_def owners_put_row)
qed (use assms in simp)

lemma one_owner_remove:
  assumes "one_owner d"
  shows "one_owner (snd (remove_member E call user_id redis d))"
proof (cases "snd (remove_member E call user_id redis d) = d")
  case False
  then obtain m where "m \<in> set (memberships d)" "mb_role m \<noteq> ''owner''" "db_ok (snd (remove_member E call user_id redis d))"
    "snd (remove_member E call user_id redis d) = d\<lparr>memberships := drop_row mb_key (mb_key m) (memberships d)\<rparr>"
    using remove_result by blast
  with assms show ?thesis by (simp add: one_owner_def owners_drop_row)
qed (use assms in simp)

lemma one_owner_step: "member_step E lazy d d' \<Longrightarrow> one_owner d \<Longrightarrow> one_owner d'"
proof (induction rule: member_step.induct)
  case (st_register d dr body redis)
  then show ?case
    using register_result [of E dr body redis d]
      one_owner_new [of d _ "own_workspace dr body" "own_membership dr"]
    by (auto simp: own_membership_def own_workspace_def)
next
  case (st_update d call nm redis)
  then show ?case
    using update_result [of E lazy call nm redis d] by (auto simp: one_owner_def owners_def)
next
  case (st_add d call email role redis)
  then show ?case
    using add_result [of E call email role redis d] by (auto simp: one_owner_def owners_def granted_roles_def)
qed (simp_all add: one_owner_create one_owner_delete one_owner_role one_owner_remove)

lemma empty_one_owner: "one_owner empty_db"
  by (simp add: one_owner_def empty_db_ok) (simp add: empty_db_def)

lemma one_owner_steps: "(member_step E lazy)\<^sup>*\<^sup>* d d' \<Longrightarrow> one_owner d \<Longrightarrow> one_owner d'"
  by (induction rule: rtranclp_induct) (auto intro: one_owner_step)

section \<open>Properties\<close>

text \<open>
  Every workspace has exactly one owner.  From an empty database on, after any sequence of
  registrations, creations, renamings and deletions of workspaces, additions, role changes and removals
  of members, whoever calls them and whether or not they succeed, every workspace has exactly one
  membership with the role owner, and the database satisfies all its constraints.
\<close>
theorem exactly_one_owner:
  assumes "(member_step E lazy)\<^sup>*\<^sup>* empty_db d" and "w \<in> set (workspaces d)"
  shows "length (filter (\<lambda>m. mb_workspace_id m = ws_id w \<and> mb_role m = ''owner'') (memberships d)) = 1 \<and> db_ok d"
  using one_owner_steps [OF assms(1) empty_one_owner] assms(2) by (simp add: one_owner_def owners_def)

text \<open>
  Reading, renaming and deleting a workspace never work.  The role gate hands over a membership
  whose session is closed, and the three handlers read its relationship \<open>workspace\<close>; when the object
  mapper refuses that, as it documents, each of them raises and the database stays as it is, whatever
  the caller's role.
\<close>
theorem detached_workspace_fails:
  assumes "\<And>m. \<exists>msg. lazy m = Inl (OtherError ''DetachedInstanceError'' msg)"
  shows "(\<exists>e. get_workspace E lazy call redis d = (Inl e, d)) \<and>
    (\<exists>e. update_workspace E lazy call name redis d = (Inl e, d)) \<and>
    (\<exists>e. delete_workspace E lazy call redis d = (Inl e, d))"
proof -
  have "\<exists>e. or_fail (lazy m) d f = (Inl e, d)" for m and f :: "workspace_row \<Rightarrow> 'a res \<times> db"
    using assms [of m] by (auto simp: or_fail_def)
  moreover have "\<exists>e. or_fail (lazy m) d f = (Inl e, d)" for m and f :: "workspace_row \<Rightarrow> unit res \<times> db"
    using assms [of m] by (auto simp: or_fail_def)
  moreover have "\<exists>e. or_fail (lazy m) d f = (Inl e, d)" for m and f :: "workspace_row \<Rightarrow> workspace_out res \<times> db"
    using assms [of m] by (auto simp: or_fail_def)
  ultimately show ?thesis
    unfolding get_workspace_def update_workspace_def delete_workspace_def with_role_def
    by (auto split: sum.split)
qed

text \<open>
  A user cannot have two workspaces of one name.  The slug is made of the name and the user's
  identifier, so while a workspace that the user created under a name exists, every further creation
  under that name by the same user raises and changes nothing.
\<close>
theorem same_name_rejected:
  assumes "get_current_user E (ac_now call) (ac_token call) redis d = Inr user"
    and "ws \<in> set (workspaces d)" and "ws_slug ws = slugify (name @ ''-'' @ uuid_str (u_id user))"
  shows "\<exists>e. create_workspace E call new_id name redis d = (Inl e, d) \<and>
    e \<in> {IntegrityError, OtherError ''DBAPIError'' ''value out of range''}"
proof -
  have "slugify (name @ ''-'' @ uuid_str (u_id user)) \<in> ws_slug ` set (workspaces d)"
    using assms(2,3) by (metis image_eqI)
  then have "\<not> integrity (d\<lparr>workspaces := workspaces d @ [\<lparr>ws_id = new_id, ws_name = name,
      ws_slug = slugify (name @ ''-'' @ uuid_str (u_id user)), ws_created_at = ac_now call, ws_updated_at = ac_now call\<rparr>]\<rparr>)"
    by (simp add: integrity_def keyed_def)
  then show ?thesis
    by (simp add: create_workspace_def assms(1) or_fail_def commit_def Let_def)
qed

text \<open>
  Members are looked up by the address as typed.  Registration stores addresses normalised, but
  adding a member compares the text of the request: if every stored address is normalised, a request
  with an address that is not its own normal form is answered 404, even if that user exists.
\<close>
theorem member_address_not_normalised:
  assumes "require_workspace_role E ''admin'' (ac_now call) (ac_token call) (ac_workspace_id call) redis d = Inr me"
    and "role \<in> set granted_roles" and "\<And>u. u \<in> set (users d) \<Longrightarrow> normalize_email (u_email u) = u_email u"
    and "normalize_email email \<noteq> email"
  shows "add_member E call email role redis d = (Inl (HTTPException 404 ''user not found''), d)"
proof -
  have "by_key u_email email (users d) = None"
    using assms(3,4) by (auto simp: by_key_None)
  then show ?thesis
    using assms(1,2) by (simp add: add_member_def with_role_def)
qed

section \<open>Closed examples\<close>

definition ex_lazy :: lazy_load where
  "ex_lazy m = Inl (OtherError ''DetachedInstanceError'' ''not bound to a Session'')"

definition ex_call :: "string \<Rightarrow> (string \<times> dict) api_call" where
  "ex_call ws = \<lparr>ac_now = 2000, ac_token = create_access_token ex_auth 1000 3 (sub_claim 1) None,
     ac_workspace_id = ws, ac_fault = None\<rparr>"

theorem exactly_one_owner_witness:
  "\<exists>d w. (member_step ex_auth ex_lazy)\<^sup>*\<^sup>* empty_db d \<and> workspaces d = [w] \<and>
     length (filter (\<lambda>m. mb_workspace_id m = ws_id w \<and> mb_role m = ''owner'') (memberships d)) = 1"
proof -
  obtain out d where reg: "register ex_auth ex_auth_draw ex_body None empty_db = (Inr out, None, d)"
    using ex_register by blast
  have step: "(member_step ex_auth ex_lazy)\<^sup>*\<^sup>* empty_db d"
    using member_step.st_register [of ex_auth ex_lazy empty_db ex_auth_draw ex_body None] reg by auto
  have w: "workspaces d = [own_workspace ex_auth_draw ex_body]"
    using register_result [of ex_auth ex_auth_draw ex_body None empty_db] reg
    by (auto simp: register_def create_account_def Let_def empty_db_def bind_res_eq_Inr commit_ok
        split: prod.splits sum.splits if_splits)
  have "length (filter (\<lambda>m. mb_workspace_id m = ws_id (own_workspace ex_auth_draw ex_body) \<and> mb_role m = ''owner'') (memberships d)) = 1"
    using exactly_one_owner [OF step, of "own_workspace ex_auth_draw ex_body"] w by simp
  with step w show ?thesis by blast
qed

theorem detached_workspace_fails_witness:
  "\<exists>e. delete_workspace ex_auth ex_lazy (ex_call (uuid_str 2)) None ex_auth_db = (Inl e, ex_auth_db)"
  using detached_workspace_fails [of ex_lazy ex_auth "ex_call (uuid_str 2)" None ex_auth_db None]
  by (simp add: ex_lazy_def)

lemma ex_current: "get_current_user ex_auth 2000 (create_access_token ex_auth 1000 3 (sub_claim 1) None) None ex_auth_db = Inr ex_user"
  using current_user_issued [OF ex_codec, of 2000 1000 3 1 None ex_auth_db]
  by (simp add: ex_expiry check_revoked_def get_redis_def) (simp add: ex_user_def)

lemma ex_admin:
  "\<exists>m. require_workspace_role ex_auth ''admin'' 2000 (create_access_token ex_auth 1000 3 (sub_claim 1) None)
     (uuid_str 2) None ex_auth_db = Inr m \<and> mb_workspace_id m = 2"
  unfolding require_workspace_role_def ex_current
  by (simp add: get_workspace_membership_def by_key_def ex_auth_db_def ex_user_def check_role_def role_level_def)

lemma current_user_cong: "users d = users d' \<Longrightarrow> get_current_user E t token redis d = get_current_user E t token redis d'"
  unfolding get_current_user_def by (erule ssubst) (rule refl)

theorem same_name_rejected_witness:
  "\<exists>e. create_workspace ex_auth (ex_call []) 9 ''W'' None
     (ex_auth_db\<lparr>workspaces := [\<lparr>ws_id = 2, ws_name = ''W'', ws_slug = slugify (''W'' @ ''-'' @ uuid_str 1),
        ws_created_at = 0, ws_updated_at = 0\<rparr>]\<rparr>) =
     (Inl e, ex_auth_db\<lparr>workspaces := [\<lparr>ws_id = 2, ws_name = ''W'', ws_slug = slugify (''W'' @ ''-'' @ uuid_str 1),
        ws_created_at = 0, ws_updated_at = 0\<rparr>]\<rparr>)"
    (is "\<exists>e. create_workspace _ _ _ _ _ ?d = _")
proof -
  have "get_current_user ex_auth 2000 (create_access_token ex_auth 1000 3 (sub_claim 1) None) None ?d = Inr ex_user"
  proof -
    have "users ?d = users ex_auth_db" by simp
    then show ?thesis using ex_current by (simp only: current_user_cong [of ?d ex_auth_db])
  qed
  then have cur: "get_current_user ex_auth (ac_now (ex_call [])) (ac_token (ex_call [])) None ?d = Inr ex_user"
    by (simp add: ex_call_def)
  have "u_id ex_user = 1" by (simp add: ex_user_def)
  then show ?thesis
    using same_name_rejected [OF cur, of _ "''W''" 9] by auto
qed

theorem member_address_not_normalised_witness:
  "add_member ex_auth (ex_call (uuid_str 2)) ''a@b.c '' ''member'' None ex_auth_db =
     (Inl (HTTPException 404 ''user not found''), ex_auth_db)"
proof -
  obtain m where gate: "require_workspace_role ex_auth ''admin'' (ac_now (ex_call (uuid_str 2))) (ac_token (ex_call (uuid_str 2)))
      (ac_workspace_id (ex_call (uuid_str 2))) None ex_auth_db = Inr m"
    using ex_admin by (auto simp: ex_call_def)
  have "normalize_email ''a@b.c '' \<noteq> ''a@b.c ''"
    by (simp add: normalize_email_def py_strip_def py_lstrip_def py_rstrip_def is_space_def py_lower_def lower_char_def)
  moreover have "normalize_email (u_email u) = u_email u" if "u \<in> set (users ex_auth_db)" for u
    using that ex_email by (simp add: ex_auth_db_def ex_user_def)
  ultimately show ?thesis
    using member_address_not_normalised [OF gate] by (simp add: granted_roles_def)
qed

end
