(* ===== verification/Schemas.thy ===== *)
theory Schemas
  imports Transform_Engine
begin

text \<open>
  The request schemas of \<open>app/schemas/api.py\<close> that carry validation: pipeline steps, filter
  expressions and the bodies that create or update routes and endpoints.  Pydantic runs the
  field types and then the validators; \<open>jcompile\<close> stands for \<open>jmespath.compile\<close>, which raises
  or returns.  A validator's exception becomes a 422 response.
\<close>

type_synonym jcompile = "string \<Rightarrow> unit res"

definition max_template_keys :: nat where
  "max_template_keys = 64"

datatype pipeline_step =
    PassthroughStep
  | TemplateStep dict
  | JMESPathStep string

definition invalid_expr :: "exc \<Rightarrow> 'a res" where
  "invalid_expr e =
     (case e of JMESPathError m \<Rightarrow> Inl (ValueError (''Invalid JMESPath expression: '' @ m)) | _ \<Rightarrow> Inl e)"

definition check_expression :: "jcompile \<Rightarrow> string \<Rightarrow> string res" where
  "check_expression jcompile v =
     (if max_expression_len < length v
      then Inl (ValueError ''jmespath expression must not exceed 2048 characters'')
      else case jcompile v of Inl e \<Rightarrow> invalid_expr e | Inr u \<Rightarrow> Inr v)"

definition check_template_size :: "dict \<Rightarrow> dict res" where
  "check_template_size body =
     (if max_template_keys < length body
      then Inl (ValueError ''template body must not exceed 64 keys'') else Inr body)"

definition validate_jmespath :: "jcompile \<Rightarrow> string option \<Rightarrow> string option res" where
  "validate_jmespath jcompile v =
     (case v of
        None \<Rightarrow> Inr None
      | Some e \<Rightarrow>
          if py_strip is_space e \<noteq> [] then
            (case jcompile e of Inl x \<Rightarrow> invalid_expr x | Inr u \<Rightarrow> Inr (Some e))
          else Inr (Some e))"

text \<open>
  One step of a submitted pipeline: the \<open>type\<close> literal picks the model, the other fields are
  type-checked, unknown fields are dropped.
\<close>

definition parse_step :: "jcompile \<Rightarrow> json \<Rightarrow> pipeline_step res" where
  "parse_step jcompile j =
     (case j of
        JObj d \<Rightarrow>
          (if dict_get d ''type'' JNull = JStr ''passthrough'' then Inr PassthroughStep
           else if dict_get d ''type'' JNull = JStr ''template'' then
             (case dict_get d ''body'' JNull of
                JObj body \<Rightarrow> bind_res (check_template_size body) (\<lambda>b. Inr (TemplateStep b))
              | _ \<Rightarrow> Inl (ValueError ''body: Input should be a valid dictionary''))
           else if dict_get d ''type'' JNull = JStr ''jmespath'' then
             (case dict_get d ''expression'' JNull of
                JStr e \<Rightarrow> bind_res (check_expression jcompile e) (\<lambda>v. Inr (JMESPathStep v))
              | _ \<Rightarrow> Inl (ValueError ''expression: Input should be a valid string''))
           else Inl (ValueError ''type: Input should be passthrough, template or jmespath''))
      | _ \<Rightarrow> Inl (ValueError ''Input should be a valid dictionary''))"

fun parse_steps :: "jcompile \<Rightarrow> json list \<Rightarrow> pipeline_step list res" where
  "parse_steps jcompile [] = Inr []"
| "parse_steps jcompile (j # js) =
     bind_res (parse_step jcompile j) (\<lambda>s. bind_res (parse_steps jcompile js) (\<lambda>ss. Inr (s # ss)))"

text \<open>\<open>model_dump\<close>: the dictionary that is stored in the route and that the engine runs.\<close>

fun step_dump :: "pipeline_step \<Rightarrow> dict" where
  "step_dump PassthroughStep = [(''type'', JStr ''passthrough'')]"
| "step_dump (TemplateStep body) = [(''type'', JStr ''template''), (''body'', JObj body)]"
| "step_dump (JMESPathStep e) = [(''type'', JStr ''jmespath''), (''expression'', JStr e)]"

section \<open>Lemmas\<close>

text \<open>What the engine needs to know of a step that passed the schema.\<close>

definition step_ok :: "jcompile \<Rightarrow> pipeline_step \<Rightarrow> bool" where
  "step_ok jc s =
     (case s of
        JMESPathStep e \<Rightarrow> length e \<le> max_expression_len \<and> jc e = Inr ()
      | TemplateStep body \<Rightarrow> length body \<le> max_template_keys
      | PassthroughStep \<Rightarrow> True)"

lemma parse_step_ok: "parse_step jc j = Inr s \<Longrightarrow> step_ok jc s"
  by (auto simp: parse_step_def check_expression_def check_template_size_def invalid_expr_def
      step_ok_def bind_res_eq_Inr split: json.splits if_splits sum.splits exc.splits)

lemma parse_steps_ok: "parse_steps jc js = Inr ss \<Longrightarrow> list_all (step_ok jc) ss"
  by (induction js arbitrary: ss) (auto simp: bind_res_eq_Inr dest: parse_step_ok)

text \<open>The exceptions that may come out of the packages the engine calls.\<close>

definition foreign_exc :: "float_ops \<Rightarrow> jsearch \<Rightarrow> exc \<Rightarrow> bool" where
  "foreign_exc fo js e \<longleftrightarrow> (\<exists>x v. js x v = Inl e) \<or> (\<exists>v r. fl_div fo v r = Inl e \<and> \<not> is_value_error e)"

lemma eval_expr_foreign: "eval_expr fo x v = Inl e \<Longrightarrow> foreign_exc fo js e"
  by (auto simp: eval_expr_def foreign_exc_def Let_def split: sum.splits if_splits option.splits)

lemma sub_template_foreign:
  "(\<And>x e. f x = Inl e \<Longrightarrow> P e) \<Longrightarrow> sub_template f s = Inl e \<Longrightarrow> P e"
proof (induction f s rule: sub_template.induct)
  case (1 f)
  then show ?case by simp
next
  case (2 f c cs)
  show ?case
  proof (cases "if starts_with (c # cs) ''{{'' then match_group (tl cs) else None")
    case None
    with 2 show ?thesis by (auto simp: bind_res_def split: sum.splits)
  next
    case (Some gr)
    obtain g r where gr: "gr = (g, r)" by (cases gr)
    show ?thesis
    proof (cases "f (py_strip is_space g)")
      case (Inl x)
      with 2(3,4) Some gr show ?thesis by simp
    next
      case (Inr v)
      with 2(4) Some gr have "sub_template f r = Inl e"
        by (auto simp: bind_res_def split: sum.splits)
      with 2(2) [OF Some gr [symmetric]] 2(3) show ?thesis by blast
    qed
  qed
qed

lemma apply_items_foreign: "apply_items fo items v res = Inl e \<Longrightarrow> foreign_exc fo js e"
proof (induction items arbitrary: res)
  case Nil
  then show ?case by simp
next
  case (Cons kv items)
  obtain k w where kv: "kv = (k, w)" by (cases kv)
  show ?case
  proof (cases "\<exists>s. w = JStr s")
    case True
    then obtain s where w: "w = JStr s" by blast
    show ?thesis
    proof (cases "sub_template (\<lambda>x. eval_expr fo x v) s")
      case (Inl x)
      with Cons.prems kv w have "sub_template (\<lambda>x. eval_expr fo x v) s = Inl e" by simp
      then show ?thesis
        by (rule sub_template_foreign [rotated]) (rule eval_expr_foreign)
    next
      case (Inr t)
      with Cons kv w show ?thesis by simp
    qed
  next
    case False
    with Cons kv show ?thesis by (cases w) auto
  qed
qed

lemma run_step_foreign:
  assumes "step_ok jc s" and "run_step fo js i (step_dump s) v = Inl e"
  shows "foreign_exc fo js e"
proof (cases s)
  case PassthroughStep
  with assms show ?thesis by (simp add: run_step_def dict_get_def)
next
  case (TemplateStep body)
  with assms have "apply_items fo body v [] = Inl e"
    by (simp add: run_step_def dict_get_def apply_template_def bind_res_def split: sum.splits)
  then show ?thesis by (rule apply_items_foreign)
next
  case (JMESPathStep x)
  with assms have "js (JStr x) v = Inl e"
    by (simp add: run_step_def dict_get_def step_ok_def bind_res_def split: sum.splits)
  then show ?thesis by (auto simp: foreign_exc_def)
qed

lemma run_steps_foreign:
  "list_all (step_ok jc) ss \<Longrightarrow> run_steps fo js i (map step_dump ss) v = Inl e \<Longrightarrow> foreign_exc fo js e"
  by (induction ss arbitrary: i v) (auto simp: bind_res_def dest: run_step_foreign split: sum.splits)

lemma parse_step_dump: "step_ok jc s \<Longrightarrow> parse_step jc (JObj (step_dump s)) = Inr s"
  by (cases s) (simp_all add: step_ok_def parse_step_def dict_get_def check_expression_def
      check_template_size_def)

lemma parse_steps_dump:
  "list_all (step_ok jc) ss \<Longrightarrow> parse_steps jc (map (\<lambda>s. JObj (step_dump s)) ss) = Inr ss"
  by (induction ss) (simp_all add: parse_step_dump)

section \<open>Properties\<close>

text \<open>
  A pipeline that passed the schema never makes the engine raise an exception of its own (no
  missing field, no unknown step type, no over-long expression, no malformed template): if
  \<open>apply_pipeline\<close> raises, the exception is one that JMESPath raised on some expression or an
  arithmetic overflow of a division.
\<close>

theorem validated_pipeline_safe:
  assumes "parse_steps jc submitted = Inr steps"
    and "apply_pipeline fo js (map step_dump steps) payload = Inl e"
  shows "foreign_exc fo js e"
  using run_steps_foreign [OF parse_steps_ok [OF assms(1)]] assms(2) by (simp add: apply_pipeline_def)

text \<open>
  The schema accepts what it stored: dumping a validated pipeline and submitting the dump
  again is accepted with the same steps.
\<close>

theorem pipeline_dump_roundtrip:
  assumes "parse_steps jc submitted = Inr steps"
  shows "parse_steps jc (map (\<lambda>s. JObj (step_dump s)) steps) = Inr steps"
  by (rule parse_steps_dump) (rule parse_steps_ok [OF assms])

section \<open>Closed examples\<close>

definition ex_submitted :: "json list" where
  "ex_submitted =
     [JObj [(''type'', JStr ''jmespath''), (''expression'', JStr ''data''), (''note'', JNull)],
      JObj [(''type'', JStr ''passthrough'')]]"

lemma ex_submitted_parses:
  "parse_steps (\<lambda>e. Inr ()) ex_submitted = Inr [JMESPathStep ''data'', PassthroughStep]"
  by (simp add: ex_submitted_def parse_step_def dict_get_def check_expression_def max_expression_len_def)

theorem validated_pipeline_safe_witness:
  "foreign_exc ex_floats (\<lambda>x v. Inl (JMESPathError ''unknown function'')) (JMESPathError ''unknown function'')"
  by (rule validated_pipeline_safe [OF ex_submitted_parses, where payload = JNull])
    (simp add: apply_pipeline_def run_step_def dict_get_def max_expression_len_def)

theorem pipeline_dump_roundtrip_witness:
  "parse_steps (\<lambda>e. Inr ())
     [JObj [(''type'', JStr ''jmespath''), (''expression'', JStr ''data'')], JObj [(''type'', JStr ''passthrough'')]] =
   Inr [JMESPathStep ''data'', PassthroughStep]"
  using pipeline_dump_roundtrip [OF ex_submitted_parses] by simp

end
