(* ===== verification/Responses.thy ===== *)
theory Responses
  imports Json_Text Schemas Data_Model Url_Security
begin

text \<open>
  The answer models of \<open>app/schemas/api.py\<close> for endpoints and routes.  The framework validates what a
  handler returns against the model; what fails there is answered with a 500, after the handler's commit.
  Bodies that hold no text, only columns of a row, are copied field by field.
\<close>

section \<open>Validation of answers\<close>

text \<open>\<open>model_validate\<close> in a handler, and the framework's validation of what the handler returned.\<close>

definition invalid_row :: "'a res \<Rightarrow> 'a res" where
  "invalid_row r = (case r of Inl e \<Rightarrow> Inl (OtherError ''ValidationError'' (exc_msg e)) | Inr x \<Rightarrow> Inr x)"

definition invalid_answer :: "'a res \<Rightarrow> 'a res" where
  "invalid_answer r = (case r of Inl e \<Rightarrow> Inl (OtherError ''ResponseValidationError'' (exc_msg e)) | Inr x \<Rightarrow> Inr x)"

fun view_all :: "('a \<Rightarrow> 'b res) \<Rightarrow> 'a list \<Rightarrow> 'b list res" where
  "view_all f [] = Inr []"
| "view_all f (x # xs) = bind_res (f x) (\<lambda>y. bind_res (view_all f xs) (\<lambda>ys. Inr (y # ys)))"

text \<open>A handler's answer is rendered after its transaction.\<close>

definition answered :: "('a \<Rightarrow> 'b res) \<Rightarrow> 'a res \<times> db \<Rightarrow> 'b res \<times> db" where
  "answered view p = (bind_res (fst p) view, snd p)"

section \<open>Endpoints\<close>

record endpoint_out =
  eo_id :: uuid
  eo_workspace_id :: uuid
  eo_name :: string
  eo_is_active :: bool
  eo_rate_limit_rps :: "int option"
  eo_request_body_schema :: "dict option"
  eo_created_at :: time

text \<open>The stored text is parsed; what it holds must be a dictionary or \<open>null\<close>.\<close>

definition parse_schema :: "(string \<Rightarrow> string) \<Rightarrow> string option \<Rightarrow> dict option res" where
  "parse_schema fl v =
     (case v of
        None \<Rightarrow> Inr None
      | Some text \<Rightarrow>
          bind_res (json_loads fl text) (\<lambda>j. case j of
            JObj d \<Rightarrow> Inr (Some d)
          | JNull \<Rightarrow> Inr None
          | _ \<Rightarrow> Inl (ValueError ''Input should be a valid dictionary'')))"

definition endpoint_view :: "(string \<Rightarrow> string) \<Rightarrow> endpoint_row \<Rightarrow> endpoint_out res" where
  "endpoint_view fl e =
     bind_res (invalid_answer (parse_schema fl (ep_request_body_schema e))) (\<lambda>schema.
       Inr \<lparr>eo_id = ep_id e, eo_workspace_id = ep_workspace_id e, eo_name = ep_name e, eo_is_active = ep_is_active e,
            eo_rate_limit_rps = ep_rate_limit_rps e, eo_request_body_schema = schema,
            eo_created_at = ep_created_at e\<rparr>)"

record secret_rotate_out =
  so_hmac_secret :: string
  so_message :: string

definition rotated_secret :: "string \<Rightarrow> secret_rotate_out" where
  "rotated_secret s =
     \<lparr>so_hmac_secret = s, so_message = ''Secret rotated. Update your webhook source immediately.''\<rparr>"

section \<open>Routes\<close>

definition parse_pipeline :: "jcompile \<Rightarrow> json list option \<Rightarrow> dict list option res" where
  "parse_pipeline jc steps =
     (case steps of
        None \<Rightarrow> Inr None
      | Some js \<Rightarrow> bind_res (parse_steps jc js) (\<lambda>ss. Inr (Some (map step_dump ss))))"

record route_answer =
  ro_id :: uuid
  ro_name :: string
  ro_url :: string
  ro_method :: string
  ro_is_active :: bool
  ro_timeout_ms :: int
  ro_max_retries :: int
  ro_created_at :: time
  ro_rate_limit_rpm :: "int option"
  ro_filter_expression :: "string option"
  ro_transform_pipeline :: "dict list option"
  ro_headers :: "(string \<times> string) list option"
  ro_retry_backoff_ms :: int

text \<open>The stored pipeline is validated again, and the headers are redacted.\<close>

definition route_out :: "jcompile \<Rightarrow> route_row \<Rightarrow> route_answer res" where
  "route_out jc r =
     bind_res (invalid_row (parse_pipeline jc (map_option (map JObj) (rt_transform_pipeline r)))) (\<lambda>pipeline.
       Inr \<lparr>ro_id = rt_id r, ro_name = rt_name r, ro_url = rt_url r, ro_method = rt_method r,
            ro_is_active = rt_is_active r, ro_timeout_ms = rt_timeout_ms r, ro_max_retries = rt_max_retries r,
            ro_created_at = rt_created_at r, ro_rate_limit_rpm = rt_rate_limit_rpm r,
            ro_filter_expression = rt_filter_expression r, ro_transform_pipeline = pipeline,
            ro_headers = redact_headers (rt_headers r), ro_retry_backoff_ms = rt_retry_backoff_ms r\<rparr>)"

section \<open>Lemmas\<close>

declare json_dumps.simps [simp del] and writable.simps [simp del]

lemma invalid_Inr [simp]:
  "invalid_row r = Inr x \<longleftrightarrow> r = Inr x" "invalid_answer r = Inr x \<longleftrightarrow> r = Inr x"
  by (cases r; simp add: invalid_row_def invalid_answer_def)+

lemma snd_answered [simp]: "snd (answered view p) = snd p"
  by (simp add: answered_def)

lemma answered_Inr: "answered view p = (Inr y, d) \<longleftrightarrow> (\<exists>x. p = (Inr x, d) \<and> view x = Inr y)"
  by (cases p) (auto simp: answered_def bind_res_eq_Inr)

lemma view_all_ok: "\<forall>x \<in> set xs. \<exists>y. f x = Inr y \<Longrightarrow> \<exists>ys. view_all f xs = Inr ys"
  by (induction xs) auto

lemma parse_schema_dumps: "writable fl (JObj s) \<Longrightarrow> parse_schema fl (Some (json_dumps (JObj s))) = Inr (Some s)"
  by (simp add: parse_schema_def loads_dumps)

lemma endpoint_view_ok: "(\<exists>v. endpoint_view fl e = Inr v) \<longleftrightarrow> (\<exists>s. parse_schema fl (ep_request_body_schema e) = Inr s)"
  by (auto simp: endpoint_view_def bind_res_eq_Inr)

end
