(* ===== verification/Endpoints_Api.thy ===== *)
theory Endpoints_Api
  imports Workspaces_Api Responses
begin

text \<open>
  The endpoint and route handlers of \<open>app/api/endpoints.py\<close> with the request bodies of
  \<open>app/schemas/api.py\<close>.  A body arrives as parsed JSON fields and is validated after the role gate,
  as the framework does; a validation error is a 422.  \<open>jmespath.compile\<close>, \<open>float\<close> on text and
  \<open>secrets.token_hex\<close> are inputs.
\<close>

section \<open>Request bodies\<close>

record endpoint_create =
  ec_name :: string
  ec_hmac_secret :: "string option"
  ec_rate_limit_rps :: "int option"
  ec_request_body_schema :: "dict option"

record endpoint_update =
  eu_name :: "string option"
  eu_is_active :: "bool option"
  eu_rate_limit_rps :: "int option"
  eu_request_body_schema :: "dict option"

text \<open>The fields of \<open>RouteCreate\<close>, its defaults filled in; the pipeline is still unparsed.\<close>

record route_create =
  rcr_name :: string
  rcr_url :: string
  rcr_method :: string
  rcr_headers :: "(string \<times> string) list option"
  rcr_transform_pipeline :: "json list option"
  rcr_timeout_ms :: int
  rcr_max_retries :: int
  rcr_retry_backoff_ms :: int
  rcr_rate_limit_rpm :: "int option"
  rcr_filter_expression :: "string option"

text \<open>A field of \<open>RouteUpdate\<close>: not sent, sent as \<open>null\<close>, or sent with a value.\<close>

datatype 'a field = Unset | Null | Value 'a

record route_update =
  ru_name :: "string field"
  ru_url :: "string field"
  ru_method :: "string field"
  ru_headers :: "(string \<times> string) list field"
  ru_transform_pipeline :: "json list field"
  ru_timeout_ms :: "int field"
  ru_max_retries :: "int field"
  ru_retry_backoff_ms :: "int field"
  ru_is_active :: "bool field"
  ru_rate_limit_rpm :: "int field"
  ru_filter_expression :: "string field"

definition invalid_body :: "'a res \<Rightarrow> 'a res" where
  "invalid_body r = (case r of Inl e \<Rightarrow> Inl (HTTPException 422 (exc_msg e)) | Inr x \<Rightarrow> Inr x)"

text \<open>The validator \<open>check_filter\<close> of \<open>RouteCreate\<close> and \<open>RouteUpdate\<close>.\<close>

definition check_filter :: "jcompile \<Rightarrow> string option \<Rightarrow> string option res" where
  "check_filter jc v = validate_jmespath jc v"

definition new_route :: "jcompile \<Rightarrow> uuid \<Rightarrow> time \<Rightarrow> uuid \<Rightarrow> route_create \<Rightarrow> route_row res" where
  "new_route jc i now ep body =
     invalid_body
       (bind_res (parse_pipeline jc (rcr_transform_pipeline body)) (\<lambda>pipeline.
        bind_res (check_filter jc (rcr_filter_expression body)) (\<lambda>filt.
        Inr \<lparr>rt_id = i, rt_endpoint_id = ep, rt_name = rcr_name body, rt_url = rcr_url body,
             rt_method = rcr_method body, rt_headers = rcr_headers body, rt_transform_pipeline = pipeline,
             rt_rate_limit_rpm = rcr_rate_limit_rpm body, rt_timeout_ms = rcr_timeout_ms body,
             rt_max_retries = rcr_max_retries body, rt_retry_backoff_ms = rcr_retry_backoff_ms body,
             rt_is_active = True, rt_filter_expression = filt, rt_created_at = now\<rparr>)))"

text \<open>\<open>setattr\<close> on a nullable column and on one that is not: \<open>None\<close> there makes the commit fail.\<close>

definition set_opt :: "'a field \<Rightarrow> 'a option \<Rightarrow> 'a option" where
  "set_opt f old = (case f of Unset \<Rightarrow> old | Null \<Rightarrow> None | Value v \<Rightarrow> Some v)"

definition set_req :: "'a field \<Rightarrow> 'a \<Rightarrow> 'a res" where
  "set_req f old = (case f of Unset \<Rightarrow> Inr old | Null \<Rightarrow> Inl IntegrityError | Value v \<Rightarrow> Inr v)"

definition parse_update :: "jcompile \<Rightarrow> route_update \<Rightarrow> dict list field res" where
  "parse_update jc body =
     invalid_body
       (bind_res (case ru_transform_pipeline body of
                    Value js \<Rightarrow> bind_res (parse_steps jc js) (\<lambda>ss. Inr (Value (map step_dump ss)))
                  | Null \<Rightarrow> Inr Null
                  | Unset \<Rightarrow> Inr Unset) (\<lambda>pipeline.
        bind_res (check_filter jc (case ru_filter_expression body of Value e \<Rightarrow> Some e | _ \<Rightarrow> None)) (\<lambda>_.
        Inr pipeline)))"

definition updated_route :: "route_update \<Rightarrow> dict list field \<Rightarrow> route_row \<Rightarrow> route_row res" where
  "updated_route body pipeline r =
     bind_res (set_req (ru_name body) (rt_name r)) (\<lambda>name.
     bind_res (set_req (ru_url body) (rt_url r)) (\<lambda>url.
     bind_res (set_req (ru_method body) (rt_method r)) (\<lambda>method.
     bind_res (set_req (ru_timeout_ms body) (rt_timeout_ms r)) (\<lambda>timeout.
     bind_res (set_req (ru_max_retries body) (rt_max_retries r)) (\<lambda>retries.
     bind_res (set_req (ru_retry_backoff_ms body) (rt_retry_backoff_ms r)) (\<lambda>backoff.
     bind_res (set_req (ru_is_active body) (rt_is_active r)) (\<lambda>active.
     Inr (r\<lparr>rt_name := name, rt_url := url, rt_method := method,
            rt_headers := set_opt (ru_headers body) (rt_headers r),
            rt_transform_pipeline := set_opt pipeline (rt_transform_pipeline r),
            rt_rate_limit_rpm := set_opt (ru_rate_limit_rpm body) (rt_rate_limit_rpm r),
            rt_timeout_ms := timeout, rt_max_retries := retries, rt_retry_backoff_ms := backoff,
            rt_is_active := active,
            rt_filter_expression := set_opt (ru_filter_expression body) (rt_filter_expression r)\<rparr>))))))))"

section \<open>Endpoints\<close>

record api_env =
  pe_cfg :: settings
  pe_compile :: jcompile
  pe_float :: "string \<Rightarrow> string"

record api_draw =
  pd_id :: uuid
  pd_token_hex :: string

definition own_endpoint :: "db \<Rightarrow> membership_row \<Rightarrow> uuid \<Rightarrow> string \<Rightarrow> endpoint_row res" where
  "own_endpoint d m i what =
     (case by_key ep_id i (endpoints d) of
        None \<Rightarrow> Inl (HTTPException 404 (what @ '' not found''))
      | Some ep \<Rightarrow> if ep_workspace_id ep \<noteq> mb_workspace_id m then Inl (HTTPException 404 (what @ '' not found'')) else Inr ep)"

definition list_endpoints :: "('s, 't) auth_env \<Rightarrow> api_env \<Rightarrow> 't api_call \<Rightarrow> 's option \<Rightarrow> db \<Rightarrow> endpoint_out list res \<times> db" where
  "list_endpoints E P call redis d =
     answered (view_all (endpoint_view (pe_float P))) (with_role E ''viewer'' call redis d (\<lambda>m.
       (Inr (sort_key (\<lambda>e. - ep_created_at e) (filter (\<lambda>e. ep_workspace_id e = mb_workspace_id m) (endpoints d))), d)))"

definition stored_schema :: "dict option \<Rightarrow> string option" where
  "stored_schema schema =
     (case schema of None \<Rightarrow> None | Some s \<Rightarrow> if s = [] then None else Some (json_dumps (JObj s)))"

definition create_endpoint :: "('s, 't) auth_env \<Rightarrow> api_env \<Rightarrow> 't api_call \<Rightarrow> api_draw \<Rightarrow> endpoint_create \<Rightarrow> 's option \<Rightarrow> db \<Rightarrow>
    endpoint_out res \<times> db" where
  "create_endpoint E P call dr body redis d =
     answered (endpoint_view (pe_float P)) (with_role E ''member'' call redis d (\<lambda>m.
       let ep = \<lparr>ep_id = pd_id dr, ep_workspace_id = mb_workspace_id m, ep_name = ec_name body,
                 ep_hmac_secret = (case ec_hmac_secret body of
                    Some s \<Rightarrow> if s = [] then pd_token_hex dr else s | None \<Rightarrow> pd_token_hex dr),
                 ep_is_active = True, ep_rate_limit_rps = ec_rate_limit_rps body, ep_ip_allowlist = None,
                 ep_request_body_schema = stored_schema (ec_request_body_schema body),
                 ep_created_at = ac_now call, ep_updated_at = ac_now call\<rparr>
       in finish (ac_fault call) d (d\<lparr>endpoints := endpoints d @ [ep]\<rparr>) ep))"

definition with_endpoint :: "('s, 't) auth_env \<Rightarrow> string \<Rightarrow> 't api_call \<Rightarrow> string \<Rightarrow> 's option \<Rightarrow> db \<Rightarrow>
    (endpoint_row \<Rightarrow> 'a res \<times> db) \<Rightarrow> 'a res \<times> db" where
  "with_endpoint E minimum call endpoint_id redis d f =
     with_role E minimum call redis d (\<lambda>m.
       or_fail (parse_id endpoint_id ''endpoint_id'') d (\<lambda>i. or_fail (own_endpoint d m i ''endpoint'') d f))"

definition get_endpoint :: "('s, 't) auth_env \<Rightarrow> api_env \<Rightarrow> 't api_call \<Rightarrow> string \<Rightarrow> 's option \<Rightarrow> db \<Rightarrow> endpoint_out res \<times> db" where
  "get_endpoint E P call endpoint_id redis d =
     answered (endpoint_view (pe_float P)) (with_endpoint E ''viewer'' call endpoint_id redis d (\<lambda>ep. (Inr ep, d)))"

text \<open>The object mapper writes a row, and its \<open>onupdate\<close> time, only if a column really changes.\<close>

definition touch :: "time \<Rightarrow> endpoint_row \<Rightarrow> endpoint_row \<Rightarrow> endpoint_row" where
  "touch now old ep = (if ep = old then old else ep\<lparr>ep_updated_at := now\<rparr>)"

definition changed_endpoint :: "time \<Rightarrow> endpoint_update \<Rightarrow> endpoint_row \<Rightarrow> endpoint_row" where
  "changed_endpoint now body ep =
     touch now ep (ep\<lparr>ep_name := (case eu_name body of Some n \<Rightarrow> n | None \<Rightarrow> ep_name ep),
        ep_is_active := (case eu_is_active body of Some b \<Rightarrow> b | None \<Rightarrow> ep_is_active ep),
        ep_rate_limit_rps := (case eu_rate_limit_rps body of Some r \<Rightarrow> Some r | None \<Rightarrow> ep_rate_limit_rps ep),
        ep_request_body_schema := (case eu_request_body_schema body of
           Some s \<Rightarrow> Some (json_dumps (JObj s)) | None \<Rightarrow> ep_request_body_schema ep)\<rparr>)"

definition update_endpoint :: "('s, 't) auth_env \<Rightarrow> api_env \<Rightarrow> 't api_call \<Rightarrow> string \<Rightarrow> endpoint_update \<Rightarrow> 's option \<Rightarrow> db \<Rightarrow>
    endpoint_out res \<times> db" where
  "update_endpoint E P call endpoint_id body redis d =
     answered (endpoint_view (pe_float P)) (with_endpoint E ''admin'' call endpoint_id redis d (\<lambda>ep.
       let ep' = changed_endpoint (ac_now call) body ep
       in finish (ac_fault call) d (d\<lparr>endpoints := put_row ep_id ep' (endpoints d)\<rparr>) ep'))"

text \<open>The object mapper deletes the endpoint's routes first.\<close>

definition without_endpoint :: "uuid \<Rightarrow> db \<Rightarrow> db" where
  "without_endpoint i d =
     d\<lparr>endpoints := drop_row ep_id i (endpoints d), routes := drop_row rt_endpoint_id i (routes d)\<rparr>"

definition delete_endpoint :: "('s, 't) auth_env \<Rightarrow> 't api_call \<Rightarrow> string \<Rightarrow> 's option \<Rightarrow> db \<Rightarrow> unit res \<times> db" where
  "delete_endpoint E call endpoint_id redis d =
     with_endpoint E ''admin'' call endpoint_id redis d (\<lambda>ep.
       finish (ac_fault call) d (without_endpoint (ep_id ep) d) ())"

definition rotate_secret :: "('s, 't) auth_env \<Rightarrow> 't api_call \<Rightarrow> api_draw \<Rightarrow> string \<Rightarrow> 's option \<Rightarrow> db \<Rightarrow>
    secret_rotate_out res \<times> db" where
  "rotate_secret E call dr endpoint_id redis d =
     with_endpoint E ''admin'' call endpoint_id redis d (\<lambda>ep.
       let new_secret = pd_token_hex dr;
           ep' = touch (ac_now call) ep (ep\<lparr>ep_hmac_secret := new_secret\<rparr>)
       in finish (ac_fault call) d (d\<lparr>endpoints := put_row ep_id ep' (endpoints d)\<rparr>) (rotated_secret new_secret))"

section \<open>Routes\<close>

definition list_routes :: "('s, 't) auth_env \<Rightarrow> api_env \<Rightarrow> 't api_call \<Rightarrow> string \<Rightarrow> 's option \<Rightarrow> db \<Rightarrow> route_answer list res \<times> db" where
  "list_routes E P call endpoint_id redis d =
     answered (view_all (route_out (pe_compile P))) (with_endpoint E ''viewer'' call endpoint_id redis d (\<lambda>ep.
       (Inr (sort_key rt_created_at (filter (\<lambda>r. rt_endpoint_id r = ep_id ep) (routes d))), d)))"

text \<open>The identifier is parsed and the URL checked before the endpoint is looked up.\<close>

definition add_route :: "('s, 't) auth_env \<Rightarrow> api_env \<Rightarrow> 't api_call \<Rightarrow> api_draw \<Rightarrow> string \<Rightarrow> route_create \<Rightarrow> 's option \<Rightarrow> db \<Rightarrow>
    route_answer res \<times> db" where
  "add_route E P call dr endpoint_id body redis d =
     answered (route_out (pe_compile P)) (with_role E ''member'' call redis d (\<lambda>m.
       or_fail (new_route (pe_compile P) (pd_id dr) (ac_now call) 0 body) d (\<lambda>draft.
       or_fail (parse_id endpoint_id ''endpoint_id'') d (\<lambda>i.
       or_fail (validate_delivery_url (pe_cfg P) (rcr_url body)) d (\<lambda>_.
       or_fail (own_endpoint d m i ''endpoint'') d (\<lambda>ep.
         let r = draft\<lparr>rt_endpoint_id := ep_id ep\<rparr>
         in finish (ac_fault call) d (d\<lparr>routes := routes d @ [r]\<rparr>) r))))))"

definition with_route :: "('s, 't) auth_env \<Rightarrow> 't api_call \<Rightarrow> string \<Rightarrow> 's option \<Rightarrow> db \<Rightarrow> 'b res \<Rightarrow>
    ('b \<Rightarrow> route_row \<Rightarrow> 'a res \<times> db) \<Rightarrow> 'a res \<times> db" where
  "with_route E call route_id redis d body f =
     with_role E ''admin'' call redis d (\<lambda>m.
       or_fail body d (\<lambda>b.
       or_fail (parse_id route_id ''route_id'') d (\<lambda>i.
         case by_key rt_id i (routes d) of
           None \<Rightarrow> (Inl (HTTPException 404 ''route not found''), d)
         | Some r \<Rightarrow> or_fail (own_endpoint d m (rt_endpoint_id r) ''route'') d (\<lambda>ep. f b r))))"

definition update_route :: "('s, 't) auth_env \<Rightarrow> api_env \<Rightarrow> 't api_call \<Rightarrow> string \<Rightarrow> route_update \<Rightarrow> 's option \<Rightarrow> db \<Rightarrow>
    route_answer res \<times> db" where
  "update_route E P call route_id body redis d =
     answered (route_out (pe_compile P)) (with_route E call route_id redis d (parse_update (pe_compile P) body) (\<lambda>pipeline r.
       or_fail (case ru_url body of Value u \<Rightarrow> validate_delivery_url (pe_cfg P) u | _ \<Rightarrow> Inr []) d (\<lambda>_.
       or_fail (updated_route body pipeline r) d (\<lambda>r'.
         finish (ac_fault call) d (d\<lparr>routes := put_row rt_id r' (routes d)\<rparr>) r'))))"

definition delete_route :: "('s, 't) auth_env \<Rightarrow> 't api_call \<Rightarrow> string \<Rightarrow> 's option \<Rightarrow> db \<Rightarrow> unit res \<times> db" where
  "delete_route E call route_id redis d =
     with_route E call route_id redis d (Inr ()) (\<lambda>_ r.
       finish (ac_fault call) d (d\<lparr>routes := drop_row rt_id (rt_id r) (routes d)\<rparr>) ())"

section \<open>Every change of endpoints and routes\<close>

text \<open>
  One request to this router that can write, by the workspace of its path.  \<open>secrets.token_hex(32)\<close>
  is a text of 64 characters; the schema of a body came out of a JSON parser.
\<close>

inductive endpoint_step :: "('s, 't) auth_env \<Rightarrow> api_env \<Rightarrow> string \<Rightarrow> db \<Rightarrow> db \<Rightarrow> bool" for E P where
  es_create: "length (pd_token_hex dr) = 64 \<Longrightarrow> opt_ok (\<lambda>s. writable (pe_float P) (JObj s)) (ec_request_body_schema eb) \<Longrightarrow> endpoint_step E P (ac_workspace_id call) d (snd (create_endpoint E P call dr eb redis d))"
| es_update: "opt_ok (\<lambda>s. writable (pe_float P) (JObj s)) (eu_request_body_schema eu) \<Longrightarrow> endpoint_step E P (ac_workspace_id call) d (snd (update_endpoint E P call i eu redis d))"
| es_delete: "endpoint_step E P (ac_workspace_id call) d (snd (delete_endpoint E call i redis d))"
| es_rotate: "length (pd_token_hex dr) = 64 \<Longrightarrow> endpoint_step E P (ac_workspace_id call) d (snd (rotate_secret E call dr i redis d))"
| es_add_route: "endpoint_step E P (ac_workspace_id call) d (snd (add_route E P call dr i rb redis d))"
| es_update_route: "endpoint_step E P (ac_workspace_id call) d (snd (update_route E P call i ru redis d))"
| es_delete_route: "endpoint_step E P (ac_workspace_id call) d (snd (delete_route E call i redis d))"

text \<open>
  What is stored for a route: a URL the check accepts, a pipeline that the schema accepts and that is
  its own dump, a filter that is blank or compiles.
\<close>

definition pipeline_ok :: "jcompile \<Rightarrow> dict list option \<Rightarrow> bool" where
  "pipeline_ok jc p =
     (case p of None \<Rightarrow> True
      | Some ds \<Rightarrow> (case parse_steps jc (map JObj ds) of Inl e \<Rightarrow> False | Inr ss \<Rightarrow> map step_dump ss = ds))"

definition filter_ok :: "jcompile \<Rightarrow> string option \<Rightarrow> bool" where
  "filter_ok jc f =
     (case f of None \<Rightarrow> True | Some e \<Rightarrow> py_strip is_space e = [] \<or> jc e = Inr ())"

definition route_ok :: "api_env \<Rightarrow> route_row \<Rightarrow> bool" where
  "route_ok P r \<longleftrightarrow>
     validate_delivery_url (pe_cfg P) (rt_url r) = Inr (rt_url r) \<and>
     pipeline_ok (pe_compile P) (rt_transform_pipeline r) \<and> filter_ok (pe_compile P) (rt_filter_expression r)"

definition routes_ok :: "api_env \<Rightarrow> db \<Rightarrow> bool" where
  "routes_ok P d \<longleftrightarrow> db_ok d \<and> list_all (route_ok P) (routes d)"

lemma ok_None [simp]: "pipeline_ok jc None" "filter_ok jc None"
  by (simp_all add: pipeline_ok_def filter_ok_def)

lemma pipeline_ok_parsed: "parse_steps jc js = Inr ss \<Longrightarrow> pipeline_ok jc (Some (map step_dump ss))"
  using parse_steps_dump [OF parse_steps_ok] by (simp add: pipeline_ok_def comp_def)

lemma pipeline_ok_steps:
  "pipeline_ok jc (Some ds) \<Longrightarrow> \<exists>ss. ds = map step_dump ss \<and> list_all (step_ok jc) ss"
  by (auto simp: pipeline_ok_def split: sum.splits dest!: parse_steps_ok)

lemma validate_jmespath_ok: "check_filter jc v = Inr w \<Longrightarrow> w = v \<and> filter_ok jc v"
  by (auto simp: check_filter_def validate_jmespath_def filter_ok_def invalid_expr_def split: option.splits if_splits sum.splits exc.splits)

lemma invalid_body_Inr [simp]: "invalid_body r = Inr x \<longleftrightarrow> r = Inr x"
  by (cases r) (auto simp: invalid_body_def)

lemma new_route_ok:
  assumes "new_route (pe_compile P) i now ep body = Inr r"
    and "validate_delivery_url (pe_cfg P) (rcr_url body) = Inr u"
  shows "route_ok P (r\<lparr>rt_endpoint_id := ep'\<rparr>)"
proof -
  have "validate_delivery_url (pe_cfg P) (rcr_url body) = Inr (rcr_url body)"
    using assms(2) by (simp add: validate_delivery_url_iff)
  then show ?thesis
    using assms(1)
    by (auto simp: new_route_def route_ok_def bind_res_eq_Inr parse_pipeline_def pipeline_ok_parsed
        split: option.splits dest!: validate_jmespath_ok)
qed

lemma parse_update_pipeline:
  "parse_update jc body = Inr p \<Longrightarrow> pipeline_ok jc old \<Longrightarrow> pipeline_ok jc (set_opt p old)"
  by (auto simp: parse_update_def bind_res_eq_Inr set_opt_def pipeline_ok_parsed split: field.splits)

lemma parse_update_filter:
  "parse_update jc body = Inr p \<Longrightarrow> filter_ok jc old \<Longrightarrow> filter_ok jc (set_opt (ru_filter_expression body) old)"
  by (auto simp: parse_update_def bind_res_eq_Inr set_opt_def split: field.splits dest!: validate_jmespath_ok)

lemma updated_route_fields:
  assumes "updated_route body p r = Inr r'"
  shows "rt_id r' = rt_id r" "rt_endpoint_id r' = rt_endpoint_id r" "set_req (ru_url body) (rt_url r) = Inr (rt_url r')"
    "rt_transform_pipeline r' = set_opt p (rt_transform_pipeline r)"
    "rt_filter_expression r' = set_opt (ru_filter_expression body) (rt_filter_expression r)"
  using assms unfolding updated_route_def bind_res_eq_Inr by auto

lemma updated_route_ok:
  assumes "parse_update (pe_compile P) body = Inr p" "updated_route body p r = Inr r'" "route_ok P r"
    and "(case ru_url body of Value u \<Rightarrow> validate_delivery_url (pe_cfg P) u | _ \<Rightarrow> Inr []) = Inr w"
  shows "route_ok P r'"
proof -
  note fields = updated_route_fields [OF assms(2)]
  have "validate_delivery_url (pe_cfg P) (rt_url r') = Inr (rt_url r')"
  proof (cases "ru_url body")
    case (Value u)
    with assms(4) fields(3) show ?thesis by (simp add: set_req_def validate_delivery_url_iff)
  qed (use fields(3) assms(3) in \<open>simp_all add: set_req_def route_ok_def\<close>)
  moreover have "pipeline_ok (pe_compile P) (rt_transform_pipeline r')"
    using parse_update_pipeline [OF assms(1)] assms(3) by (simp add: fields(4) route_ok_def)
  moreover have "filter_ok (pe_compile P) (rt_filter_expression r')"
    using parse_update_filter [OF assms(1)] assms(3) by (simp add: fields(5) route_ok_def)
  ultimately show ?thesis
    by (simp add: route_ok_def)
qed

text \<open>An endpoint has a secret, no address list (this router gives none), and a schema that reads back.\<close>

definition endpoint_ok :: "api_env \<Rightarrow> endpoint_row \<Rightarrow> bool" where
  "endpoint_ok P e \<longleftrightarrow> ep_hmac_secret e \<noteq> [] \<and> ep_ip_allowlist e = None \<and>
     (\<exists>s. parse_schema (pe_float P) (ep_request_body_schema e) = Inr s)"

lemma stored_schema_ok:
  "opt_ok (\<lambda>s. writable fl (JObj s)) schema \<Longrightarrow>
   parse_schema fl (stored_schema schema) = Inr (if schema = Some [] then None else schema)"
  by (cases schema) (auto simp: stored_schema_def opt_ok_def loads_dumps parse_schema_def)

lemma touch_keeps [simp]:
  "ep_id (touch now old ep) = ep_id ep" "ep_workspace_id (touch now old ep) = ep_workspace_id ep"
  "ep_ip_allowlist (touch now old ep) = ep_ip_allowlist ep" "ep_hmac_secret (touch now old ep) = ep_hmac_secret ep"
  "ep_request_body_schema (touch now old ep) = ep_request_body_schema ep"
  by (simp_all add: touch_def)

lemma endpoint_ok_touch [simp]: "endpoint_ok P (touch now old ep) = endpoint_ok P ep"
  by (simp add: endpoint_ok_def)

lemma changed_endpoint_keeps [simp]:
  "ep_id (changed_endpoint now body ep) = ep_id ep"
  "ep_workspace_id (changed_endpoint now body ep) = ep_workspace_id ep"
  by (simp_all add: changed_endpoint_def)

lemma changed_endpoint_ok:
  "opt_ok (\<lambda>s. writable (pe_float P) (JObj s)) (eu_request_body_schema body) \<Longrightarrow> endpoint_ok P ep \<Longrightarrow>
   endpoint_ok P (changed_endpoint now body ep)"
  by (auto simp: changed_endpoint_def endpoint_ok_def opt_ok_def parse_schema_dumps split: option.split)

section \<open>What one request leaves behind\<close>

text \<open>The membership that the gate hands over is one of the path's workspace.\<close>

lemma gate_workspace:
  assumes "require_workspace_role E minimum t token ws redis d = Inr m"
  shows "uuid_parse ws = Inr (mb_workspace_id m)"
proof -
  obtain user where "get_workspace_membership d ws user = Inr m"
    using assms by (auto simp: require_workspace_role_def bind_res_eq_Inr check_role_def split: if_splits)
  then show ?thesis
    by (auto simp: get_workspace_membership_def split: sum.splits option.splits dest!: by_key_Some)
qed

lemma own_endpoint_Inr:
  "own_endpoint d m i what = Inr ep \<longleftrightarrow>
   by_key ep_id i (endpoints d) = Some ep \<and> ep_workspace_id ep = mb_workspace_id m"
  by (auto simp: own_endpoint_def split: option.splits if_splits)

text \<open>An endpoint of the path's workspace.\<close>

definition owned :: "db \<Rightarrow> string \<Rightarrow> endpoint_row \<Rightarrow> bool" where
  "owned d ws ep \<longleftrightarrow> ep \<in> set (endpoints d) \<and> uuid_parse ws = Inr (ep_workspace_id ep)"

lemma own_endpoint_owned:
  "own_endpoint d m i what = Inr ep \<Longrightarrow> uuid_parse ws = Inr (mb_workspace_id m) \<Longrightarrow> owned d ws ep"
  by (auto simp: own_endpoint_Inr owned_def dest: by_key_Some)

lemma with_endpoint_cases:
  "snd (with_endpoint E minimum call i redis d f) = d \<or>
   (\<exists>ep. owned d (ac_workspace_id call) ep \<and> snd (with_endpoint E minimum call i redis d f) = snd (f ep))"
  by (auto simp: with_endpoint_def relay_defs split: sum.splits dest!: gate_workspace own_endpoint_owned)

lemma with_route_cases:
  "snd (with_route E call i redis d body f) = d \<or>
   (\<exists>b r ep. body = Inr b \<and> r \<in> set (routes d) \<and> owned d (ac_workspace_id call) ep \<and> ep_id ep = rt_endpoint_id r \<and>
      snd (with_route E call i redis d body f) = snd (f b r))"
  by (auto simp: with_route_def relay_defs own_endpoint_Inr owned_def
      split: sum.splits option.splits dest!: gate_workspace by_key_Some) metis

section \<open>The changes a member of a workspace may make\<close>

text \<open>
  The contract of the router: the changes of the database that a request for the workspace \<open>ws\<close> may
  make, each on rows of that workspace and only if the constraints hold afterwards.
\<close>

inductive endpoint_change :: "api_env \<Rightarrow> uuid \<Rightarrow> db \<Rightarrow> db \<Rightarrow> bool" for P ws where
  ch_none: "endpoint_change P ws d d"
| ch_new_endpoint: "ep_workspace_id ep = ws \<Longrightarrow> endpoint_ok P ep \<Longrightarrow>
    db_ok (d\<lparr>endpoints := endpoints d @ [ep]\<rparr>) \<Longrightarrow> endpoint_change P ws d (d\<lparr>endpoints := endpoints d @ [ep]\<rparr>)"
| ch_endpoint: "ep \<in> set (endpoints d) \<Longrightarrow> ep_workspace_id ep = ws \<Longrightarrow> ep_id ep' = ep_id ep \<Longrightarrow> ep_workspace_id ep' = ws \<Longrightarrow>
    (endpoint_ok P ep \<Longrightarrow> endpoint_ok P ep') \<Longrightarrow>
    db_ok (d\<lparr>endpoints := put_row ep_id ep' (endpoints d)\<rparr>) \<Longrightarrow>
    endpoint_change P ws d (d\<lparr>endpoints := put_row ep_id ep' (endpoints d)\<rparr>)"
| ch_no_endpoint: "ep \<in> set (endpoints d) \<Longrightarrow> ep_workspace_id ep = ws \<Longrightarrow> db_ok (without_endpoint (ep_id ep) d) \<Longrightarrow>
    endpoint_change P ws d (without_endpoint (ep_id ep) d)"
| ch_new_route: "ep \<in> set (endpoints d) \<Longrightarrow> ep_workspace_id ep = ws \<Longrightarrow> rt_endpoint_id r = ep_id ep \<Longrightarrow> route_ok P r \<Longrightarrow>
    db_ok (d\<lparr>routes := routes d @ [r]\<rparr>) \<Longrightarrow> endpoint_change P ws d (d\<lparr>routes := routes d @ [r]\<rparr>)"
| ch_route: "ep \<in> set (endpoints d) \<Longrightarrow> ep_workspace_id ep = ws \<Longrightarrow> r \<in> set (routes d) \<Longrightarrow> rt_endpoint_id r = ep_id ep \<Longrightarrow>
    rt_id r' = rt_id r \<Longrightarrow> rt_endpoint_id r' = rt_endpoint_id r \<Longrightarrow> (route_ok P r \<Longrightarrow> route_ok P r') \<Longrightarrow>
    db_ok (d\<lparr>routes := put_row rt_id r' (routes d)\<rparr>) \<Longrightarrow>
    endpoint_change P ws d (d\<lparr>routes := put_row rt_id r' (routes d)\<rparr>)"
| ch_no_route: "ep \<in> set (endpoints d) \<Longrightarrow> ep_workspace_id ep = ws \<Longrightarrow> r \<in> set (routes d) \<Longrightarrow> rt_endpoint_id r = ep_id ep \<Longrightarrow>
    db_ok (d\<lparr>routes := drop_row rt_id (rt_id r) (routes d)\<rparr>) \<Longrightarrow>
    endpoint_change P ws d (d\<lparr>routes := drop_row rt_id (rt_id r) (routes d)\<rparr>)"

text \<open>A request either changes nothing or passes through the cases of its handler.\<close>

lemma finish_change:
  assumes "db_ok d' \<Longrightarrow> endpoint_change P ws d d'"
  shows "endpoint_change P ws d (snd (finish fault d d' x))"
  using finish_cases [of fault d d' x] assms ch_none [of P ws d] by metis

lemma or_fail_change:
  assumes "\<And>x. r = Inr x \<Longrightarrow> endpoint_change P ws d (snd (f x))"
  shows "endpoint_change P ws d (snd (or_fail r d f))"
  using or_fail_cases [of r d f] assms ch_none [of P ws d] by metis

lemma with_role_change:
  assumes "uuid_parse (ac_workspace_id call) = Inr ws"
    and "\<And>m. mb_workspace_id m = ws \<Longrightarrow> endpoint_change P ws d (snd (f m))"
  shows "endpoint_change P ws d (snd (with_role E minimum call redis d f))"
  using with_role_cases [of E minimum call redis d f] assms ch_none [of P ws d] gate_workspace
  by (metis sum.inject(2))

lemma with_endpoint_change:
  assumes "uuid_parse (ac_workspace_id call) = Inr ws"
    and "\<And>ep. ep \<in> set (endpoints d) \<Longrightarrow> ep_workspace_id ep = ws \<Longrightarrow> endpoint_change P ws d (snd (f ep))"
  shows "endpoint_change P ws d (snd (with_endpoint E minimum call i redis d f))"
  using with_endpoint_cases [of E minimum call i redis d f] assms ch_none [of P ws d]
  by (auto simp: owned_def)

lemma with_route_change:
  assumes "uuid_parse (ac_workspace_id call) = Inr ws"
    and "\<And>b r ep. body = Inr b \<Longrightarrow> r \<in> set (routes d) \<Longrightarrow> ep \<in> set (endpoints d) \<Longrightarrow> ep_workspace_id ep = ws \<Longrightarrow>
      rt_endpoint_id r = ep_id ep \<Longrightarrow> endpoint_change P ws d (snd (f b r))"
  shows "endpoint_change P ws d (snd (with_route E call i redis d body f))"
  using with_route_cases [of E call i redis d body f] assms ch_none [of P ws d]
  by (auto simp: owned_def)

lemma own_endpoint_member: "own_endpoint d m i what = Inr ep \<Longrightarrow> ep \<in> set (endpoints d) \<and> ep_workspace_id ep = mb_workspace_id m"
  by (auto simp: own_endpoint_Inr dest: by_key_Some)

lemma ch_updated_route:
  assumes "ep \<in> set (endpoints d)" "ep_workspace_id ep = ws" "r \<in> set (routes d)" "rt_endpoint_id r = ep_id ep"
    and "parse_update (pe_compile P) body = Inr p" "updated_route body p r = Inr r'"
    and "(case ru_url body of Value u \<Rightarrow> validate_delivery_url (pe_cfg P) u | _ \<Rightarrow> Inr []) = Inr w"
    and "db_ok (d\<lparr>routes := put_row rt_id r' (routes d)\<rparr>)"
  shows "endpoint_change P ws d (d\<lparr>routes := put_row rt_id r' (routes d)\<rparr>)"
  by (rule ch_route [OF assms(1-4) updated_route_fields(1,2) [OF assms(6)] updated_route_ok [OF assms(5,6) _ assms(7)] assms(8)])

lemma ch_changed_endpoint:
  assumes "opt_ok (\<lambda>s. writable (pe_float P) (JObj s)) (eu_request_body_schema body)"
    and "ep \<in> set (endpoints d)" "ep_workspace_id ep = ws"
    and "db_ok (d\<lparr>endpoints := put_row ep_id (changed_endpoint now body ep) (endpoints d)\<rparr>)"
  shows "endpoint_change P ws d (d\<lparr>endpoints := put_row ep_id (changed_endpoint now body ep) (endpoints d)\<rparr>)"
  using assms by (intro ch_endpoint [of ep]) (simp_all add: changed_endpoint_ok)

lemma endpoint_step_change:
  assumes "endpoint_step E P path d d'" and "uuid_parse path = Inr ws"
  shows "endpoint_change P ws d d'"
  using assms
proof (induction rule: endpoint_step.induct)
  case (es_create dr call d eb redis)
  then show ?case
    unfolding create_endpoint_def Let_def snd_answered
    by (intro with_role_change finish_change ch_new_endpoint)
      (auto simp: endpoint_ok_def stored_schema_ok split: option.split)
next
  case (es_update call d i eu redis)
  then show ?case
    unfolding update_endpoint_def Let_def snd_answered
    by (intro with_endpoint_change finish_change ch_changed_endpoint)
next
  case (es_delete call d i redis)
  then show ?case
    unfolding delete_endpoint_def by (intro with_endpoint_change finish_change ch_no_endpoint)
next
  case (es_rotate dr call d i redis)
  then show ?case
    unfolding rotate_secret_def Let_def
    by (intro with_endpoint_change finish_change ch_endpoint) (auto simp: endpoint_ok_def)
next
  case (es_add_route call d dr i rb redis)
  then show ?case
    unfolding add_route_def Let_def snd_answered
    by (intro with_role_change or_fail_change finish_change ch_new_route)
      (auto intro: new_route_ok dest: own_endpoint_member)
next
  case (es_update_route call d i ru redis)
  then show ?case
    unfolding update_route_def snd_answered
    by (intro with_route_change or_fail_change finish_change, assumption) (rule ch_updated_route)
next
  case (es_delete_route call d i redis)
  then show ?case
    unfolding delete_route_def by (intro with_route_change finish_change ch_no_route)
qed

lemma with_role_no_workspace:
  "uuid_parse (ac_workspace_id call) = Inl e \<Longrightarrow> snd (with_role E minimum call redis d f) = d"
  using with_role_cases [of E minimum call redis d f] by (auto dest: gate_workspace)

lemma endpoint_step_no_workspace:
  assumes "endpoint_step E P path d d'" and "uuid_parse path = Inl e"
  shows "d' = d"
  using assms
  by (induction rule: endpoint_step.induct)
    (simp_all add: create_endpoint_def update_endpoint_def delete_endpoint_def rotate_secret_def add_route_def
      update_route_def delete_route_def with_endpoint_def with_route_def with_role_no_workspace)

text \<open>So a request always makes a change of its contract, and none if the path names no workspace.\<close>

lemma endpoint_step_some_change:
  assumes "endpoint_step E P path d d'"
  shows "\<exists>ws. endpoint_change P ws d d'"
  using endpoint_step_change [OF assms] endpoint_step_no_workspace [OF assms] ch_none
  by (cases "uuid_parse path") auto

section \<open>Invariants\<close>

lemma change_db_ok: "endpoint_change P ws d d' \<Longrightarrow> db_ok d \<Longrightarrow> db_ok d'"
  by (induction rule: endpoint_change.induct) auto

lemma change_routes_ok:
  assumes "endpoint_change P ws d d'" and "routes_ok P d"
  shows "routes_ok P d'"
  using assms
  by (induction rule: endpoint_change.induct)
    (auto simp: routes_ok_def without_endpoint_def list_all_iff set_drop_row dest!: set_put_row)

lemma change_endpoints_ok:
  assumes "endpoint_change P ws d d'" and "list_all (endpoint_ok P) (endpoints d)"
  shows "list_all (endpoint_ok P) (endpoints d')"
  using assms
  by (induction rule: endpoint_change.induct)
    (auto simp: without_endpoint_def endpoint_ok_def list_all_iff set_drop_row dest!: set_put_row)

section \<open>Isolation of workspaces\<close>

text \<open>What belongs to a workspace: its endpoints and their routes, with all that this router never writes.\<close>

definition workspace_endpoints :: "uuid \<Rightarrow> db \<Rightarrow> endpoint_row list" where
  "workspace_endpoints w d = filter (\<lambda>e. ep_workspace_id e = w) (endpoints d)"

definition workspace_routes :: "uuid \<Rightarrow> db \<Rightarrow> route_row list" where
  "workspace_routes w d = filter (\<lambda>r. rt_endpoint_id r \<in> ep_id ` set (workspace_endpoints w d)) (routes d)"

lemma other_workspace_endpoint:
  assumes "db_ok d" "ep \<in> set (endpoints d)" "ep_workspace_id ep \<noteq> w"
  shows "ep_id ep \<notin> ep_id ` set (workspace_endpoints w d)"
proof
  assume "ep_id ep \<in> ep_id ` set (workspace_endpoints w d)"
  then obtain e where "e \<in> set (endpoints d)" "ep_id e = ep_id ep" "ep_workspace_id e = w"
    by (auto simp: workspace_endpoints_def)
  moreover have "keyed ep_id (endpoints d)"
    using assms(1) by (simp add: db_ok_def integrity_def)
  ultimately show False
    using assms(2,3) by (metis by_key_in option.inject)
qed

lemma change_other_endpoints:
  assumes "endpoint_change P ws d d'" "db_ok d" "w \<noteq> ws"
  shows "workspace_endpoints w d' = workspace_endpoints w d"
  using assms
proof (induction rule: endpoint_change.induct)
  case (ch_endpoint ep d ep')
  then show ?case
    by (simp add: workspace_endpoints_def db_ok_def integrity_def filter_put_row [of ep_id _ ep])
next
  case (ch_no_endpoint ep d)
  then show ?case
    by (simp add: workspace_endpoints_def without_endpoint_def db_ok_def integrity_def filter_drop_row)
qed (auto simp: workspace_endpoints_def)

lemma change_other_routes:
  assumes "endpoint_change P ws d d'" "db_ok d" "w \<noteq> ws"
  shows "workspace_routes w d' = workspace_routes w d"
proof -
  let ?mine = "\<lambda>r. rt_endpoint_id r \<in> ep_id ` set (workspace_endpoints w d)"
  have "filter ?mine (routes d') = filter ?mine (routes d)"
    using assms other_workspace_endpoint [OF assms(2), of _ w]
  proof (induction rule: endpoint_change.induct)
    case (ch_no_endpoint ep d)
    then have "rt_endpoint_id r \<noteq> ep_id ep" if "rt_endpoint_id r \<in> ep_id ` set (workspace_endpoints w d)" for r
      using that by metis
    then show ?case
      by (auto simp: without_endpoint_def drop_row_def intro!: filter_cong)
  next
    case (ch_route ep d r r')
    then show ?case
      by (simp add: db_ok_def integrity_def filter_put_row [of rt_id _ r])
  next
    case (ch_no_route ep d r)
    then show ?case
      by (simp add: db_ok_def integrity_def filter_drop_row)
  qed auto
  then show ?thesis
    by (simp add: workspace_routes_def change_other_endpoints [OF assms])
qed

lemma change_rest:
  assumes "endpoint_change P ws d d'"
  shows "users d' = users d \<and> workspaces d' = workspaces d \<and> memberships d' = memberships d \<and>
    events d' = events d \<and> attempts d' = attempts d \<and> outbox d' = outbox d"
  using assms by (induction rule: endpoint_change.induct) (simp_all add: without_endpoint_def)

lemma step_other_workspace:
  assumes "endpoint_step E P path d d'" and "db_ok d" and "uuid_parse path \<noteq> Inr w"
  shows "workspace_endpoints w d' = workspace_endpoints w d \<and> workspace_routes w d' = workspace_routes w d \<and>
    users d' = users d \<and> workspaces d' = workspaces d \<and> memberships d' = memberships d \<and>
    events d' = events d \<and> attempts d' = attempts d \<and> outbox d' = outbox d"
proof (cases "uuid_parse path")
  case (Inl e)
  then show ?thesis using endpoint_step_no_workspace [OF assms(1)] by simp
next
  case (Inr ws)
  note change = endpoint_step_change [OF assms(1) Inr]
  have "w \<noteq> ws" using assms(3) Inr by simp
  then show ?thesis
    using change_other_endpoints [OF change assms(2)] change_other_routes [OF change assms(2)] change_rest [OF change]
    by simp
qed

lemma own_endpoint_found:
  "db_ok d \<Longrightarrow> ep \<in> set (endpoints d) \<Longrightarrow> ep_workspace_id ep = mb_workspace_id m \<Longrightarrow> own_endpoint d m (ep_id ep) what = Inr ep"
  by (simp add: own_endpoint_Inr db_ok_def integrity_def by_key_in)

lemma fits_without_endpoint: "fits d \<Longrightarrow> fits (without_endpoint i d)"
  by (simp add: fits_def without_endpoint_def drop_row_def list_all_iff)

lemma fits_drop_route: "fits d \<Longrightarrow> fits (d\<lparr>routes := drop_row rt_id i (routes d)\<rparr>)"
  by (simp add: fits_def drop_row_def list_all_iff)

section \<open>What was stored can be shown\<close>

lemma route_ok_renders: "route_ok P r \<Longrightarrow> \<exists>v. route_out (pe_compile P) r = Inr v"
  by (auto simp: route_ok_def pipeline_ok_def route_out_def parse_pipeline_def bind_res_eq_Inr
      split: option.splits sum.splits)

lemma endpoint_ok_renders: "endpoint_ok P e \<Longrightarrow> \<exists>v. endpoint_view (pe_float P) e = Inr v"
  by (simp add: endpoint_ok_def endpoint_view_ok)

lemma finish_Inr: "finish fault d d1 x = (Inr y, d') \<longleftrightarrow> y = x \<and> commit fault d1 = Inr d'"
  by (auto simp: finish_def split: sum.splits)

lemma with_role_Inr:
  "with_role E minimum call redis d f = (Inr y, d') \<longleftrightarrow>
   (\<exists>m. require_workspace_role E minimum (ac_now call) (ac_token call) (ac_workspace_id call) redis d = Inr m \<and> f m = (Inr y, d'))"
  by (auto simp: with_role_def split: sum.splits)

lemma created_endpoint_row:
  assumes "create_endpoint E P call dr body redis d = (Inr out, d')"
  shows "\<exists>ep. endpoint_view (pe_float P) ep = Inr out \<and> d' = d\<lparr>endpoints := endpoints d @ [ep]\<rparr> \<and> db_ok d' \<and>
    ep_name ep = ec_name body \<and> ep_rate_limit_rps ep = ec_rate_limit_rps body \<and> ep_is_active ep \<and>
    ep_request_body_schema ep = stored_schema (ec_request_body_schema body)"
  using assms
  by (auto simp: create_endpoint_def answered_Inr with_role_Inr Let_def finish_Inr commit_ok)

lemma endpoint_view_fields:
  "endpoint_view fl e = Inr v \<Longrightarrow> eo_id v = ep_id e \<and> eo_workspace_id v = ep_workspace_id e \<and> eo_name v = ep_name e \<and>
   eo_is_active v = ep_is_active e \<and> eo_rate_limit_rps v = ep_rate_limit_rps e \<and>
   parse_schema fl (ep_request_body_schema e) = Inr (eo_request_body_schema v)"
  by (auto simp: endpoint_view_def bind_res_eq_Inr)

lemma get_endpoint_row:
  assumes "db_ok d" "ep \<in> set (endpoints d)" "ep_workspace_id ep = mb_workspace_id m"
    and "require_workspace_role E ''viewer'' (ac_now call) (ac_token call) (ac_workspace_id call) redis d = Inr m"
  shows "get_endpoint E P call (uuid_str (ep_id ep)) redis d = (endpoint_view (pe_float P) ep, d)"
  using assms own_endpoint_found [OF assms(1-3)]
  by (simp add: get_endpoint_def with_endpoint_def relay_defs parse_id_def uuid_parse_str answered_def)

section \<open>An error answer means that nothing changed\<close>

text \<open>A handler's result that leaves the database alone if it is an error, and satisfies \<open>Q\<close> if it is not.\<close>

definition unless_error :: "('a \<Rightarrow> bool) \<Rightarrow> db \<Rightarrow> 'a res \<times> db \<Rightarrow> bool" where
  "unless_error Q d p \<longleftrightarrow> (case fst p of Inl e \<Rightarrow> snd p = d | Inr x \<Rightarrow> Q x)"

lemma unless_error_finish: "Q x \<Longrightarrow> unless_error Q d (finish fault d d' x)"
  by (simp add: unless_error_def finish_def split: sum.split)

lemma unless_error_or_fail: "(\<And>x. r = Inr x \<Longrightarrow> unless_error Q d (f x)) \<Longrightarrow> unless_error Q d (or_fail r d f)"
  by (cases r) (simp_all add: or_fail_def, simp add: unless_error_def)

lemma unless_error_with_role: "(\<And>m. unless_error Q d (f m)) \<Longrightarrow> unless_error Q d (with_role E minimum call redis d f)"
  by (simp add: with_role_def unless_error_def [of Q d "(Inl e, d)" for e] split: sum.split)

lemma unless_error_with_endpoint:
  "(\<And>ep. ep \<in> set (endpoints d) \<Longrightarrow> unless_error Q d (f ep)) \<Longrightarrow> unless_error Q d (with_endpoint E minimum call i redis d f)"
  unfolding with_endpoint_def
  by (intro unless_error_with_role unless_error_or_fail) (auto dest: own_endpoint_member)

lemma unless_error_with_route:
  assumes "\<And>b r. body = Inr b \<Longrightarrow> r \<in> set (routes d) \<Longrightarrow> unless_error Q d (f b r)"
  shows "unless_error Q d (with_route E call i redis d body f)"
proof -
  have "unless_error Q d (case by_key rt_id k (routes d) of None \<Rightarrow> (Inl e, d)
      | Some r \<Rightarrow> or_fail (own_endpoint d m (rt_endpoint_id r) w) d (\<lambda>ep. f b r))" if "body = Inr b" for b k e m w
    using assms [OF that] by_key_Some [of rt_id k "routes d"]
    by (cases "by_key rt_id k (routes d)") (auto intro: unless_error_or_fail simp: unless_error_def [of Q d "(Inl e, d)"])
  then show ?thesis
    unfolding with_route_def by (intro unless_error_with_role unless_error_or_fail)
qed

lemma answered_error:
  "unless_error (\<lambda>x. \<exists>y. view x = Inr y) d p \<Longrightarrow> answered view p = (Inl e, d') \<Longrightarrow> d' = d"
  by (cases "fst p") (auto simp: unless_error_def answered_def)

lemma plain_error: "unless_error (\<lambda>x. True) d p \<Longrightarrow> p = (Inl e, d') \<Longrightarrow> d' = d"
  by (simp add: unless_error_def)

lemma create_endpoint_error:
  assumes "opt_ok (\<lambda>s. writable (pe_float P) (JObj s)) (ec_request_body_schema body)"
    and "create_endpoint E P call dr body redis d = (Inl e, d')"
  shows "d' = d"
  using assms(2) unfolding create_endpoint_def Let_def
  by (elim answered_error [rotated])
    (intro unless_error_with_role unless_error_finish; simp add: endpoint_view_ok stored_schema_ok [OF assms(1)])

lemma update_endpoint_error:
  assumes "opt_ok (\<lambda>s. writable (pe_float P) (JObj s)) (eu_request_body_schema body)"
    and "list_all (endpoint_ok P) (endpoints d)"
    and "update_endpoint E P call i body redis d = (Inl e, d')"
  shows "d' = d"
  using assms(3) unfolding update_endpoint_def Let_def
  by (elim answered_error [rotated])
    (intro unless_error_with_endpoint unless_error_finish endpoint_ok_renders changed_endpoint_ok [OF assms(1)];
     use assms(2) in \<open>simp add: list_all_iff\<close>)

lemma add_route_error:
  assumes "add_route E P call dr i body redis d = (Inl e, d')"
  shows "d' = d"
  using assms unfolding add_route_def Let_def
  by (elim answered_error [rotated])
    (intro unless_error_with_role unless_error_or_fail unless_error_finish route_ok_renders; rule new_route_ok)

lemma update_route_error:
  assumes "list_all (route_ok P) (routes d)" and "update_route E P call i body redis d = (Inl e, d')"
  shows "d' = d"
  using assms(2) unfolding update_route_def
  by (elim answered_error [rotated])
    (intro unless_error_with_route unless_error_or_fail unless_error_finish route_ok_renders;
     use assms(1) in \<open>auto simp: list_all_iff intro: updated_route_ok\<close>)

lemma delete_rotate_error:
  "delete_endpoint E call i redis d = (Inl e, d') \<Longrightarrow> d' = d" "delete_route E call i redis d = (Inl e, d') \<Longrightarrow> d' = d"
  "rotate_secret E call dr i redis d = (Inl e, d') \<Longrightarrow> d' = d"
  unfolding delete_endpoint_def delete_route_def rotate_secret_def Let_def
  by (elim plain_error [rotated], intro unless_error_with_endpoint unless_error_with_route unless_error_finish TrueI)+

section \<open>Properties\<close>

text \<open>
  C16: an endpoint is created and read back.  If creating an endpoint succeeds, everyone whom the gate lets
  read the endpoint's workspace afterwards gets, under the new identifier, the very answer of the creation;
  and in it are the submitted name and limit, and the submitted schema, which had gone through
  \<open>json.dumps\<close>, a text column and \<open>json.loads\<close> (an empty schema reads back as none).
\<close>
theorem created_endpoint_reads_back:
  assumes "create_endpoint E P call dr body redis d = (Inr out, d')"
    and "opt_ok (\<lambda>s. writable (pe_float P) (JObj s)) (ec_request_body_schema body)"
    and "require_workspace_role E ''viewer'' (ac_now reader) (ac_token reader) (ac_workspace_id reader) redis' d' = Inr m"
    and "mb_workspace_id m = eo_workspace_id out"
  shows "get_endpoint E P reader (uuid_str (eo_id out)) redis' d' = (Inr out, d') \<and>
    eo_name out = ec_name body \<and> eo_rate_limit_rps out = ec_rate_limit_rps body \<and> eo_is_active out \<and>
    eo_request_body_schema out = (if ec_request_body_schema body = Some [] then None else ec_request_body_schema body)"
proof -
  obtain ep where ep: "endpoint_view (pe_float P) ep = Inr out" "d' = d\<lparr>endpoints := endpoints d @ [ep]\<rparr>" "db_ok d'"
      "ep_name ep = ec_name body" "ep_rate_limit_rps ep = ec_rate_limit_rps body" "ep_is_active ep"
      "ep_request_body_schema ep = stored_schema (ec_request_body_schema body)"
    using created_endpoint_row [OF assms(1)] by blast
  note view = endpoint_view_fields [OF ep(1)]
  have "get_endpoint E P reader (uuid_str (ep_id ep)) redis' d' = (endpoint_view (pe_float P) ep, d')"
    by (rule get_endpoint_row [OF ep(3) _ _ assms(3)]) (use ep(2) assms(4) view in simp_all)
  then show ?thesis using view ep stored_schema_ok [OF assms(2)] by auto
qed

text \<open>
  What has a history cannot be deleted.  For a caller whom the gate lets pass, deleting an endpoint
  that has received an event, or a route that has a delivery attempt, fails with an \<open>IntegrityError\<close> and
  changes nothing: the foreign keys of events and attempts have no cascade.
\<close>
theorem delete_with_history_fails:
  assumes "db_ok d" and "ac_fault call = None"
    and "require_workspace_role E ''admin'' (ac_now call) (ac_token call) (ac_workspace_id call) redis d = Inr m"
    and "ep \<in> set (endpoints d)" "ep_workspace_id ep = mb_workspace_id m"
    and "ev \<in> set (events d)" "ev_endpoint_id ev = ep_id ep" "uuid_parse i = Inr (ep_id ep)"
    and "r \<in> set (routes d)" "rt_endpoint_id r = ep_id ep"
    and "att \<in> set (attempts d)" "at_route_id att = rt_id r" "uuid_parse j = Inr (rt_id r)"
  shows "delete_endpoint E call i redis d = (Inl IntegrityError, d) \<and>
    delete_route E call j redis d = (Inl IntegrityError, d)"
proof -
  have ok: "fits d" "keyed rt_id (routes d)"
    using assms(1) by (simp_all add: db_ok_def integrity_def)
  have "ep_id ep \<notin> ep_id ` set (endpoints (without_endpoint (ep_id ep) d))"
    by (auto simp: without_endpoint_def drop_row_def)
  then have "\<not> integrity (without_endpoint (ep_id ep) d)"
    using integrity_refers(1) [of "without_endpoint (ep_id ep) d" ev] assms(6,7) by (auto simp: without_endpoint_def)
  then have "commit None (without_endpoint (ep_id ep) d) = Inl IntegrityError"
    using fits_without_endpoint [OF ok(1)] by (simp add: commit_def)
  moreover have "\<not> integrity (d\<lparr>routes := drop_row rt_id (rt_id r) (routes d)\<rparr>)"
    using integrity_refers(2) [of "d\<lparr>routes := drop_row rt_id (rt_id r) (routes d)\<rparr>" att] assms(11,12)
    by (auto simp: set_drop_row)
  then have "commit None (d\<lparr>routes := drop_row rt_id (rt_id r) (routes d)\<rparr>) = Inl IntegrityError"
    using fits_drop_route [OF ok(1)] by (simp add: commit_def)
  moreover note own = own_endpoint_found [OF assms(1,4,5)] by_key_in [OF ok(2) assms(9)]
  ultimately show ?thesis
    using assms(2,3,8,10,13)
    by (simp add: delete_endpoint_def delete_route_def with_endpoint_def with_route_def relay_defs
        parse_id_def finish_def)
qed

section \<open>Closed examples\<close>

lemma gate_cong:
  assumes "users d = users d'" "memberships d = memberships d'"
  shows "require_workspace_role E minimum t token w redis d = require_workspace_role E minimum t token w redis d'"
proof -
  have "get_workspace_membership d w = get_workspace_membership d' w"
    unfolding get_workspace_membership_def fun_eq_iff assms(2) by simp
  then show ?thesis
    by (simp only: require_workspace_role_def current_user_cong [OF assms(1)])
qed

text \<open>A workspace with one endpoint, one route, one event and one attempt.\<close>

definition ex_shop_endpoint :: endpoint_row where
  "ex_shop_endpoint = \<lparr>ep_id = 5, ep_workspace_id = 2, ep_name = ''shop'', ep_hmac_secret = ''key'', ep_is_active = True,
     ep_rate_limit_rps = None, ep_ip_allowlist = None, ep_request_body_schema = None, ep_created_at = 0, ep_updated_at = 0\<rparr>"

definition ex_shop_route :: route_row where
  "ex_shop_route = \<lparr>rt_id = 6, rt_endpoint_id = 5, rt_name = ''r'', rt_url = ''https://a.example/'', rt_method = ''POST'',
     rt_headers = None, rt_transform_pipeline = None, rt_rate_limit_rpm = None, rt_timeout_ms = 10000,
     rt_max_retries = 5, rt_retry_backoff_ms = 1000, rt_is_active = True, rt_filter_expression = None, rt_created_at = 0\<rparr>"

definition ex_shop_event :: event_row where
  "ex_shop_event = \<lparr>ev_id = 7, ev_endpoint_id = 5, ev_idempotency_key = None, ev_request_body = JNull,
     ev_request_headers = None, ev_status = ''queued'', ev_retry_at = None, ev_received_at = 10,
     ev_is_discarded = False, ev_discarded_at = None\<rparr>"

definition ex_shop_attempt :: attempt_row where
  "ex_shop_attempt = \<lparr>at_id = 8, at_event_id = 7, at_route_id = 6, at_attempt_number = 1,
     at_request_url = ''https://a.example/'', at_request_body = JNull, at_response_status = Some 503,
     at_response_body = None, at_error = None, at_duration_ms = Some 20, at_attempted_at = 20\<rparr>"

definition ex_shop_db :: db where
  "ex_shop_db = ex_auth_db\<lparr>workspaces := [\<lparr>ws_id = 2, ws_name = ''W'', ws_slug = ''w'', ws_created_at = 0, ws_updated_at = 0\<rparr>],
     endpoints := [ex_shop_endpoint], routes := [ex_shop_route], events := [ex_shop_event], attempts := [ex_shop_attempt]\<rparr>"

lemma ex_shop_ok: "db_ok ex_shop_db"
  by (simp add: db_ok_def fits_def integrity_def keyed_def refers_def ex_shop_db_def ex_auth_db_def empty_db_def
      ex_shop_endpoint_def ex_shop_route_def ex_shop_event_def ex_shop_attempt_def ex_user_def
      fits_user_def fits_workspace_def fits_membership_def fits_endpoint_def fits_route_def fits_event_def
      fits_attempt_def short_def int4_def opt_ok_def)

lemma ex_shop_gate:
  "\<exists>m. require_workspace_role ex_auth ''admin'' (ac_now (ex_call (uuid_str 2))) (ac_token (ex_call (uuid_str 2)))
     (ac_workspace_id (ex_call (uuid_str 2))) None ex_shop_db = Inr m \<and> mb_workspace_id m = 2"
proof -
  have "require_workspace_role ex_auth minimum t token w None ex_shop_db =
      require_workspace_role ex_auth minimum t token w None ex_auth_db" for minimum t token w
    by (rule gate_cong) (simp_all add: ex_shop_db_def)
  with ex_admin show ?thesis by (simp add: ex_call_def)
qed

lemma ex_shop_rows [simp]:
  "endpoints ex_shop_db = [ex_shop_endpoint]" "routes ex_shop_db = [ex_shop_route]"
  "events ex_shop_db = [ex_shop_event]" "attempts ex_shop_db = [ex_shop_attempt]"
  by (simp_all add: ex_shop_db_def)

theorem delete_with_history_fails_witness:
  "delete_endpoint ex_auth (ex_call (uuid_str 2)) (uuid_str 5) None ex_shop_db = (Inl IntegrityError, ex_shop_db) \<and>
   delete_route ex_auth (ex_call (uuid_str 2)) (uuid_str 6) None ex_shop_db = (Inl IntegrityError, ex_shop_db)"
proof -
  obtain m where m: "require_workspace_role ex_auth ''admin'' (ac_now (ex_call (uuid_str 2)))
      (ac_token (ex_call (uuid_str 2))) (ac_workspace_id (ex_call (uuid_str 2))) None ex_shop_db = Inr m"
      "mb_workspace_id m = 2"
    using ex_shop_gate by blast
  show ?thesis
    by (rule delete_with_history_fails [OF ex_shop_ok _ m(1), of ex_shop_endpoint ex_shop_event _ ex_shop_route ex_shop_attempt])
      (simp_all add: ex_call_def m(2) ex_shop_endpoint_def ex_shop_event_def ex_shop_route_def ex_shop_attempt_def)
qed

definition ex_api :: api_env where
  "ex_api = \<lparr>pe_cfg = default_settings, pe_compile = (\<lambda>e. Inr ()), pe_float = (\<lambda>s. s)\<rparr>"

lemma ex_shop_gates:
  assumes "users d = users ex_shop_db" "memberships d = memberships ex_shop_db" "minimum \<in> {''viewer'', ''member'', ''admin''}"
  shows "require_workspace_role ex_auth minimum (ac_now (ex_call (uuid_str 2))) (ac_token (ex_call (uuid_str 2)))
     (ac_workspace_id (ex_call (uuid_str 2))) None d =
     Inr \<lparr>mb_user_id = 1, mb_workspace_id = 2, mb_role = ''admin'', mb_joined_at = 0\<rparr>"
proof -
  have "require_workspace_role ex_auth minimum t token w None d = require_workspace_role ex_auth minimum t token w None ex_auth_db" for t token w
    using assms(1,2) by (intro gate_cong) (simp_all add: ex_shop_db_def)
  then show ?thesis
    using assms(3) unfolding require_workspace_role_def [of _ _ _ _ _ _ ex_auth_db]
    by (auto simp: ex_call_def ex_current)
      (simp_all add: get_workspace_membership_def by_key_def ex_auth_db_def ex_user_def check_role_def role_level_def)
qed

definition ex_schema_endpoint :: endpoint_create where
  "ex_schema_endpoint = \<lparr>ec_name = ''orders'', ec_hmac_secret = None, ec_rate_limit_rps = None,
     ec_request_body_schema = Some [(''type'', JStr ''object'')]\<rparr>"

definition ex_made_endpoint :: endpoint_row where
  "ex_made_endpoint = \<lparr>ep_id = 9, ep_workspace_id = 2, ep_name = ''orders'', ep_hmac_secret = ''token'', ep_is_active = True,
     ep_rate_limit_rps = None, ep_ip_allowlist = None,
     ep_request_body_schema = Some (json_dumps (JObj [(''type'', JStr ''object'')])), ep_created_at = 2000, ep_updated_at = 2000\<rparr>"

lemma db_ok_add_endpoint:
  "db_ok d \<Longrightarrow> fits_endpoint ep \<Longrightarrow> ep_id ep \<notin> ep_id ` set (endpoints d) \<Longrightarrow> ep_workspace_id ep \<in> ws_id ` set (workspaces d) \<Longrightarrow>
   db_ok (d\<lparr>endpoints := endpoints d @ [ep]\<rparr>)"
  by (simp add: db_ok_def fits_def integrity_def keyed_def refers_def list_all_iff)

theorem created_endpoint_reads_back_witness:
  "\<exists>out d'. create_endpoint ex_auth ex_api (ex_call (uuid_str 2)) \<lparr>pd_id = 9, pd_token_hex = ''token''\<rparr> ex_schema_endpoint None ex_shop_db = (Inr out, d') \<and>
     get_endpoint ex_auth ex_api (ex_call (uuid_str 2)) (uuid_str 9) None d' = (Inr out, d') \<and>
     eo_request_body_schema out = Some [(''type'', JStr ''object'')]"
proof -
  have schema: "opt_ok (\<lambda>s. writable (pe_float ex_api) (JObj s)) (ec_request_body_schema ex_schema_endpoint)"
    by (simp add: opt_ok_def ex_schema_endpoint_def writable.simps)
  let ?d = "ex_shop_db\<lparr>endpoints := endpoints ex_shop_db @ [ex_made_endpoint]\<rparr>"
  have "db_ok ?d"
    by (rule db_ok_add_endpoint [OF ex_shop_ok])
      (simp_all add: ex_made_endpoint_def fits_endpoint_def short_def opt_ok_def, simp_all add: ex_shop_endpoint_def ex_shop_db_def)
  then have row: "finish None ex_shop_db ?d ex_made_endpoint = (Inr ex_made_endpoint, ?d)"
    by (simp add: finish_Inr commit_ok)
  obtain out where out: "endpoint_view (pe_float ex_api) ex_made_endpoint = Inr out"
    using schema endpoint_view_ok [of "pe_float ex_api" ex_made_endpoint]
    by (auto simp: ex_made_endpoint_def ex_schema_endpoint_def opt_ok_def parse_schema_dumps)
  have made: "create_endpoint ex_auth ex_api (ex_call (uuid_str 2)) \<lparr>pd_id = 9, pd_token_hex = ''token''\<rparr> ex_schema_endpoint None ex_shop_db = (Inr out, ?d)"
    using row out ex_shop_gates [of ex_shop_db "''member''"]
    by (simp add: create_endpoint_def answered_Inr with_role_Inr) (simp add: Let_def ex_call_def stored_schema_def ex_schema_endpoint_def ex_made_endpoint_def)
  have "eo_id out = 9" "eo_workspace_id out = 2"
    using endpoint_view_fields [OF out] by (simp_all add: ex_made_endpoint_def)
  with created_endpoint_reads_back [OF made schema ex_shop_gates [of ?d "''viewer''"]] made show ?thesis
    by (auto simp: ex_schema_endpoint_def)
qed

end
