(* ===== verification/Events_Api.thy ===== *)
theory Events_Api
  imports Endpoints_Api Kafka
begin

text \<open>
  The event and dead-letter handlers of \<open>app/api/events.py\<close>.  Where the code orders rows by their time
  of arrival only, rows of one instant keep their order in the table.  The dash in the text of the first
  503 answer is written with ASCII characters.
\<close>

section \<open>Lookups\<close>

definition get_event_or_404 :: "db \<Rightarrow> uuid \<Rightarrow> uuid \<Rightarrow> event_row res" where
  "get_event_or_404 d i ws =
     (case by_key ev_id i (events d) of
        None \<Rightarrow> Inl (HTTPException 404 ''event not found'')
      | Some ev \<Rightarrow>
          (case by_key ep_id (ev_endpoint_id ev) (endpoints d) of
             None \<Rightarrow> Inl (HTTPException 404 ''event not found'')
           | Some ep \<Rightarrow> if ep_workspace_id ep \<noteq> ws then Inl (HTTPException 404 ''event not found'') else Inr ev))"

definition workspace_endpoint_ids :: "db \<Rightarrow> uuid \<Rightarrow> uuid list" where
  "workspace_endpoint_ids d ws = map ep_id (filter (\<lambda>e. ep_workspace_id e = ws) (endpoints d))"

text \<open>
  \<open>LIMIT\<close> and \<open>OFFSET\<close>.  The query parameters are refused with a 422 above 200 and below 0; a negative
  limit passes that check, and the database refuses it.
\<close>

definition bad_page :: "int \<Rightarrow> int \<Rightarrow> bool" where
  "bad_page limit offset \<longleftrightarrow> 200 < limit \<or> offset < 0"

definition page :: "int \<Rightarrow> int \<Rightarrow> 'r list \<Rightarrow> 'r list res" where
  "page limit offset rows =
     (if limit < 0 then Inl (OtherError ''DBAPIError'' ''LIMIT must not be negative'')
      else Inr (take (nat limit) (drop (nat offset) rows)))"

definition unprocessable :: exc where
  "unprocessable = HTTPException 422 ''query parameter out of range''"

section \<open>Events\<close>

definition newest_first :: "event_row list \<Rightarrow> event_row list" where
  "newest_first evs = sort_key (\<lambda>e. - ev_received_at e) evs"

definition endpoint_filter :: "string option \<Rightarrow> uuid list \<Rightarrow> uuid option res" where
  "endpoint_filter endpoint_id ids =
     (case endpoint_id of
        None \<Rightarrow> Inr None
      | Some s \<Rightarrow>
          if s = [] then Inr None
          else bind_res (parse_id s ''endpoint_id'') (\<lambda>ep.
            if ep \<notin> set ids then Inl (HTTPException 404 ''endpoint not found in this workspace'') else Inr (Some ep)))"

text \<open>\<open>EventOut\<close> has a field for every column of the row.\<close>

type_synonym event_out = event_row

definition list_events :: "('s, 't) auth_env \<Rightarrow> 't api_call \<Rightarrow> string option \<Rightarrow> int \<Rightarrow> int \<Rightarrow> 's option \<Rightarrow> db \<Rightarrow>
    event_out list res \<times> db" where
  "list_events E call endpoint_id limit offset redis d =
     with_role E ''viewer'' call redis d (\<lambda>m.
       if bad_page limit offset then (Inl unprocessable, d)
       else let ids = workspace_endpoint_ids d (mb_workspace_id m)
            in if ids = [] then (Inr [], d)
               else or_fail (endpoint_filter endpoint_id ids) d (\<lambda>only.
                 or_fail (page limit offset (newest_first (filter
                   (\<lambda>e. ev_endpoint_id e \<in> set ids \<and> (case only of None \<Rightarrow> True | Some ep \<Rightarrow> ev_endpoint_id e = ep))
                   (events d)))) d (\<lambda>rows. (Inr rows, d))))"

definition with_event :: "('s, 't) auth_env \<Rightarrow> string \<Rightarrow> 't api_call \<Rightarrow> string \<Rightarrow> 's option \<Rightarrow> db \<Rightarrow>
    (event_row \<Rightarrow> 'a res \<times> db) \<Rightarrow> 'a res \<times> db" where
  "with_event E minimum call event_id redis d f =
     with_role E minimum call redis d (\<lambda>m.
       or_fail (parse_id event_id ''event_id'') d (\<lambda>i. or_fail (get_event_or_404 d i (mb_workspace_id m)) d f))"

definition get_event :: "('s, 't) auth_env \<Rightarrow> 't api_call \<Rightarrow> string \<Rightarrow> 's option \<Rightarrow> db \<Rightarrow> event_out res \<times> db" where
  "get_event E call event_id redis d = with_event E ''viewer'' call event_id redis d (\<lambda>ev. (Inr ev, d))"

text \<open>\<open>DeliveryAttemptOut\<close> leaves out the bodies.\<close>

record attempt_out =
  ao_id :: uuid
  ao_event_id :: uuid
  ao_route_id :: uuid
  ao_attempt_number :: int
  ao_request_url :: string
  ao_response_status :: "int option"
  ao_error :: "string option"
  ao_duration_ms :: "int option"
  ao_attempted_at :: time

definition attempt_view :: "attempt_row \<Rightarrow> attempt_out" where
  "attempt_view a =
     \<lparr>ao_id = at_id a, ao_event_id = at_event_id a, ao_route_id = at_route_id a,
      ao_attempt_number = at_attempt_number a, ao_request_url = at_request_url a,
      ao_response_status = at_response_status a, ao_error = at_error a, ao_duration_ms = at_duration_ms a,
      ao_attempted_at = at_attempted_at a\<rparr>"

definition get_event_attempts :: "('s, 't) auth_env \<Rightarrow> 't api_call \<Rightarrow> string \<Rightarrow> 's option \<Rightarrow> db \<Rightarrow> attempt_out list res \<times> db" where
  "get_event_attempts E call event_id redis d =
     with_event E ''viewer'' call event_id redis d (\<lambda>ev.
       (Inr (map attempt_view (sort_key at_attempt_number (filter (\<lambda>a. at_event_id a = ev_id ev) (attempts d)))), d))"

section \<open>Replay\<close>

definition replay_msg :: "settings \<Rightarrow> event_row \<Rightarrow> kmsg" where
  "replay_msg cfg ev =
     \<lparr>km_topic = kafka_topic_raw_events cfg, km_key = uuid_str (ev_endpoint_id ev),
      km_value = JObj [(''event_id'', JStr (uuid_str (ev_id ev))),
                       (''endpoint_id'', JStr (uuid_str (ev_endpoint_id ev))),
                       (''is_replay'', JBool True)]\<rparr>"

definition replay_event :: "('s, 't) auth_env \<Rightarrow> 'k sender \<Rightarrow> 't api_call \<Rightarrow> string \<Rightarrow> 's option \<Rightarrow> db \<Rightarrow> 'k option \<Rightarrow>
    (string \<times> uuid) res \<times> 'k option" where
  "replay_event E send call event_id redis d producer =
     (case fst (with_event E ''admin'' call event_id redis d (\<lambda>ev. (Inr ev, d))) of
        Inl e \<Rightarrow> (Inl e, producer)
      | Inr ev \<Rightarrow>
          (case get_kafka producer of
             None \<Rightarrow> (Inl (HTTPException 503 ''Kafka is unavailable -- cannot replay event''), producer)
           | Some k \<Rightarrow>
               (case send (replay_msg (ae_cfg E) ev) k of
                  (Inl e, k') \<Rightarrow> (Inl (HTTPException 503 ''Failed to publish replay message to Kafka''), Some k')
                | (Inr u, k') \<Rightarrow> (Inr (''replaying'', ev_id ev), Some k'))))"

section \<open>The dead-letter list\<close>

record dlq_out =
  dq_event_id :: uuid
  dq_endpoint_id :: uuid
  dq_received_at :: time
  dq_request_body :: json
  dq_is_discarded :: bool
  dq_discarded_at :: "time option"
  dq_last_error :: "string option"
  dq_last_status :: "int option"
  dq_last_url :: string
  dq_total_attempts :: nat
  dq_status :: string
  dq_retry_at :: "time option"

definition failing :: "attempt_row \<Rightarrow> bool" where
  "failing a \<longleftrightarrow> at_error a \<noteq> None \<or> (case at_response_status a of None \<Rightarrow> False | Some s \<Rightarrow> 500 \<le> s)"

definition attempts_of :: "db \<Rightarrow> event_row \<Rightarrow> attempt_row list" where
  "attempts_of d ev = filter (\<lambda>a. at_event_id a = ev_id ev) (attempts d)"

text \<open>
  The joins of the query for one event: the largest number of a failing attempt, and every attempt of the
  event with that number, whichever its route and outcome.
\<close>

definition last_attempts :: "attempt_row list \<Rightarrow> attempt_row list" where
  "last_attempts as =
     (case filter failing as of
        [] \<Rightarrow> []
      | a # rest \<Rightarrow> filter (\<lambda>b. at_attempt_number b = fold max (map at_attempt_number rest) (at_attempt_number a)) as)"

text \<open>The constructor call passes neither \<open>status\<close> nor \<open>retry_at\<close>, so every row shows the defaults of \<open>DlqEventOut\<close>.\<close>

definition dlq_view :: "db \<Rightarrow> event_row \<Rightarrow> attempt_row \<Rightarrow> dlq_out" where
  "dlq_view d ev a =
     \<lparr>dq_event_id = ev_id ev, dq_endpoint_id = ev_endpoint_id ev, dq_received_at = ev_received_at ev,
      dq_request_body = ev_request_body ev, dq_is_discarded = ev_is_discarded ev,
      dq_discarded_at = ev_discarded_at ev, dq_last_error = at_error a, dq_last_status = at_response_status a,
      dq_last_url = at_request_url a, dq_total_attempts = length (attempts_of d ev),
      dq_status = ''pending'', dq_retry_at = None\<rparr>"

definition dlq_rows :: "db \<Rightarrow> uuid list \<Rightarrow> bool \<Rightarrow> dlq_out list" where
  "dlq_rows d ids include_discarded =
     concat (map (\<lambda>ev. map (dlq_view d ev) (last_attempts (attempts_of d ev)))
       (newest_first (filter (\<lambda>ev. ev_endpoint_id ev \<in> set ids \<and> (include_discarded \<or> \<not> ev_is_discarded ev)) (events d))))"

definition list_dlq :: "('s, 't) auth_env \<Rightarrow> 't api_call \<Rightarrow> bool \<Rightarrow> int \<Rightarrow> int \<Rightarrow> 's option \<Rightarrow> db \<Rightarrow> dlq_out list res \<times> db" where
  "list_dlq E call include_discarded limit offset redis d =
     with_role E ''viewer'' call redis d (\<lambda>m.
       if bad_page limit offset then (Inl unprocessable, d)
       else let ids = workspace_endpoint_ids d (mb_workspace_id m)
            in if ids = [] then (Inr [], d)
               else or_fail (page limit offset (dlq_rows d ids include_discarded)) d (\<lambda>rows. (Inr rows, d)))"

section \<open>Discard and restore\<close>

definition discard_dlq_event :: "('s, 't) auth_env \<Rightarrow> 't api_call \<Rightarrow> string \<Rightarrow> 's option \<Rightarrow> db \<Rightarrow> (string \<times> uuid) res \<times> db" where
  "discard_dlq_event E call event_id redis d =
     with_event E ''admin'' call event_id redis d (\<lambda>ev.
       if ev_is_discarded ev then (Inr (''already_discarded'', ev_id ev), d)
       else finish (ac_fault call) d
              (d\<lparr>events := put_row ev_id (ev\<lparr>ev_is_discarded := True, ev_discarded_at := Some (ac_now call)\<rparr>) (events d)\<rparr>)
              (''discarded'', ev_id ev))"

definition restore_dlq_event :: "('s, 't) auth_env \<Rightarrow> 't api_call \<Rightarrow> string \<Rightarrow> 's option \<Rightarrow> db \<Rightarrow> (string \<times> uuid) res \<times> db" where
  "restore_dlq_event E call event_id redis d =
     with_event E ''admin'' call event_id redis d (\<lambda>ev.
       finish (ac_fault call) d
         (d\<lparr>events := put_row ev_id (ev\<lparr>ev_is_discarded := False, ev_discarded_at := None\<rparr>) (events d)\<rparr>)
         (''restored'', ev_id ev))"

section \<open>Every change of events\<close>

inductive event_step :: "('s, 't) auth_env \<Rightarrow> string \<Rightarrow> db \<Rightarrow> db \<Rightarrow> bool" for E where
  es_discard: "event_step E (ac_workspace_id call) d (snd (discard_dlq_event E call i redis d))"
| es_restore: "event_step E (ac_workspace_id call) d (snd (restore_dlq_event E call i redis d))"

definition workspace_events :: "uuid \<Rightarrow> db \<Rightarrow> event_row list" where
  "workspace_events w d = filter (\<lambda>e. ev_endpoint_id e \<in> ep_id ` set (workspace_endpoints w d)) (events d)"

text \<open>The contract: an event of the workspace gets new discard columns, both set or both cleared.\<close>

inductive event_change :: "uuid \<Rightarrow> db \<Rightarrow> db \<Rightarrow> bool" for ws where
  ec_none: "event_change ws d d"
| ec_marks: "ev \<in> set (workspace_events ws d) \<Longrightarrow> discarded = (at_time \<noteq> None) \<Longrightarrow>
    d' = d\<lparr>events := put_row ev_id (ev\<lparr>ev_is_discarded := discarded, ev_discarded_at := at_time\<rparr>) (events d)\<rparr> \<Longrightarrow>
    db_ok d' \<Longrightarrow> event_change ws d d'"

lemma get_event_Inr:
  "get_event_or_404 d i ws = Inr ev \<longleftrightarrow> by_key ev_id i (events d) = Some ev \<and>
     (\<exists>ep. by_key ep_id (ev_endpoint_id ev) (endpoints d) = Some ep \<and> ep_workspace_id ep = ws)"
  by (auto simp: get_event_or_404_def split: option.splits if_splits)

lemma get_event_member: "get_event_or_404 d i ws = Inr ev \<Longrightarrow> ev \<in> set (workspace_events ws d) \<and> ev_id ev = i"
  by (force simp: get_event_Inr workspace_events_def workspace_endpoints_def dest!: by_key_Some)

lemma get_event_found:
  assumes "db_ok d" "ev \<in> set (workspace_events ws d)"
  shows "get_event_or_404 d (ev_id ev) ws = Inr ev"
proof -
  obtain ep where ep: "ep \<in> set (endpoints d)" "ep_workspace_id ep = ws" "ev_endpoint_id ev = ep_id ep"
    using assms(2) by (auto simp: workspace_events_def workspace_endpoints_def)
  have "by_key ep_id (ev_endpoint_id ev) (endpoints d) = Some ep"
    using assms(1) ep by (simp add: db_ok_def integrity_def by_key_in)
  moreover have "by_key ev_id (ev_id ev) (events d) = Some ev"
    using assms by (simp add: db_ok_def integrity_def workspace_events_def by_key_in)
  ultimately show ?thesis
    using ep(2) by (simp add: get_event_Inr)
qed

lemma with_event_cases:
  "snd (with_event E minimum call i redis d f) = d \<or>
   (\<exists>ws ev. uuid_parse (ac_workspace_id call) = Inr ws \<and> ev \<in> set (workspace_events ws d) \<and>
      snd (with_event E minimum call i redis d f) = snd (f ev))"
  by (auto simp: with_event_def relay_defs split: sum.splits dest!: gate_workspace get_event_member)

lemma finish_event_change:
  assumes "db_ok d' \<Longrightarrow> event_change ws d d'"
  shows "event_change ws d (snd (finish fault d d' x))"
  using finish_cases [of fault d d' x] assms ec_none [of ws d] by metis

lemma with_event_change:
  assumes "uuid_parse (ac_workspace_id call) = Inr ws"
    and "\<And>ev. ev \<in> set (workspace_events ws d) \<Longrightarrow> event_change ws d (snd (f ev))"
  shows "event_change ws d (snd (with_event E minimum call i redis d f))"
  using with_event_cases [of E minimum call i redis d f] assms ec_none [of ws d] by auto

lemma ec_discard:
  "ev \<in> set (workspace_events ws d) \<Longrightarrow>
   db_ok (d\<lparr>events := put_row ev_id (ev\<lparr>ev_is_discarded := True, ev_discarded_at := Some t\<rparr>) (events d)\<rparr>) \<Longrightarrow>
   event_change ws d (d\<lparr>events := put_row ev_id (ev\<lparr>ev_is_discarded := True, ev_discarded_at := Some t\<rparr>) (events d)\<rparr>)"
  by (rule ec_marks [OF _ _ refl]) simp_all

lemma ec_restore:
  "ev \<in> set (workspace_events ws d) \<Longrightarrow>
   db_ok (d\<lparr>events := put_row ev_id (ev\<lparr>ev_is_discarded := False, ev_discarded_at := None\<rparr>) (events d)\<rparr>) \<Longrightarrow>
   event_change ws d (d\<lparr>events := put_row ev_id (ev\<lparr>ev_is_discarded := False, ev_discarded_at := None\<rparr>) (events d)\<rparr>)"
  by (rule ec_marks [OF _ _ refl]) simp_all

lemma event_step_change:
  assumes "event_step E path d d'" and "uuid_parse path = Inr ws"
  shows "event_change ws d d'"
  using assms
proof (induction rule: event_step.induct)
  case (es_discard call d i redis)
  show ?case
    unfolding discard_dlq_event_def
  proof (rule with_event_change [OF es_discard])
    fix ev assume "ev \<in> set (workspace_events ws d)"
    then show "event_change ws d (snd (if ev_is_discarded ev then (Inr (''already_discarded'', ev_id ev), d)
        else finish (ac_fault call) d
          (d\<lparr>events := put_row ev_id (ev\<lparr>ev_is_discarded := True, ev_discarded_at := Some (ac_now call)\<rparr>) (events d)\<rparr>)
          (''discarded'', ev_id ev)))"
      by (auto intro: ec_none finish_event_change ec_discard)
  qed
next
  case (es_restore call d i redis)
  show ?case
    unfolding restore_dlq_event_def
    by (rule with_event_change [OF es_restore]) (rule finish_event_change, rule ec_restore)
qed

lemma event_step_no_workspace:
  assumes "event_step E path d d'" and "uuid_parse path = Inl e"
  shows "d' = d"
  using assms
  by (induction rule: event_step.induct)
    (simp_all add: discard_dlq_event_def restore_dlq_event_def with_event_def with_role_no_workspace)

lemma event_step_some_change: "event_step E path d d' \<Longrightarrow> \<exists>ws. event_change ws d d'"
  using event_step_change event_step_no_workspace ec_none by (cases "uuid_parse path") blast+

text \<open>The two discard columns of an event agree.\<close>

definition marks_ok :: "event_row \<Rightarrow> bool" where
  "marks_ok ev \<longleftrightarrow> (ev_is_discarded ev \<longleftrightarrow> ev_discarded_at ev \<noteq> None)"

lemma event_change_marks: "event_change ws d d' \<Longrightarrow> list_all marks_ok (events d) \<Longrightarrow> list_all marks_ok (events d')"
  by (induction rule: event_change.induct) (auto simp: list_all_iff marks_ok_def dest!: set_put_row)

lemma event_change_db_ok: "event_change ws d d' \<Longrightarrow> db_ok d \<Longrightarrow> db_ok d'"
  by (induction rule: event_change.induct) auto

lemma event_change_rest:
  assumes "event_change ws d d'"
  shows "users d' = users d \<and> workspaces d' = workspaces d \<and> memberships d' = memberships d \<and>
    endpoints d' = endpoints d \<and> routes d' = routes d \<and> attempts d' = attempts d \<and> outbox d' = outbox d"
  using assms by (induction rule: event_change.induct) auto

lemma event_change_other:
  assumes "event_change ws d d'" "db_ok d" "w \<noteq> ws"
  shows "workspace_events w d' = workspace_events w d"
  using assms
proof (induction rule: event_change.induct)
  case (ec_marks ev d discarded at_time d')
  have key: "keyed ev_id (events d)" "ev \<in> set (events d)"
    using ec_marks by (simp_all add: db_ok_def integrity_def workspace_events_def)
  obtain ep where ep: "ep \<in> set (endpoints d)" "ep_workspace_id ep = ws" "ev_endpoint_id ev = ep_id ep"
    using ec_marks(1) by (auto simp: workspace_events_def workspace_endpoints_def)
  have "ev_endpoint_id ev \<notin> ep_id ` set (workspace_endpoints w d)"
    using other_workspace_endpoint [OF ec_marks(5) ep(1)] ec_marks(6) ep(2,3) by simp
  then show ?case
    by (simp add: ec_marks(3) workspace_events_def workspace_endpoints_def filter_put_row [OF key])
qed simp

section \<open>Requests that get through\<close>

lemma with_event_run:
  assumes "db_ok d" "uuid_parse i = Inr (ev_id ev)" "ev \<in> set (workspace_events (mb_workspace_id m) d)"
    and "require_workspace_role E minimum (ac_now call) (ac_token call) (ac_workspace_id call) redis d = Inr m"
  shows "with_event E minimum call i redis d f = f ev"
  using assms get_event_found [OF assms(1,3)]
  by (simp add: with_event_def relay_defs parse_id_def)

lemma put_row_put_row: "f r = f r' \<Longrightarrow> put_row f r (put_row f r' rows) = put_row f r rows"
  by (auto simp: put_row_def)

lemma refers_put_row: "refers f rows g targets \<Longrightarrow> f r \<in> set (map g targets) \<Longrightarrow> refers f (put_row k r rows) g targets"
  by (auto simp: refers_def list_all_iff dest!: set_put_row)

lemma refers_to_put_row: "refers f rows g (put_row g r targets) \<longleftrightarrow> refers f rows g targets"
  unfolding refers_def map_put_row ..

lemma keyed_put_row: "keyed f (put_row f r rows) \<longleftrightarrow> keyed f rows"
  by (simp add: keyed_def)

lemma db_ok_put_event:
  assumes "db_ok d" "ev \<in> set (events d)" "ev_endpoint_id ev' = ev_endpoint_id ev" "fits_event ev'"
  shows "db_ok (d\<lparr>events := put_row ev_id ev' (events d)\<rparr>)"
proof -
  have "ev_endpoint_id ev' \<in> set (map ep_id (endpoints d))"
    using integrity_refers(1) [of d ev] assms(1-3) by (simp add: db_ok_def)
  moreover have "list_all fits_event (put_row ev_id ev' (events d))"
    using assms(1,4) by (auto simp: db_ok_def fits_def list_all_iff dest!: set_put_row)
  ultimately show ?thesis
    using assms(1)
    by (simp add: db_ok_def fits_def integrity_def refers_put_row refers_to_put_row keyed_put_row)
qed

lemma finish_ok: "db_ok d' \<Longrightarrow> finish None d d' x = (Inr x, d')"
  by (simp add: finish_def commit_def db_ok_def)

lemma by_key_put_row_new: "r \<in> set rows \<Longrightarrow> f r' = f r \<Longrightarrow> by_key f (f r) (put_row f r' rows) = Some r'"
  by (induction rows) (auto simp: by_key_def put_row_def)

lemma put_row_member: "r \<in> set rows \<Longrightarrow> f r' = f r \<Longrightarrow> r' \<in> set (put_row f r' rows)"
  by (force simp: put_row_def)

lemma last_attempts_sub: "a \<in> set (last_attempts as) \<Longrightarrow> a \<in> set as"
  by (auto simp: last_attempts_def split: list.splits)

lemma fold_max_mem: "fold max xs (x::int) \<in> set (x # xs)"
proof (induction xs arbitrary: x)
  case (Cons y ys)
  then show ?case using Cons [of "max y x"] by (auto simp: max_def split: if_splits)
qed simp

lemma fold_max_ge: "y \<in> set (x # xs) \<Longrightarrow> y \<le> fold max xs (x::int)"
proof (induction xs arbitrary: x y)
  case (Cons z zs)
  have top: "max z x \<le> fold max zs (max z x)" by (rule Cons.IH) simp
  show ?case
  proof (cases "y \<in> set zs")
    case True
    then show ?thesis using Cons.IH [of y "max z x"] by simp
  next
    case False
    then have "y \<le> max z x" using Cons.prems by auto
    with top have "y \<le> fold max zs (max z x)" by (rule order_trans [rotated])
    then show ?thesis by (simp only: fold_simps)
  qed
qed simp

text \<open>An event has rows in the list exactly if one of its attempts fails.\<close>

lemma last_attempts_empty: "last_attempts as = [] \<longleftrightarrow> filter failing as = []"
proof (cases "filter failing as")
  case Nil
  then show ?thesis by (simp add: last_attempts_def)
next
  case (Cons a rest)
  let ?n = "fold max (map at_attempt_number rest) (at_attempt_number a)"
  have "?n \<in> at_attempt_number ` set (filter failing as)"
    using fold_max_mem [of "map at_attempt_number rest" "at_attempt_number a"] Cons by simp
  then obtain b where "b \<in> set as" "at_attempt_number b = ?n" by auto
  then show ?thesis using Cons by (auto simp: last_attempts_def filter_empty_conv)
qed

lemma newest_first_set [simp]: "set (newest_first evs) = set evs"
  by (simp add: newest_first_def)

lemma newest_first_sorted: "sorted_wrt (\<lambda>a b. ev_received_at b \<le> ev_received_at a) (newest_first evs)"
  using sorted_sort_key [of "\<lambda>e. - ev_received_at e" evs]
  by (simp add: newest_first_def sorted_map)

lemma page_rows:
  assumes "page limit offset rows = Inr out" "\<not> bad_page limit offset"
  shows "out = take (nat limit) (drop (nat offset) rows) \<and> length out \<le> 200 \<and> set out \<subseteq> set rows"
  using assms by (auto simp: page_def bad_page_def split: if_splits dest!: in_set_takeD in_set_dropD)

section \<open>Properties\<close>

text \<open>
  C10: isolation of workspaces.  Whatever request is made to the endpoint, route, event and dead-letter
  handlers, by anybody and whether or not it succeeds, the endpoints of every workspace other than the one
  of its path, their routes and their events stay as they are, and so do all users, workspaces,
  memberships, delivery attempts and outbox records.
\<close>
theorem tenant_isolation:
  assumes "endpoint_step E P path d d' \<or> event_step E path d d'" and "db_ok d" and "uuid_parse path \<noteq> Inr w"
  shows "workspace_endpoints w d' = workspace_endpoints w d \<and> workspace_routes w d' = workspace_routes w d \<and>
    workspace_events w d' = workspace_events w d \<and> users d' = users d \<and> workspaces d' = workspaces d \<and>
    memberships d' = memberships d \<and> attempts d' = attempts d \<and> outbox d' = outbox d"
proof (cases "endpoint_step E P path d d'")
  case True
  then show ?thesis
    using step_other_workspace [OF True assms(2,3)] by (simp add: workspace_events_def)
next
  case False
  with assms(1) have step: "event_step E path d d'" by blast
  show ?thesis
  proof (cases "uuid_parse path")
    case (Inl e)
    then show ?thesis using event_step_no_workspace [OF step] by simp
  next
    case (Inr ws)
    note change = event_step_change [OF step Inr]
    have "w \<noteq> ws" using assms(3) Inr by simp
    then show ?thesis
      using event_change_other [OF change assms(2)] event_change_rest [OF change]
      by (simp add: workspace_routes_def workspace_endpoints_def)
  qed
qed


text \<open>
  What a reader of events sees.  Whenever the event list answers with rows, they are at most 200
  events of endpoints of the workspace named by the path, newest first, and nothing has changed.
\<close>
theorem events_of_own_workspace:
  assumes "list_events E call only limit offset redis d = (Inr rows, d')"
  shows "\<exists>ws. uuid_parse (ac_workspace_id call) = Inr ws \<and> set rows \<subseteq> set (workspace_events ws d) \<and>
    sorted_wrt (\<lambda>a b. ev_received_at b \<le> ev_received_at a) rows \<and> length rows \<le> 200 \<and> d' = d"
proof -
  obtain m where gate: "require_workspace_role E ''viewer'' (ac_now call) (ac_token call) (ac_workspace_id call) redis d = Inr m"
    using assms by (auto simp: list_events_def with_role_def split: sum.splits)
  let ?ws = "mb_workspace_id m"
  have paged: "d' = d \<and> (rows = [] \<or> (\<exists>P. \<not> bad_page limit offset \<and> page limit offset (newest_first (filter
      (\<lambda>e. ev_endpoint_id e \<in> set (workspace_endpoint_ids d ?ws) \<and> P e) (events d))) = Inr rows))"
    using assms gate by (auto simp: list_events_def relay_defs Let_def split: sum.splits if_splits)
  show ?thesis
  proof (cases "rows = []")
    case False
    with paged obtain P where P: "\<not> bad_page limit offset" "page limit offset (newest_first (filter
        (\<lambda>e. ev_endpoint_id e \<in> set (workspace_endpoint_ids d ?ws) \<and> P e) (events d))) = Inr rows" by blast
    note rows = page_rows [OF P(2,1)]
    have "sorted_wrt (\<lambda>a b. ev_received_at b \<le> ev_received_at a) rows"
      using rows newest_first_sorted by (simp add: sorted_wrt_take sorted_wrt_drop)
    moreover have "set rows \<subseteq> set (workspace_events ?ws d)"
      using rows by (auto simp: workspace_events_def workspace_endpoints_def workspace_endpoint_ids_def)
    ultimately show ?thesis
      using gate_workspace [OF gate] rows paged by blast
  qed (use gate_workspace [OF gate] paged in auto)
qed

text \<open>
  C27: the life of a discarded event.  For an administrator of the event's workspace and a commit that
  does not fault, discarding an event marks exactly that event with the time of the request; discarding
  it again answers that it is already discarded and changes nothing; and restoring it then gives back
  the database as it was, the event's discard columns cleared.
\<close>
theorem discard_and_restore:
  assumes "db_ok d" and "ev \<in> set (workspace_events (mb_workspace_id m) d)" and "\<not> ev_is_discarded ev"
    and "\<And>d'. users d' = users d \<Longrightarrow> memberships d' = memberships d \<Longrightarrow>
      require_workspace_role E ''admin'' (ac_now call) (ac_token call) (ac_workspace_id call) redis d' = Inr m"
    and "uuid_parse i = Inr (ev_id ev)" and "ac_fault call = None"
  shows "\<exists>d'. discard_dlq_event E call i redis d = (Inr (''discarded'', ev_id ev), d') \<and>
    d' = d\<lparr>events := put_row ev_id (ev\<lparr>ev_is_discarded := True, ev_discarded_at := Some (ac_now call)\<rparr>) (events d)\<rparr> \<and>
    discard_dlq_event E call i redis d' = (Inr (''already_discarded'', ev_id ev), d') \<and>
    restore_dlq_event E call i redis d' = (Inr (''restored'', ev_id ev),
      d\<lparr>events := put_row ev_id (ev\<lparr>ev_is_discarded := False, ev_discarded_at := None\<rparr>) (events d)\<rparr>)"
proof -
  let ?gone = "ev\<lparr>ev_is_discarded := True, ev_discarded_at := Some (ac_now call)\<rparr>"
  let ?cleared_ev = "ev\<lparr>ev_is_discarded := False, ev_discarded_at := None\<rparr>"
  let ?d = "d\<lparr>events := put_row ev_id ?gone (events d)\<rparr>"
  have mem: "ev \<in> set (events d)" using assms(2) by (simp add: workspace_events_def)
  then have fit: "fits_event ev" using assms(1) by (simp add: db_ok_def fits_def list_all_iff)
  have ok: "db_ok ?d"
    using fit by (intro db_ok_put_event [OF assms(1) mem]) (simp_all add: fits_event_def)
  have cleared: "db_ok (d\<lparr>events := put_row ev_id ?cleared_ev (events d)\<rparr>)"
    using fit by (intro db_ok_put_event [OF assms(1) mem]) (simp_all add: fits_event_def)
  have mem': "?gone \<in> set (workspace_events (mb_workspace_id m) ?d)"
    using assms(2) put_row_member [OF mem, of ev_id ?gone] by (simp add: workspace_events_def workspace_endpoints_def)
  have gates: "require_workspace_role E ''admin'' (ac_now call) (ac_token call) (ac_workspace_id call) redis d = Inr m"
    "require_workspace_role E ''admin'' (ac_now call) (ac_token call) (ac_workspace_id call) redis ?d = Inr m"
    by (rule assms(4); simp)+
  have ident: "uuid_parse i = Inr (ev_id ?gone)" using assms(5) by simp
  note run = with_event_run [OF assms(1,5,2) gates(1)] with_event_run [OF ok ident mem' gates(2)]
  have "discard_dlq_event E call i redis d = (Inr (''discarded'', ev_id ev), ?d)"
    using assms(3,6) by (simp add: discard_dlq_event_def run(1) finish_ok [OF ok])
  moreover have "discard_dlq_event E call i redis ?d = (Inr (''already_discarded'', ev_id ev), ?d)"
    by (simp add: discard_dlq_event_def run(2))
  moreover have "restore_dlq_event E call i redis ?d = (Inr (''restored'', ev_id ev), d\<lparr>events := put_row ev_id ?cleared_ev (events d)\<rparr>)"
    using assms(6) finish_ok [OF cleared] by (simp add: restore_dlq_event_def run(2) put_row_put_row)
  ultimately show ?thesis by blast
qed

text \<open>
  C28: what the dead-letter list holds.  Its answer is a page of at most 200 rows, and the rows behind
  the page belong to exactly those events of the workspace (not discarded, unless asked for) that have
  an attempt with an error or a status of 500 or more.
\<close>
theorem dlq_lists_failing_events:
  assumes "list_dlq E call include_discarded limit offset redis d = (Inr out, d')"
  shows "\<exists>ws rows. uuid_parse (ac_workspace_id call) = Inr ws \<and> out = take (nat limit) (drop (nat offset) rows) \<and>
    length out \<le> 200 \<and> d' = d \<and>
    dq_event_id ` set rows = {ev_id ev | ev. ev \<in> set (workspace_events ws d) \<and> (include_discarded \<or> \<not> ev_is_discarded ev) \<and>
      (\<exists>a \<in> set (attempts d). at_event_id a = ev_id ev \<and>
         (at_error a \<noteq> None \<or> (\<exists>s. at_response_status a = Some s \<and> 500 \<le> s)))}"
proof -
  obtain m where gate: "require_workspace_role E ''viewer'' (ac_now call) (ac_token call) (ac_workspace_id call) redis d = Inr m"
    using assms by (auto simp: list_dlq_def with_role_def split: sum.splits)
  let ?ids = "workspace_endpoint_ids d (mb_workspace_id m)"
  let ?rows = "dlq_rows d ?ids include_discarded"
  have ans: "d' = d \<and> (if ?ids = [] then out = [] else \<not> bad_page limit offset \<and> page limit offset ?rows = Inr out)"
    using assms gate by (auto simp: list_dlq_def relay_defs Let_def split: sum.splits if_splits)
  have none: "?rows = []" if "?ids = []"
    by (simp add: dlq_rows_def that newest_first_def)
  have out: "out = take (nat limit) (drop (nat offset) ?rows) \<and> length out \<le> 200"
    using ans none page_rows [of limit offset ?rows out] by (auto split: if_splits)
  have "filter failing (attempts_of d ev) = [] \<longleftrightarrow> \<not> (\<exists>a \<in> set (attempts d). at_event_id a = ev_id ev \<and>
      (at_error a \<noteq> None \<or> (\<exists>s. at_response_status a = Some s \<and> 500 \<le> s)))" for ev
    by (auto simp: attempts_of_def filter_empty_conv failing_def split: option.split)
  then have listed: "last_attempts (attempts_of d ev) \<noteq> [] \<longleftrightarrow> (\<exists>a \<in> set (attempts d). at_event_id a = ev_id ev \<and>
      (at_error a \<noteq> None \<or> (\<exists>s. at_response_status a = Some s \<and> 500 \<le> s)))" for ev
    by (simp add: last_attempts_empty)
  have "dq_event_id ` set (map (dlq_view d ev) as) = (if as = [] then {} else {ev_id ev})" for ev as
    by (cases as) (auto simp: dlq_view_def image_image)
  then have "dq_event_id ` set ?rows = {ev_id ev | ev. ev \<in> set (events d) \<and> ev_endpoint_id ev \<in> set ?ids \<and>
      (include_discarded \<or> \<not> ev_is_discarded ev) \<and> last_attempts (attempts_of d ev) \<noteq> []}"
    unfolding dlq_rows_def set_concat by (auto simp: image_UN split: if_splits)
  also have "\<dots> = {ev_id ev | ev. ev \<in> set (workspace_events (mb_workspace_id m) d) \<and> (include_discarded \<or> \<not> ev_is_discarded ev) \<and>
      (\<exists>a \<in> set (attempts d). at_event_id a = ev_id ev \<and> (at_error a \<noteq> None \<or> (\<exists>s. at_response_status a = Some s \<and> 500 \<le> s)))}"
    unfolding listed by (auto simp: workspace_events_def workspace_endpoints_def workspace_endpoint_ids_def)
  finally show ?thesis
    using out ans gate_workspace [OF gate] by blast
qed

lemma in_last_attempts:
  assumes "a \<in> set as" "failing a" "\<And>c. c \<in> set as \<Longrightarrow> failing c \<Longrightarrow> at_attempt_number c \<le> at_attempt_number a"
    and "b \<in> set as" "at_attempt_number b = at_attempt_number a"
  shows "b \<in> set (last_attempts as)"
proof (cases "filter failing as")
  case Nil
  then show ?thesis using assms(1,2) by (simp add: filter_empty_conv)
next
  case (Cons c rest)
  let ?n = "fold max (map at_attempt_number rest) (at_attempt_number c)"
  have nums: "set (at_attempt_number c # map at_attempt_number rest) = at_attempt_number ` set (filter failing as)"
    using Cons by simp
  have "?n \<in> at_attempt_number ` set (filter failing as)"
    unfolding nums [symmetric] by (rule fold_max_mem)
  then have "?n \<le> at_attempt_number a" using assms(3) by auto
  moreover have "at_attempt_number a \<le> ?n"
    by (rule fold_max_ge) (unfold nums, use assms(1,2) in simp)
  ultimately show ?thesis
    using Cons assms(4,5) by (simp add: last_attempts_def)
qed

text \<open>
  The dead-letter list also shows deliveries that succeeded.  The query looks for the largest number
  among an event's failing attempts and then takes every attempt of that number, of whatever route and
  outcome.  So in a list that fits its page, an event of which one attempt failed is there with a row for
  that attempt, even if a later attempt was successful, and with another row for every attempt of the
  same number, even if that one was answered with success and has no error.
\<close>
theorem dlq_shows_delivered:
  assumes "list_dlq E call False 200 0 redis d = (Inr out, d')" and "length out < 200"
    and "uuid_parse (ac_workspace_id call) = Inr ws" and "ev \<in> set (workspace_events ws d)" "\<not> ev_is_discarded ev"
    and "a \<in> set (attempts_of d ev)" "failing a"
    and "\<And>c. c \<in> set (attempts_of d ev) \<Longrightarrow> failing c \<Longrightarrow> at_attempt_number c \<le> at_attempt_number a"
    and "b \<in> set (attempts_of d ev)" "at_attempt_number b = at_attempt_number a"
  shows "dlq_view d ev a \<in> set out \<and> dlq_view d ev b \<in> set out"
proof -
  obtain m where gate: "require_workspace_role E ''viewer'' (ac_now call) (ac_token call) (ac_workspace_id call) redis d = Inr m"
    using assms(1) by (auto simp: list_dlq_def with_role_def split: sum.splits)
  then have ws: "mb_workspace_id m = ws"
    using gate_workspace [OF gate] assms(3) by simp
  let ?ids = "workspace_endpoint_ids d ws"
  have own: "ev_endpoint_id ev \<in> set ?ids" "ev \<in> set (events d)"
    using assms(4) by (auto simp: workspace_events_def workspace_endpoints_def workspace_endpoint_ids_def)
  then have "?ids \<noteq> []" by (metis empty_iff list.set(1))
  with assms(1) gate ws have "out = take 200 (dlq_rows d ?ids False)"
    by (auto simp: list_dlq_def relay_defs Let_def page_def split: sum.splits if_splits)
  with assms(2) have out: "out = dlq_rows d ?ids False" by simp
  have "dlq_view d ev c \<in> set (dlq_rows d ?ids False)" if "c \<in> set (last_attempts (attempts_of d ev))" for c
    using that own assms(5) by (auto simp: dlq_rows_def)
  then show ?thesis
    using in_last_attempts [OF assms(6-8)] assms(6,9,10) out by blast
qed

section \<open>Closed examples\<close>

lemma ex_shop_workspace: "workspace_endpoints 2 ex_shop_db = [ex_shop_endpoint]" "workspace_events 2 ex_shop_db = [ex_shop_event]"
  by (simp_all add: workspace_endpoints_def workspace_events_def) (simp_all add: ex_shop_endpoint_def ex_shop_event_def)

lemma ex_shop_ids: "workspace_endpoint_ids ex_shop_db 2 = [5]"
  by (simp add: workspace_endpoint_ids_def) (simp add: ex_shop_endpoint_def)

theorem tenant_isolation_witness:
  "workspace_endpoints 2 (snd (delete_endpoint ex_auth (ex_call (uuid_str 3)) (uuid_str 5) None ex_shop_db)) = [ex_shop_endpoint]"
proof -
  have "endpoint_step ex_auth ex_api (ac_workspace_id (ex_call (uuid_str 3)))
      ex_shop_db (snd (delete_endpoint ex_auth (ex_call (uuid_str 3)) (uuid_str 5) None ex_shop_db))"
    by (rule es_delete)
  then have "endpoint_step ex_auth ex_api (uuid_str 3)
      ex_shop_db (snd (delete_endpoint ex_auth (ex_call (uuid_str 3)) (uuid_str 5) None ex_shop_db))"
    by (simp add: ex_call_def)
  from tenant_isolation [OF disjI1 [OF this] ex_shop_ok, of 2] show ?thesis
    by (simp add: ex_shop_workspace)
qed

theorem events_of_own_workspace_witness:
  "\<exists>rows d'. list_events ex_auth (ex_call (uuid_str 2)) None 50 0 None ex_shop_db = (Inr rows, d') \<and>
     set rows \<subseteq> {ex_shop_event}"
proof -
  have "\<exists>rows. list_events ex_auth (ex_call (uuid_str 2)) None 50 0 None ex_shop_db = (Inr rows, ex_shop_db)"
    using ex_shop_gates [of ex_shop_db "''viewer''"]
    by (simp add: list_events_def with_role_def bad_page_def Let_def endpoint_filter_def or_fail_def page_def)
  then obtain rows where "list_events ex_auth (ex_call (uuid_str 2)) None 50 0 None ex_shop_db = (Inr rows, ex_shop_db)" by blast
  with events_of_own_workspace [OF this] show ?thesis
    by (auto simp: ex_call_def ex_shop_workspace)
qed

theorem discard_and_restore_witness:
  "\<exists>d'. discard_dlq_event ex_auth (ex_call (uuid_str 2)) (uuid_str 7) None ex_shop_db = (Inr (''discarded'', 7), d') \<and>
     restore_dlq_event ex_auth (ex_call (uuid_str 2)) (uuid_str 7) None d' = (Inr (''restored'', 7), ex_shop_db)"
proof -
  have "put_row ev_id (ex_shop_event\<lparr>ev_is_discarded := False, ev_discarded_at := None\<rparr>) (events ex_shop_db) = events ex_shop_db"
    by (simp add: put_row_def) (simp add: ex_shop_event_def)
  moreover have "ex_shop_db\<lparr>events := events ex_shop_db\<rparr> = ex_shop_db" by simp
  moreover have "ev_id ex_shop_event = 7" "\<not> ev_is_discarded ex_shop_event" by (simp_all add: ex_shop_event_def)
  ultimately show ?thesis
    using discard_and_restore [OF ex_shop_ok, of ex_shop_event "\<lparr>mb_user_id = 1, mb_workspace_id = 2, mb_role = ''admin'', mb_joined_at = 0\<rparr>"
        ex_auth "ex_call (uuid_str 2)" None "uuid_str 7"] ex_shop_gates
    by (auto simp: ex_shop_workspace ex_call_def)
qed

theorem dlq_lists_failing_events_witness:
  "\<exists>out. list_dlq ex_auth (ex_call (uuid_str 2)) False 50 0 None ex_shop_db = (Inr out, ex_shop_db) \<and> length out \<le> 200"
proof -
  obtain out d' where "list_dlq ex_auth (ex_call (uuid_str 2)) False 50 0 None ex_shop_db = (Inr out, d')"
    using ex_shop_gates [of ex_shop_db "''viewer''"]
    by (auto simp: list_dlq_def with_role_def bad_page_def or_fail_def page_def ex_shop_ids)
  with dlq_lists_failing_events [OF this] show ?thesis by auto
qed

text \<open>An event whose second attempt was answered with 200.\<close>

definition ex_late_db :: db where
  "ex_late_db = ex_shop_db\<lparr>attempts := [ex_shop_attempt,
     ex_shop_attempt\<lparr>at_id := 9, at_attempt_number := 2, at_response_status := Some 200\<rparr>]\<rparr>"

theorem dlq_shows_delivered_witness:
  "\<exists>out. list_dlq ex_auth (ex_call (uuid_str 2)) False 200 0 None ex_late_db = (Inr out, ex_late_db) \<and>
     dlq_view ex_late_db ex_shop_event ex_shop_attempt \<in> set out"
proof -
  have as: "attempts_of ex_late_db ex_shop_event = [ex_shop_attempt,
      ex_shop_attempt\<lparr>at_id := 9, at_attempt_number := 2, at_response_status := Some 200\<rparr>]"
    by (simp add: attempts_of_def ex_late_db_def ex_shop_attempt_def ex_shop_event_def)
  have fails: "failing ex_shop_attempt" "\<not> failing (ex_shop_attempt\<lparr>at_id := 9, at_attempt_number := 2, at_response_status := Some 200\<rparr>)"
    by (simp_all add: failing_def ex_shop_attempt_def)
  have last: "last_attempts (attempts_of ex_late_db ex_shop_event) = [ex_shop_attempt]"
    using fails by (simp add: as last_attempts_def) (simp add: ex_shop_attempt_def)
  have evs: "events ex_late_db = [ex_shop_event]" by (simp add: ex_late_db_def)
  have tables: "users ex_late_db = users ex_shop_db" "memberships ex_late_db = memberships ex_shop_db"
    by (simp_all add: ex_late_db_def)
  have ids: "workspace_endpoint_ids ex_late_db 2 = [5]" "workspace_events 2 ex_late_db = [ex_shop_event]"
    by (simp_all add: workspace_endpoint_ids_def workspace_events_def workspace_endpoints_def ex_late_db_def)
      (simp_all add: ex_shop_endpoint_def ex_shop_event_def)
  have rows: "dlq_rows ex_late_db [5] False = [dlq_view ex_late_db ex_shop_event ex_shop_attempt]"
    unfolding dlq_rows_def evs using last by (simp add: newest_first_def) (simp add: ex_shop_event_def)
  have out: "list_dlq ex_auth (ex_call (uuid_str 2)) False 200 0 None ex_late_db =
      (Inr [dlq_view ex_late_db ex_shop_event ex_shop_attempt], ex_late_db)"
    using ex_shop_gates [of ex_late_db "''viewer''"] tables
    by (simp add: list_dlq_def with_role_def bad_page_def or_fail_def page_def ids rows)
  have "\<not> ev_is_discarded ex_shop_event" by (simp add: ex_shop_event_def)
  from dlq_shows_delivered [OF out _ _ _ this, of 2 ex_shop_attempt ex_shop_attempt] fails out ids as
  show ?thesis by (auto simp: ex_call_def)
qed

end
