(* ===== verification/System.thy ===== *)
theory System
  imports Gateway Outbox_Relay Retry_Scheduler Transform_Worker Events_Api "HOL-Library.Multiset"
begin

text \<open>
  The whole relay.  A step of the system is one transaction of one of its processes on the shared
  database: a request to one of the API handlers, a webhook, a poll of the outbox relay or of the retry
  scheduler, or a delivery attempt being recorded.  Handlers read and write in one transaction, so a run
  of the system is a sequence of such steps in the order of their commits; Redis, the brokers' state and
  every draw are whatever they are.  The invariant of the database is the conjunction of the components'
  invariants, and the last part composes gateway, relay and transform worker along one event.
\<close>

section \<open>Steps of the system\<close>

inductive system_step :: "('s, 't) auth_env \<Rightarrow> api_env \<Rightarrow> lazy_load \<Rightarrow> 'k sender \<Rightarrow> db \<Rightarrow> db \<Rightarrow> bool"
  for E P lazy send where
  sy_member: "member_step E lazy d d' \<Longrightarrow> system_step E P lazy send d d'"
| sy_endpoint: "endpoint_step E P path d d' \<Longrightarrow> system_step E P lazy send d d'"
| sy_event: "event_step E path d d' \<Longrightarrow> system_step E P lazy send d d'"
| sy_webhook: "system_step E P lazy send d (snd (snd (receive_webhook (G :: 's gateway_env) dr endpoint_id request redis d)))"
| sy_relay: "system_step E P lazy send d (fst (snd (relay_poll send inp d producer)))"
| sy_retry: "system_step E P lazy send d (fst (retry_poll cfg send rinp d producer))"
| sy_attempt: "dw_db w = d \<Longrightarrow>
    system_step E P lazy send d (dw_db (snd (add_attempt (D :: ('s, 'k) denv) ev route body a status content err ms w)))"

text \<open>What holds of every event: nothing in the program gives it another state than pending or queued.\<close>

definition event_ok :: "event_row \<Rightarrow> bool" where
  "event_ok ev \<longleftrightarrow> marks_ok ev \<and> ev_status ev \<in> {''pending'', ''queued''} \<and> ev_retry_at ev = None"

definition sys_inv :: "api_env \<Rightarrow> db \<Rightarrow> bool" where
  "sys_inv P d \<longleftrightarrow> one_owner d \<and> list_all (route_ok P) (routes d) \<and> list_all (endpoint_ok P) (endpoints d) \<and>
     list_all event_ok (events d) \<and> list_all outbox_row_ok (outbox d)"

section \<open>What each kind of step leaves alone\<close>

lemma member_step_rows:
  "member_step E lazy d d' \<Longrightarrow> set (routes d') \<subseteq> set (routes d) \<and> set (endpoints d') \<subseteq> set (endpoints d) \<and>
     events d' = events d \<and> outbox d' = outbox d"
proof (induction rule: member_step.induct)
  case (st_register d dr body redis)
  then show ?case using register_result [of E dr body redis d] by auto
next
  case (st_create d call new_id name redis)
  then show ?case using create_result [of E call new_id name redis d] by auto
next
  case (st_update d call nm redis)
  then show ?case using update_result [of E lazy call nm redis d] by auto
next
  case (st_delete d call redis)
  then show ?case using delete_result [of E lazy call redis d]
    by (auto simp: without_workspace_def Let_def set_drop_row)
next
  case (st_add d call email role redis)
  then show ?case using add_result [of E call email role redis d] by auto
next
  case (st_role d call user_id role redis)
  then show ?case using role_result [of E call user_id role redis d] by auto
next
  case (st_remove d call user_id redis)
  then show ?case using remove_result [of E call user_id redis d] by auto
qed

lemma one_owner_frame:
  "one_owner d \<Longrightarrow> db_ok d' \<Longrightarrow> workspaces d' = workspaces d \<Longrightarrow> memberships d' = memberships d \<Longrightarrow> one_owner d'"
  by (simp add: one_owner_def owners_def)

lemma webhook_result:
  assumes "receive_webhook G dr endpoint_id request redis d = (ans, redis', d')"
  shows "d' = d \<or> (\<exists>ep payload. db_ok d' \<and>
    d' = d\<lparr>events := events d @ [new_event dr ep (header_get ''x-idempotency-key'' (wr_headers request)) payload (wr_headers request)],
           outbox := outbox d @ [new_outbox (ge_cfg G) dr ep]\<rparr>)"
  using assms
  by (auto simp: receive_webhook_def store_event_def Let_def commit_ok split: prod.splits sum.splits bool.splits)

text \<open>The relay writes outbox rows and, of an event, only its status.\<close>

definition relayed :: "db \<Rightarrow> db \<Rightarrow> bool" where
  "relayed d d' \<longleftrightarrow> users d' = users d \<and> workspaces d' = workspaces d \<and> memberships d' = memberships d \<and>
     endpoints d' = endpoints d \<and> routes d' = routes d \<and> attempts d' = attempts d \<and>
     (\<forall>e' \<in> set (events d'). e' \<in> set (events d) \<or> (\<exists>e \<in> set (events d). e' = e\<lparr>ev_status := ''queued''\<rparr>))"

lemma relayed_refl [simp]: "relayed d d"
  by (simp add: relayed_def)

lemma relayed_trans: "relayed a b \<Longrightarrow> relayed b c \<Longrightarrow> relayed a c"
  unfolding relayed_def by (metis (no_types, lifting) event_row.surjective event_row.update_convs(6))

lemma relay_one_relayed: "relay_one send r d p = (d', p') \<Longrightarrow> relayed d d'"
  by (auto simp: relay_one_def relayed_def mark_queued_def split: prod.splits sum.splits option.splits
      dest!: set_put_row by_key_Some)

lemma relay_records_relayed: "relay_records send stop rs d p = (d', p') \<Longrightarrow> relayed d d'"
proof (induction rs arbitrary: stop d p)
  case (Cons r rs)
  obtain d1 p1 where one: "relay_one send r d p = (d1, p1)" by (cases "relay_one send r d p")
  then show ?case
    using Cons relay_one_relayed [OF one] by (auto split: if_splits intro: relayed_trans)
qed simp

lemma relay_poll_relayed:
  assumes "relay_poll send inp d p = (res, d', p')"
  shows "relayed d d' \<and> (db_ok d \<longrightarrow> db_ok d')"
proof -
  obtain d1 p1 where recs: "relay_records send (pi_stop inp) (batch (pi_locked inp) d) d p = (d1, p1)"
    by (cases "relay_records send (pi_stop inp) (batch (pi_locked inp) d) d p")
  have "d' = d \<or> d' = d1 \<and> db_ok d1"
  proof (cases "batch (pi_locked inp) d = []")
    case False
    then show ?thesis using assms recs by (auto simp: relay_poll_def commit_ok split: sum.splits)
  qed (use assms in \<open>simp add: relay_poll_def\<close>)
  then show ?thesis
    using relay_records_relayed [OF recs] by auto
qed

lemma relayed_event_ok: "relayed d d' \<Longrightarrow> list_all event_ok (events d) \<Longrightarrow> list_all event_ok (events d')"
  by (fastforce simp: relayed_def list_all_iff event_ok_def marks_ok_def)

text \<open>No event is ever due for the retry scheduler.\<close>

lemma none_due: "list_all event_ok (events d) \<Longrightarrow> due_events rinp d = []"
  by (auto simp: due_events_def due_def event_ok_def list_all_iff filter_empty_conv)

lemma retry_poll_none: "due_events rinp d = [] \<Longrightarrow> retry_poll cfg send rinp d producer = (d, producer)"
  by (auto simp: retry_poll_def get_kafka_def committed_def commit_def split: option.splits)

lemma attempt_result:
  "dw_db (snd (add_attempt D ev route body a status content err ms w)) = dw_db w \<or>
   (\<exists>row. db_ok (dw_db (snd (add_attempt D ev route body a status content err ms w))) \<and>
      dw_db (snd (add_attempt D ev route body a status content err ms w)) = (dw_db w)\<lparr>attempts := attempts (dw_db w) @ [row]\<rparr>)"
  by (auto simp: add_attempt_def Let_def commit_ok tick_def split: sum.splits)

section \<open>The invariant\<close>

lemma sys_inv_member: "member_step E lazy d d' \<Longrightarrow> sys_inv P d \<Longrightarrow> sys_inv P d'"
  using member_step_rows [of E lazy d d'] one_owner_step [of E lazy d d']
  by (auto simp: sys_inv_def list_all_iff)

lemma sys_inv_endpoint:
  assumes "endpoint_step E P path d d'" and "sys_inv P d"
  shows "sys_inv P d'"
proof -
  obtain ws where change: "endpoint_change P ws d d'"
    using endpoint_step_some_change [OF assms(1)] by blast
  have "routes_ok P d'"
    using change_routes_ok [OF change] assms(2) by (simp add: sys_inv_def routes_ok_def one_owner_def)
  then show ?thesis
    using change_endpoints_ok [OF change] change_rest [OF change] one_owner_frame [of d d'] assms(2)
    by (simp add: sys_inv_def routes_ok_def)
qed

lemma sys_inv_event:
  assumes "event_step E path d d'" and "sys_inv P d"
  shows "sys_inv P d'"
proof -
  obtain ws where change: "event_change ws d d'"
    using event_step_some_change [OF assms(1)] by blast
  have "list_all event_ok (events d')"
    using change assms(2)
    by (induction rule: event_change.induct)
      (auto simp: sys_inv_def list_all_iff event_ok_def marks_ok_def workspace_events_def dest!: set_put_row)
  moreover have "db_ok d'"
    using event_change_db_ok [OF change] assms(2) by (simp add: sys_inv_def one_owner_def)
  ultimately show ?thesis
    using event_change_rest [OF change] one_owner_frame [of d d'] assms(2) by (simp add: sys_inv_def)
qed

lemma sys_inv_webhook:
  assumes "sys_inv P d"
  shows "sys_inv P (snd (snd (receive_webhook G dr endpoint_id request redis d)))"
proof -
  obtain ans redis' d' where run: "receive_webhook G dr endpoint_id request redis d = (ans, redis', d')"
    by (metis prod_cases3)
  show ?thesis
    using webhook_result [OF run] assms one_owner_frame [of d d']
    by (auto simp: run sys_inv_def event_ok_def marks_ok_def new_event_def outbox_row_ok_def new_outbox_def max_attempts_def)
qed

lemma sys_inv_relay:
  assumes "sys_inv P d"
  shows "sys_inv P (fst (snd (relay_poll send inp d producer)))"
proof -
  obtain res d' p' where poll: "relay_poll send inp d producer = (res, d', p')" by (metis prod_cases3)
  note r = relay_poll_relayed [OF poll]
  show ?thesis
    using assms r relayed_event_ok [of d d'] relay_poll_ok [OF poll] one_owner_frame [of d d']
    by (simp add: poll sys_inv_def relayed_def one_owner_def)
qed

lemma sys_inv_retry: "sys_inv P d \<Longrightarrow> sys_inv P (fst (retry_poll cfg send rinp d producer))"
  using retry_poll_none [OF none_due [of d rinp], of cfg send producer] by (simp add: sys_inv_def)

lemma sys_inv_attempt:
  assumes "sys_inv P (dw_db w)"
  shows "sys_inv P (dw_db (snd (add_attempt D ev route body a status content err ms w)))"
  using attempt_result [of D ev route body a status content err ms w] assms
    one_owner_frame [of "dw_db w" "dw_db (snd (add_attempt D ev route body a status content err ms w))"]
  by (auto simp: sys_inv_def)

lemma sys_inv_step: "system_step E P lazy send d d' \<Longrightarrow> sys_inv P d \<Longrightarrow> sys_inv P d'"
  by (induction rule: system_step.induct)
    (auto intro: sys_inv_member sys_inv_endpoint sys_inv_event sys_inv_webhook sys_inv_relay sys_inv_retry sys_inv_attempt)

lemma sys_inv_empty: "sys_inv P empty_db"
  using empty_one_owner by (simp add: sys_inv_def) (simp add: empty_db_def)

lemma sys_inv_reachable: "(system_step E P lazy send)\<^sup>*\<^sup>* empty_db d \<Longrightarrow> sys_inv P d"
  by (induction rule: rtranclp_induct) (auto intro: sys_inv_step sys_inv_empty)

section \<open>The relay drains the outbox\<close>

text \<open>One poll whose sends all succeed: the batch leaves the pending rows, and nothing else does.\<close>

lemma batch_quiet: "batch (\<lambda>i. False) d = take 10 (sort_key ob_created_at (pending_rows d))"
  by (simp add: batch_def batch_size_def pending_rows_def)

lemma pending_completed:
  assumes "set b \<subseteq> set (pending_rows d)"
  shows "pending_rows (d\<lparr>outbox := map (\<lambda>r. if r \<in> set b then completed_row r else r) (outbox d), events := es\<rparr>) =
    filter (\<lambda>r. r \<notin> set b) (pending_rows d)"
proof -
  have "filter (\<lambda>r. ob_status r = ''pending'') (map (\<lambda>r. if r \<in> set b then completed_row r else r) rows) =
      filter (\<lambda>r. r \<notin> set b) (filter (\<lambda>r. ob_status r = ''pending'') rows)" for rows
    by (induction rows) (auto simp: completed_row_def)
  then show ?thesis by (simp add: pending_rows_def)
qed

lemma split_pending:
  assumes "keyed ob_id (outbox d)"
  shows "mset (pending_rows d) = mset (batch (\<lambda>i. False) d) + mset (filter (\<lambda>r. r \<notin> set (batch (\<lambda>i. False) d)) (pending_rows d))"
proof -
  let ?b = "batch (\<lambda>i. False) d"
  have dist: "distinct (pending_rows d)"
    using assms by (auto simp: pending_rows_def keyed_def distinct_map)
  have sub: "set ?b \<subseteq> set (pending_rows d)"
    using batch_set by (fastforce simp: pending_rows_def)
  have "mset (pending_rows d) = mset (?b @ filter (\<lambda>r. r \<notin> set ?b) (pending_rows d))"
  proof (rule set_eq_iff_mset_eq_distinct [THEN iffD1])
    show "distinct (pending_rows d)" by (rule dist)
    show "distinct (?b @ filter (\<lambda>r. r \<notin> set ?b) (pending_rows d))"
      using batch_distinct [OF assms] dist by auto
    show "set (pending_rows d) = set (?b @ filter (\<lambda>r. r \<notin> set ?b) (pending_rows d))"
      using sub by auto
  qed
  then show ?thesis by simp
qed

lemma drained_rows:
  assumes "set b \<subseteq> set (pending_rows d)"
  shows "map (\<lambda>r. if ob_status r = ''pending'' then completed_row r else r)
      (map (\<lambda>r. if r \<in> set b then completed_row r else r) (outbox d)) =
    map (\<lambda>r. if ob_status r = ''pending'' then completed_row r else r) (outbox d)"
  using assms by (auto simp: completed_row_def pending_rows_def)

lemma drain:
  assumes "kafka_producer send lg" and "\<And>m k. fst (send m k) = Inr ()"
  shows "db_ok d \<Longrightarrow> length (pending_rows d) \<le> 10 * n \<Longrightarrow>
    \<exists>d' k'. relay_run send (replicate n quiet) d (Some k) = (Inr (), d', Some k') \<and>
      outbox d' = map (\<lambda>r. if ob_status r = ''pending'' then completed_row r else r) (outbox d) \<and>
      mset (lg k') = mset (lg k) + mset (map outbox_msg (pending_rows d))"
proof (induction n arbitrary: d k)
  case 0
  then have "pending_rows d = []" by simp
  moreover from this have "map (\<lambda>r. if ob_status r = ''pending'' then completed_row r else r) (outbox d) = outbox d"
    by (auto simp: pending_rows_def filter_empty_conv intro!: map_idI)
  ultimately show ?case by simp
next
  case (Suc n)
  let ?b = "batch (\<lambda>i. False) d"
  let ?d = "d\<lparr>outbox := map (\<lambda>r. if r \<in> set ?b then completed_row r else r) (outbox d),
    events := map (queued (ob_event_id ` set ?b)) (events d)\<rparr>"
  let ?k = "fold (\<lambda>r k. snd (send (outbox_msg r) k)) ?b k"
  have keys: "keyed ob_id (outbox d)" using Suc.prems(1) by (simp add: db_ok_def integrity_def)
  have sub: "set ?b \<subseteq> set (pending_rows d)" using batch_set by (fastforce simp: pending_rows_def)
  note poll = up_poll [OF assms(2) Suc.prems(1), where k = k]
  have ok: "db_ok ?d" using relay_poll_relayed [OF poll] Suc.prems(1) by blast
  note split = split_pending [OF keys]
  have "length ?b = min 10 (length (pending_rows d))" by (simp add: batch_quiet)
  moreover have "length (pending_rows d) = length ?b + length (filter (\<lambda>r. r \<notin> set ?b) (pending_rows d))"
    using split by (metis size_mset size_union)
  ultimately have "length (pending_rows ?d) \<le> 10 * n"
    using Suc.prems(2) by (simp add: pending_completed [OF sub])
  from Suc.IH [OF ok this, of ?k] obtain d' k' where run: "relay_run send (replicate n quiet) ?d (Some ?k) = (Inr (), d', Some k')"
    "outbox d' = map (\<lambda>r. if ob_status r = ''pending'' then completed_row r else r) (outbox ?d)"
    "mset (lg k') = mset (lg ?k) + mset (map outbox_msg (pending_rows ?d))" by blast
  have "mset (lg k') = mset (lg k) + image_mset outbox_msg (mset ?b + mset (filter (\<lambda>r. r \<notin> set ?b) (pending_rows d)))"
    using run(3) kafka_producer.fold_send_log [OF assms, where rs = ?b and k = k] by (simp add: pending_completed [OF sub])
  then have "mset (lg k') = mset (lg k) + mset (map outbox_msg (pending_rows d))"
    by (simp only: split [symmetric] mset_map)
  moreover have "outbox d' = map (\<lambda>r. if ob_status r = ''pending'' then completed_row r else r) (outbox d)"
    using run(2) drained_rows [OF sub] by simp
  moreover have "relay_run send (replicate (Suc n) quiet) d (Some k) = (Inr (), d', Some k')"
    using poll run(1) by simp
  ultimately show ?case by blast
qed

section \<open>Along one event\<close>

lemma accepted_facts:
  assumes "receive_webhook G dr endpoint_id request redis d = (Inr (Accepted i), redis', d1)"
  obtains ep payload raw where "uuid_parse endpoint_id = Inr (ep_id ep)" "read_limited_body (ge_cfg G) request = Inr raw"
    "ge_json_loads G raw = Inr payload" "i = dr_event_id dr" "db_ok d1"
    "d1 = d\<lparr>events := events d @ [new_event dr ep (header_get ''x-idempotency-key'' (wr_headers request)) payload (wr_headers request)],
       outbox := outbox d @ [new_outbox (ge_cfg G) dr ep]\<rparr>"
proof -
  obtain ep payload redis1 where a: "admit G dr endpoint_id request redis d = (Inr (ep, payload), redis1)"
    and s: "store_event (ge_cfg G) dr ep (header_get ''x-idempotency-key'' (wr_headers request)) payload (wr_headers request) d = Inr d1"
    and i: "i = dr_event_id dr"
    using accepted_steps [OF assms] by blast
  obtain raw uid where "read_limited_body (ge_cfg G) request = Inr raw" "uuid_parse endpoint_id = Inr uid"
    "by_key ep_id uid (endpoints d) = Some ep" "ge_json_loads G raw = Inr payload"
    using admit_ok [OF a] by blast
  then show thesis
    using that [of ep raw payload] s i by_key_Some [of ep_id uid "endpoints d" ep] by (auto simp: store_event_def commit_ok)
qed

lemma fan_out:
  assumes "kafka_producer send lg" and "\<And>m k. fst (send m k) = Inr ()"
    and "by_key ev_id i (events d) = Some ev"
    and "dict_get data ''event_id'' JNull = JStr (uuid_str i)"
    and "dict_get data ''endpoint_id'' JNull = JStr (uuid_str ep)"
  shows "lg (handle_message T send d data k) = lg k @ deliveries T ev (active_routes d ep)"
  unfolding handle_event [OF assms(3-5)] using kafka_producer.dispatch_routes_log [OF assms(1,2)] by simp

section \<open>Properties\<close>

text \<open>
  C5: the invariant of the system.  From an empty database on, after any sequence of API requests,
  webhooks, relay polls, scheduler polls and recorded attempts, whatever fails in them: the constraints
  of all tables hold, every workspace has exactly one owner, every endpoint has a secret and no address
  list, every event is pending or queued with consistent discard columns, and every outbox record is in
  one of its three states with at most ten attempts.
\<close>
theorem system_invariant:
  assumes "(system_step E P lazy send)\<^sup>*\<^sup>* empty_db d"
  shows "db_ok d \<and>
    list_all (\<lambda>w. length (filter (\<lambda>m. mb_workspace_id m = ws_id w \<and> mb_role m = ''owner'') (memberships d)) = 1) (workspaces d) \<and>
    list_all (\<lambda>e. ep_hmac_secret e \<noteq> [] \<and> ep_ip_allowlist e = None) (endpoints d) \<and>
    list_all (\<lambda>ev. ev_status ev \<in> {''pending'', ''queued''} \<and> (ev_is_discarded ev \<longleftrightarrow> ev_discarded_at ev \<noteq> None)) (events d) \<and>
    list_all (\<lambda>r. ob_status r \<in> {''pending'', ''completed'', ''failed''} \<and> 0 \<le> ob_attempts r \<and> ob_attempts r \<le> 10) (outbox d)"
  using sys_inv_reachable [OF assms]
  by (auto simp: sys_inv_def one_owner_def owners_def endpoint_ok_def event_ok_def marks_ok_def outbox_row_ok_def
      max_attempts_def list_all_iff)

text \<open>
  C11: what a stored route can be.  In every reachable state, every route's URL is one the URL check
  accepts, its filter is blank or compiles, and running its pipeline can only raise what JMESPath or a
  division raised, never an exception of the engine's own.
\<close>
theorem stored_routes_valid:
  assumes "(system_step E P lazy send)\<^sup>*\<^sup>* empty_db d" and "r \<in> set (routes d)"
  shows "validate_delivery_url (pe_cfg P) (rt_url r) = Inr (rt_url r) \<and>
    (rt_filter_expression r = None \<or> (\<exists>x. rt_filter_expression r = Some x \<and> (py_strip is_space x = [] \<or> pe_compile P x = Inr ()))) \<and>
    (rt_transform_pipeline r = Some ds \<longrightarrow> apply_pipeline fo js ds payload = Inl e \<longrightarrow> foreign_exc fo js e)"
proof -
  have ok: "route_ok P r"
    using sys_inv_reachable [OF assms(1)] assms(2) by (simp add: sys_inv_def list_all_iff)
  have "foreign_exc fo js e" if p: "rt_transform_pipeline r = Some ds" and run: "apply_pipeline fo js ds payload = Inl e"
  proof -
    obtain ss where "ds = map step_dump ss" "list_all (step_ok (pe_compile P)) ss"
      using pipeline_ok_steps ok p by (auto simp: route_ok_def)
    then show ?thesis using run_steps_foreign run by (simp add: apply_pipeline_def)
  qed
  with ok show ?thesis
    by (auto simp: route_ok_def filter_ok_def split: option.splits)
qed


text \<open>
  C26: the retry scheduler has nothing to do.  It looks for events whose status is failed, but no
  transaction of the program ever sets that status: in every reachable state a poll of the scheduler sends
  nothing and changes nothing, whatever the time and however many deliveries have failed.
\<close>
theorem retry_scheduler_idle:
  assumes "(system_step E P lazy send)\<^sup>*\<^sup>* empty_db d"
  shows "retry_poll cfg send rinp d producer = (d, producer)"
  using sys_inv_reachable [OF assms] by (intro retry_poll_none none_due) (simp add: sys_inv_def)

text \<open>
  C14: the relay drains the outbox.  If every send succeeds, \<open>n\<close> polls in a row complete all pending
  records, up to \<open>10 n\<close> of them, and the broker's log grows by the messages of those records, each of
  them exactly once.
\<close>
theorem relay_drains:
  assumes "kafka_producer send lg" and "\<And>m k. fst (send m k) = Inr ()" and "db_ok d"
    and "length (filter (\<lambda>r. ob_status r = ''pending'') (outbox d)) \<le> 10 * n"
  shows "\<exists>d' k'. relay_run send (replicate n quiet) d (Some k) = (Inr (), d', Some k') \<and>
    outbox d' = map (\<lambda>r. if ob_status r = ''pending'' then r\<lparr>ob_status := ''completed''\<rparr> else r) (outbox d) \<and>
    mset (lg k') = mset (lg k) + mset (map outbox_msg (filter (\<lambda>r. ob_status r = ''pending'') (outbox d)))"
  using drain [OF assms(1,2,3), where n = n and k = k] assms(4) unfolding pending_rows_def completed_row_def by simp

text \<open>The poll of the relay that hands a record of the batch over: its event is queued, its message is in the log.\<close>

lemma poll_hands_over:
  assumes "kafka_producer send lg" and up: "\<And>m k. fst (send m k) = Inr ()" and ok: "db_ok d"
    and ob: "ob \<in> set (batch (\<lambda>i. False) d)" and ev: "ev \<in> set (events d)" "ob_event_id ob = ev_id ev"
  shows "\<exists>d2 k2. relay_poll send quiet d (Some k) = (Inr (), d2, Some k2) \<and> routes d2 = routes d \<and>
    by_key ev_id (ev_id ev) (events d2) = Some (ev\<lparr>ev_status := ''queued''\<rparr>) \<and> outbox_msg ob \<in> set (lg k2)"
proof -
  let ?b = "batch (\<lambda>i. False) d"
  let ?d2 = "d\<lparr>outbox := map (\<lambda>r. if r \<in> set ?b then completed_row r else r) (outbox d),
    events := map (queued (ob_event_id ` set ?b)) (events d)\<rparr>"
  let ?k2 = "fold (\<lambda>r k. snd (send (outbox_msg r) k)) ?b k"
  have poll: "relay_poll send quiet d (Some k) = (Inr (), ?d2, Some ?k2)"
    by (rule up_poll [OF _ ok]) (rule up)
  have "queued (ob_event_id ` set ?b) ev = ev\<lparr>ev_status := ''queued''\<rparr>"
    using ob ev(2) by (force simp: queued_def)
  then have mem: "ev\<lparr>ev_status := ''queued''\<rparr> \<in> set (events ?d2)"
    using ev(1) by (force simp: image_iff)
  have "db_ok ?d2" using relay_poll_relayed [OF poll] ok by blast
  then have "keyed ev_id (events ?d2)" by (simp only: db_ok_def integrity_def)
  from by_key_in [OF this mem] have "by_key ev_id (ev_id ev) (events ?d2) = Some (ev\<lparr>ev_status := ''queued''\<rparr>)"
    by simp
  moreover have "outbox_msg ob \<in> set (lg ?k2)"
    using kafka_producer.fold_send_log [OF assms(1) up, where rs = ?b and k = k] ob by simp
  ultimately show ?thesis
    using poll by (intro exI [of _ ?d2] exI [of _ ?k2]) simp
qed

text \<open>
  C4: a webhook reaches its routes.  If the gateway accepts a webhook while fewer than ten outbox records
  are pending, then after one poll of the relay in which the sends succeed, the event is stored with the
  parsed body and queued, and the poll has put a message into the raw topic for which the transform worker
  sends exactly one delivery message per active route of the endpoint whose filter takes the event and
  whose pipeline does not raise.
\<close>
theorem webhook_fan_out:
  assumes "kafka_producer send lg" and "\<And>m k. fst (send m k) = Inr ()"
    and "receive_webhook G dr endpoint_id request redis d = (Inr (Accepted i), redis', d1)"
    and "length (filter (\<lambda>r. ob_status r = ''pending'') (outbox d)) < 10"
  shows "\<exists>ep raw ev m data d2 k2. uuid_parse endpoint_id = Inr ep \<and> read_limited_body (ge_cfg G) request = Inr raw \<and>
    relay_poll send quiet d1 (Some k) = (Inr (), d2, Some k2) \<and>
    by_key ev_id i (events d2) = Some ev \<and> ev_status ev = ''queued'' \<and> ge_json_loads G raw = Inr (ev_request_body ev) \<and>
    m \<in> set (lg k2) \<and> km_topic m = kafka_topic_raw_events (ge_cfg G) \<and> km_value m = JObj data \<and>
    (\<forall>k3. lg (handle_message T send d2 data k3) = lg k3 @
      concat (map (\<lambda>r. case route_body T ev r of None \<Rightarrow> [] | Some body \<Rightarrow> [delivery_msg (te_cfg T) ev r body])
        (filter (\<lambda>r. rt_endpoint_id r = ep \<and> rt_is_active r) (routes d))))"
proof (rule accepted_facts [OF assms(3)])
  fix ep payload raw
  assume parts: "uuid_parse endpoint_id = Inr (ep_id ep)" "read_limited_body (ge_cfg G) request = Inr raw"
    "ge_json_loads G raw = Inr payload" "i = dr_event_id dr" and ok: "db_ok d1"
    and d1: "d1 = d\<lparr>events := events d @ [new_event dr ep (header_get ''x-idempotency-key'' (wr_headers request)) payload (wr_headers request)],
       outbox := outbox d @ [new_outbox (ge_cfg G) dr ep]\<rparr>"
  let ?ev = "new_event dr ep (header_get ''x-idempotency-key'' (wr_headers request)) payload (wr_headers request)"
  let ?ob = "new_outbox (ge_cfg G) dr ep" and ?q = "?ev\<lparr>ev_status := ''queued''\<rparr>"
  let ?data = "[(''event_id'', JStr (uuid_str i)), (''endpoint_id'', JStr (uuid_str (ep_id ep)))]"
  have "set (batch (\<lambda>i. False) d1) = set (pending_rows d1)"
    using assms(4) by (intro batch_all) (simp add: d1 pending_rows_def)
  then have "?ob \<in> set (batch (\<lambda>i. False) d1)" by (simp add: d1 pending_rows_def new_outbox_def)
  then obtain d2 k2 where poll: "relay_poll send quiet d1 (Some k) = (Inr (), d2, Some k2)" "routes d2 = routes d1"
      "by_key ev_id (ev_id ?ev) (events d2) = Some ?q" "outbox_msg ?ob \<in> set (lg k2)"
    using poll_hands_over [OF assms(1,2) ok, of ?ob ?ev k] by (auto simp: d1 new_outbox_def new_event_def)
  have ev: "by_key ev_id i (events d2) = Some ?q"
    using poll(3) by (simp add: parts(4) new_event_def)
  have msg: "km_topic (outbox_msg ?ob) = kafka_topic_raw_events (ge_cfg G)" "km_value (outbox_msg ?ob) = JObj ?data"
    by (simp_all add: outbox_msg_def new_outbox_def parts(4))
  have "lg (handle_message T send d2 ?data k3) = lg k3 @ deliveries T ?q (active_routes d2 (ep_id ep))" for k3
    by (rule fan_out [OF assms(1,2) ev]) (simp_all add: dict_get_def)
  then have fan: "\<forall>k3. lg (handle_message T send d2 ?data k3) = lg k3 @
      concat (map (\<lambda>r. case route_body T ?q r of None \<Rightarrow> [] | Some body \<Rightarrow> [delivery_msg (te_cfg T) ?q r body])
        (filter (\<lambda>r. rt_endpoint_id r = ep_id ep \<and> rt_is_active r) (routes d)))"
    by (simp add: deliveries_def active_routes_def poll(2) d1)
  have body: "ev_status ?q = ''queued''" "ge_json_loads G raw = Inr (ev_request_body ?q)"
    by (simp_all add: parts(3) new_event_def)
  show ?thesis
    using parts(1,2) poll(1,4) ev body msg fan by blast
qed

text \<open>
  A replay repeats the fan-out.  A successful replay changes nothing in the database and sends one
  message to the raw topic; the transform worker handles it like the first one, with one delivery message
  per active matching route, whether or not earlier deliveries succeeded and even if the event has been
  discarded.
\<close>
theorem replay_repeats_fan_out:
  assumes "kafka_producer send lg" and "\<And>m k. fst (send m k) = Inr ()"
    and "replay_event E send call i redis d (Some k) = (Inr (answer, eid), Some k')"
  shows "\<exists>ws ev m data. uuid_parse (ac_workspace_id call) = Inr ws \<and> ev \<in> set (workspace_events ws d) \<and> ev_id ev = eid \<and>
    lg k' = lg k @ [m] \<and> km_topic m = kafka_topic_raw_events (ae_cfg E) \<and> km_value m = JObj data \<and>
    (\<forall>k3. lg (handle_message T send d data k3) = lg k3 @
      concat (map (\<lambda>r. case route_body T ev r of None \<Rightarrow> [] | Some body \<Rightarrow> [delivery_msg (te_cfg T) ev r body])
        (filter (\<lambda>r. rt_endpoint_id r = ev_endpoint_id ev \<and> rt_is_active r) (routes d))))"
proof -
  obtain ev where ev: "fst (with_event E ''admin'' call i redis d (\<lambda>ev. (Inr ev, d))) = Inr ev"
    and sent: "send (replay_msg (ae_cfg E) ev) k = (Inr (), k')" and eid: "eid = ev_id ev"
    using assms(3) by (auto simp: replay_event_def get_kafka_def split: sum.splits prod.splits)
  obtain m where gate: "require_workspace_role E ''admin'' (ac_now call) (ac_token call) (ac_workspace_id call) redis d = Inr m"
    and found: "get_event_or_404 d (ev_id ev) (mb_workspace_id m) = Inr ev"
    using ev by (auto simp: with_event_def relay_defs split: sum.splits dest: get_event_member)
  have key: "by_key ev_id (ev_id ev) (events d) = Some ev" using found by (simp add: get_event_Inr)
  let ?data = "[(''event_id'', JStr (uuid_str (ev_id ev))), (''endpoint_id'', JStr (uuid_str (ev_endpoint_id ev))),
    (''is_replay'', JBool True)]"
  have "lg (handle_message T send d ?data k3) = lg k3 @ deliveries T ev (active_routes d (ev_endpoint_id ev))" for k3
    by (rule fan_out [OF assms(1,2) key]) (simp_all add: dict_get_def)
  then have fan: "\<forall>k3. lg (handle_message T send d ?data k3) = lg k3 @
      concat (map (\<lambda>r. case route_body T ev r of None \<Rightarrow> [] | Some body \<Rightarrow> [delivery_msg (te_cfg T) ev r body])
        (filter (\<lambda>r. rt_endpoint_id r = ev_endpoint_id ev \<and> rt_is_active r) (routes d)))"
    by (simp add: deliveries_def active_routes_def)
  have "lg k' = lg k @ [replay_msg (ae_cfg E) ev]"
    using kafka_producer.send_ok [OF assms(1) sent] .
  moreover have "km_topic (replay_msg (ae_cfg E) ev) = kafka_topic_raw_events (ae_cfg E)" "km_value (replay_msg (ae_cfg E) ev) = JObj ?data"
    by (simp_all add: replay_msg_def)
  ultimately show ?thesis
    using gate_workspace [OF gate] get_event_member [OF found] eid fan by blast
qed

section \<open>Closed examples\<close>

text \<open>A run: an account is registered, an endpoint created, a route added.\<close>

definition ex_account_db :: db where
  "ex_account_db = empty_db\<lparr>users := [new_user ex_auth ex_auth_draw ex_body],
     workspaces := [own_workspace ex_auth_draw ex_body], memberships := [own_membership ex_auth_draw]\<rparr>"

definition ex_new_endpoint :: endpoint_create where
  "ex_new_endpoint = \<lparr>ec_name = ''shop'', ec_hmac_secret = None, ec_rate_limit_rps = Some 5, ec_request_body_schema = None\<rparr>"

definition ex_url :: string where
  "ex_url = ''https://'' @ dotted 8 8 8 8 @ ''/'' @ ''hook''"

definition ex_new_route :: route_create where
  "ex_new_route = \<lparr>rcr_name = ''r'', rcr_url = ex_url, rcr_method = ''POST'', rcr_headers = None,
     rcr_transform_pipeline = Some [JObj [(''type'', JStr ''passthrough'')]], rcr_timeout_ms = 10000, rcr_max_retries = 5,
     rcr_retry_backoff_ms = 1000, rcr_rate_limit_rpm = None, rcr_filter_expression = None\<rparr>"

definition ex_endpoint_db :: db where
  "ex_endpoint_db = ex_account_db\<lparr>endpoints := [\<lparr>ep_id = 5, ep_workspace_id = 2, ep_name = ''shop'',
     ep_hmac_secret = replicate 64 CHR ''a'', ep_is_active = True, ep_rate_limit_rps = Some 5, ep_ip_allowlist = None,
     ep_request_body_schema = None, ep_created_at = 2000, ep_updated_at = 2000\<rparr>]\<rparr>"

definition ex_stored_route :: route_row where
  "ex_stored_route = \<lparr>rt_id = 6, rt_endpoint_id = 5, rt_name = ''r'', rt_url = ex_url, rt_method = ''POST'', rt_headers = None,
     rt_transform_pipeline = Some [[(''type'', JStr ''passthrough'')]], rt_rate_limit_rpm = None, rt_timeout_ms = 10000,
     rt_max_retries = 5, rt_retry_backoff_ms = 1000, rt_is_active = True, rt_filter_expression = None, rt_created_at = 2000\<rparr>"

definition ex_route_db :: db where
  "ex_route_db = ex_endpoint_db\<lparr>routes := [ex_stored_route]\<rparr>"

lemma ex_account: "member_step ex_auth ex_lazy empty_db ex_account_db"
proof -
  obtain out d where reg: "register ex_auth ex_auth_draw ex_body None empty_db = (Inr out, None, d)"
    using ex_register by blast
  then have "d = ex_account_db"
    by (auto simp: register_def create_account_def Let_def bind_res_eq_Inr commit_ok ex_account_db_def empty_db_def
        split: prod.splits sum.splits if_splits)
  then show ?thesis
    using member_step.st_register [of ex_auth ex_lazy empty_db ex_auth_draw ex_body None] reg by simp
qed

lemma ex_account_tables:
  "endpoints ex_account_db = []" "routes ex_account_db = []"
  by (simp_all add: ex_account_db_def empty_db_def)

lemma ex_account_gate:
  assumes "users d = users ex_account_db" "memberships d = memberships ex_account_db" "minimum \<in> {''viewer'', ''member'', ''admin''}"
  shows "require_workspace_role ex_auth minimum (ac_now (ex_call (uuid_str 2))) (ac_token (ex_call (uuid_str 2)))
     (ac_workspace_id (ex_call (uuid_str 2))) None d = Inr (own_membership ex_auth_draw)"
proof -
  have user: "get_current_user ex_auth 2000 (create_access_token ex_auth 1000 3 (sub_claim 1) None) None ex_account_db =
      Inr (new_user ex_auth ex_auth_draw ex_body)"
    using current_user_issued [OF ex_codec, of 2000 1000 3 1 None ex_account_db]
    by (simp add: ex_expiry check_revoked_def get_redis_def)
      (simp add: ex_account_db_def by_key_def new_user_def ex_auth_draw_def)
  have "get_workspace_membership ex_account_db (uuid_str 2) (new_user ex_auth ex_auth_draw ex_body) = Inr (own_membership ex_auth_draw)"
    by (simp add: get_workspace_membership_def by_key_def ex_account_db_def new_user_def own_membership_def ex_auth_draw_def)
  moreover have "check_role minimum (own_membership ex_auth_draw) = Inr (own_membership ex_auth_draw)"
    using assms(3) by (auto simp: check_role_def role_level_def own_membership_def)
  ultimately show ?thesis
    unfolding gate_cong [OF assms(1,2)] by (simp add: ex_call_def require_workspace_role_def user)
qed

lemma ex_slug: "short (slugify n)"
  using slugify_length [of n] by (simp add: short_def)

lemmas ex_db_simps = db_ok_def fits_def integrity_def keyed_def refers_def ex_account_db_def empty_db_def new_user_def
  own_workspace_def own_membership_def ex_auth_draw_def ex_body_def ex_email fits_user_def fits_workspace_def fits_membership_def
  hash_password_def peppered_password_def ex_auth_def

lemma ex_account_ok: "db_ok ex_account_db"
  using one_owner_step [OF ex_account empty_one_owner] by (simp add: one_owner_def)

lemma db_ok_new_endpoint:
  "db_ok d \<Longrightarrow> endpoints d = [] \<Longrightarrow> fits_endpoint e \<Longrightarrow> ep_workspace_id e \<in> ws_id ` set (workspaces d) \<Longrightarrow>
   routes d = [] \<Longrightarrow> events d = [] \<Longrightarrow> db_ok (d\<lparr>endpoints := [e]\<rparr>)"
  by (simp add: db_ok_def fits_def integrity_def keyed_def refers_def)

lemma db_ok_new_route:
  "db_ok d \<Longrightarrow> routes d = [] \<Longrightarrow> fits_route r \<Longrightarrow> rt_endpoint_id r \<in> ep_id ` set (endpoints d) \<Longrightarrow>
   attempts d = [] \<Longrightarrow> db_ok (d\<lparr>routes := [r]\<rparr>)"
  by (simp add: db_ok_def fits_def integrity_def keyed_def refers_def)

lemma ex_endpoint_ok: "db_ok ex_endpoint_db"
  unfolding ex_endpoint_db_def
  by (rule db_ok_new_endpoint [OF ex_account_ok])
    (simp_all add: ex_account_db_def empty_db_def fits_endpoint_def short_def int4_def opt_ok_def own_workspace_def ex_auth_draw_def)

lemma ex_url_ok: "validate_delivery_url default_settings ex_url = Inr ex_url"
  unfolding ex_url_def by (subst quad_decision) (simp_all add: blocked_octets_def)

lemma ex_route_ok: "db_ok ex_route_db"
  unfolding ex_route_db_def
  by (rule db_ok_new_route [OF ex_endpoint_ok])
    (simp_all add: ex_endpoint_db_def ex_account_db_def empty_db_def ex_stored_route_def fits_route_def short_def int4_def opt_ok_def)

lemma ex_create: "endpoint_step ex_auth ex_api (uuid_str 2) ex_account_db ex_endpoint_db"
proof -
  have "snd (create_endpoint ex_auth ex_api (ex_call (uuid_str 2)) \<lparr>pd_id = 5, pd_token_hex = replicate 64 CHR ''a''\<rparr>
      ex_new_endpoint None ex_account_db) = ex_endpoint_db"
    using ex_account_gate [of ex_account_db "''member''"]
    by (simp add: finish_ok [OF ex_endpoint_ok, unfolded ex_endpoint_db_def] create_endpoint_def with_role_def Let_def ex_account_tables ex_new_endpoint_def own_membership_def
        ex_auth_draw_def stored_schema_def ex_call_def ex_endpoint_db_def)
  then show ?thesis
    using endpoint_step.es_create [of "\<lparr>pd_id = 5, pd_token_hex = replicate 64 CHR ''a''\<rparr>" ex_api ex_new_endpoint ex_auth
        "ex_call (uuid_str 2)" ex_account_db None] by (simp add: ex_call_def ex_new_endpoint_def opt_ok_def)
qed

lemma ex_add_route: "endpoint_step ex_auth ex_api (uuid_str 2) ex_endpoint_db ex_route_db"
proof -
  have "new_route (pe_compile ex_api) 6 2000 0 ex_new_route = Inr (ex_stored_route\<lparr>rt_endpoint_id := 0\<rparr>)"
    by (simp add: new_route_def parse_pipeline_def ex_new_route_def ex_stored_route_def parse_step_def dict_get_def
        check_filter_def validate_jmespath_def)
  moreover have "ex_stored_route\<lparr>rt_endpoint_id := 5\<rparr> = ex_stored_route" by (simp add: ex_stored_route_def)
  moreover have "routes ex_endpoint_db = []" by (simp add: ex_endpoint_db_def ex_account_tables)
  moreover have "own_endpoint ex_endpoint_db (own_membership ex_auth_draw) 5 ''endpoint'' = Inr (hd (endpoints ex_endpoint_db))"
    "ep_id (hd (endpoints ex_endpoint_db)) = 5"
    by (simp_all add: own_endpoint_def ex_endpoint_db_def by_key_def own_membership_def ex_auth_draw_def)
  moreover have "require_workspace_role ex_auth ''member'' 2000 (create_access_token ex_auth 1000 3 (sub_claim 1) None)
      (uuid_str 2) None ex_endpoint_db = Inr (own_membership ex_auth_draw)"
    using ex_account_gate [of ex_endpoint_db "''member''"] by (simp add: ex_endpoint_db_def ex_call_def)
  ultimately have "snd (add_route ex_auth ex_api (ex_call (uuid_str 2)) \<lparr>pd_id = 6, pd_token_hex = []\<rparr> (uuid_str 5)
      ex_new_route None ex_endpoint_db) = ex_route_db"
    using ex_url_ok
    by (simp add: finish_ok [OF ex_route_ok, unfolded ex_route_db_def] add_route_def relay_defs parse_id_def Let_def ex_call_def ex_new_route_def ex_api_def ex_route_db_def)
  then show ?thesis
    using endpoint_step.es_add_route [of ex_auth ex_api "ex_call (uuid_str 2)" ex_endpoint_db
        "\<lparr>pd_id = 6, pd_token_hex = []\<rparr>" "uuid_str 5" ex_new_route None] by (simp add: ex_call_def)
qed

lemma ex_reachable: "(system_step ex_auth ex_api ex_lazy sure_send)\<^sup>*\<^sup>* empty_db ex_route_db"
  using sy_member [OF ex_account] sy_endpoint [OF ex_create] sy_endpoint [OF ex_add_route]
  by (meson rtranclp.rtrancl_into_rtrancl rtranclp.rtrancl_refl)

theorem system_invariant_witness:
  "db_ok ex_route_db \<and> length (filter (\<lambda>m. mb_workspace_id m = 2 \<and> mb_role m = ''owner'') (memberships ex_route_db)) = 1"
proof -
  have "map ws_id (workspaces ex_route_db) = [2]"
    by (simp add: ex_route_db_def ex_endpoint_db_def ex_account_db_def own_workspace_def ex_auth_draw_def)
  with system_invariant [OF ex_reachable] show ?thesis by (auto simp: map_eq_Cons_conv)
qed

theorem stored_routes_valid_witness:
  "validate_delivery_url default_settings (rt_url ex_stored_route) = Inr (rt_url ex_stored_route)"
proof -
  have "ex_stored_route \<in> set (routes ex_route_db)" by (simp add: ex_route_db_def)
  from stored_routes_valid [OF ex_reachable this] show ?thesis by (simp add: ex_api_def)
qed


definition ex_scheduler :: retry_input where
  "ex_scheduler = \<lparr>ri_locked = (\<lambda>i. False), ri_now = 5000, ri_clock = (\<lambda>i. 5000), ri_fault = None\<rparr>"

theorem retry_scheduler_idle_witness:
  "retry_poll default_settings sure_send ex_scheduler ex_route_db (Some empty_broker) = (ex_route_db, Some empty_broker)"
  using retry_scheduler_idle [OF ex_reachable] by blast

lemma ex_sure: "fst (sure_send m k) = Inr ()"
  by (simp add: sure_send_def)

theorem relay_drains_witness:
  "\<exists>d' k'. relay_run sure_send (replicate 1 quiet) ex_relay_db (Some empty_broker) = (Inr (), d', Some k') \<and>
     outbox d' = [ex_outbox\<lparr>ob_status := ''completed''\<rparr>]"
proof -
  have "outbox ex_relay_db = [ex_outbox]" "ob_status ex_outbox = ''pending''"
    by (simp_all add: ex_relay_db_def ex_outbox_def)
  with relay_drains [OF sure.kafka_producer_axioms ex_sure ex_relay_db_ok, where n = 1 and k = empty_broker]
  show ?thesis by auto
qed

theorem webhook_fan_out_witness:
  "\<exists>d1 d2 k2. relay_poll sure_send quiet d1 (Some empty_broker) = (Inr (), d2, Some k2) \<and> br_log k2 \<noteq> [] \<and>
     (\<exists>ev. by_key ev_id 4 (events d2) = Some ev \<and> ev_status ev = ''queued'')"
proof -
  obtain s d1 where acc: "receive_webhook ex_gateway (ex_draw 0 None) (uuid_str 2) ex_webhook (Some Map.empty) ex_hook_db =
     (Inr (Accepted 4), Some s, d1)"
    using ex_accepted by blast
  have "length (filter (\<lambda>r. ob_status r = ''pending'') (outbox ex_hook_db)) < 10"
    by (simp add: ex_hook_db_def empty_db_def)
  from webhook_fan_out [OF sure.kafka_producer_axioms ex_sure acc this, where k = empty_broker and T = ex_transform]
  obtain ev m d2 k2 where "relay_poll sure_send quiet d1 (Some empty_broker) = (Inr (), d2, Some k2)"
    "by_key ev_id 4 (events d2) = Some ev" "ev_status ev = ''queued''" "m \<in> set (br_log k2)"
    by (elim exE conjE) (rule that)
  moreover from this(4) have "br_log k2 \<noteq> []" by auto
  ultimately show ?thesis by blast
qed

theorem replay_repeats_fan_out_witness:
  "\<exists>k' m. replay_event ex_auth sure_send (ex_call (uuid_str 2)) (uuid_str 7) None ex_shop_db (Some empty_broker) =
     (Inr (''replaying'', 7), Some k') \<and> br_log k' = [m]"
proof -
  have "uuid_parse (uuid_str 7) = Inr (ev_id ex_shop_event)" by (simp add: ex_shop_event_def)
  moreover have "ex_shop_event \<in> set (workspace_events 2 ex_shop_db)" by (simp add: ex_shop_workspace)
  ultimately have "fst (with_event ex_auth ''admin'' (ex_call (uuid_str 2)) (uuid_str 7) None ex_shop_db (\<lambda>ev. (Inr ev, ex_shop_db))) = Inr ex_shop_event"
    using ex_shop_gates [of ex_shop_db "''admin''"] by (subst with_event_run [OF ex_shop_ok]) auto
  moreover have "ev_id ex_shop_event = 7" by (simp add: ex_shop_event_def)
  ultimately obtain k' where run: "replay_event ex_auth sure_send (ex_call (uuid_str 2)) (uuid_str 7) None ex_shop_db (Some empty_broker) =
     (Inr (''replaying'', 7), Some k')"
    by (simp add: replay_event_def get_kafka_def sure_send_def)
  from replay_repeats_fan_out [OF sure.kafka_producer_axioms ex_sure run, of ex_transform] run
  show ?thesis by (auto simp: empty_broker_def)
qed

end
