(* ===== verification/Flow.thy ===== *)
theory Flow
  imports System
begin

text \<open>
  All processes at once, with what they say to each other.  The state is the database, the broker, the
  deliveries in progress and what their HTTP clients have done; two further fields only record history:
  every webhook that was accepted and every row a route ever had.  A message may be handled any number
  of times and in any order, which covers every assignment of partitions, every redelivery and every
  committed offset; a process may die at any moment.  The theorems say where a request that leaves the
  relay comes from.
\<close>

section \<open>State\<close>

record job =
  jb_event :: uuid
  jb_route :: route_cfg
  jb_body :: json
  jb_attempt :: nat
  jb_waits :: nat

record intake =
  in_event :: uuid
  in_endpoint :: endpoint_row
  in_request :: webhook_request

record 'k flow =
  fl_db :: db
  fl_broker :: 'k
  fl_jobs :: "job list"
  fl_trace :: "act list"
  fl_intake :: "intake list"
  fl_routes :: "route_row list"

record ('s, 't, 'k) flow_env =
  fe_auth :: "('s, 't) auth_env"
  fe_api :: api_env
  fe_lazy :: lazy_load
  fe_gateway :: "'s gateway_env"
  fe_transform :: transform_env
  fe_send :: "'k sender"
  fe_log :: "'k \<Rightarrow> kmsg list"

text \<open>All processes read the same settings, and the three topics are different.\<close>

definition one_config :: "settings \<Rightarrow> ('s, 't, 'k) flow_env \<Rightarrow> bool" where
  "one_config cfg F \<longleftrightarrow>
     ae_cfg (fe_auth F) = cfg \<and> pe_cfg (fe_api F) = cfg \<and> ge_cfg (fe_gateway F) = cfg \<and> te_cfg (fe_transform F) = cfg \<and>
     distinct [kafka_topic_raw_events cfg, kafka_topic_transformed_events cfg, kafka_topic_dead_letter cfg]"

definition start_flow :: "'k \<Rightarrow> 'k flow" where
  "start_flow k = \<lparr>fl_db = empty_db, fl_broker = k, fl_jobs = [], fl_trace = [], fl_intake = [], fl_routes = []\<rparr>"

definition after_db :: "db \<Rightarrow> 'k flow \<Rightarrow> 'k flow" where
  "after_db d s = s\<lparr>fl_db := d, fl_routes := fl_routes s @ routes d\<rparr>"

text \<open>A process's producer handle: none, or a client of the broker; and the broker after its use.\<close>

definition handle :: "'k flow \<Rightarrow> 'k option \<Rightarrow> bool" where
  "handle s p \<longleftrightarrow> p = None \<or> p = Some (fl_broker s)"

definition after_handle :: "'k option \<Rightarrow> 'k flow \<Rightarrow> 'k flow" where
  "after_handle p s = (case p of None \<Rightarrow> s | Some k \<Rightarrow> s\<lparr>fl_broker := k\<rparr>)"

text \<open>What an accepted webhook adds to the history: its endpoint as it was at that moment.\<close>

definition taken_in :: "db \<Rightarrow> string \<Rightarrow> webhook_request \<Rightarrow> webhook_answer res \<Rightarrow> intake list" where
  "taken_in d endpoint_id request ans =
     (case (ans, uuid_parse endpoint_id) of
        (Inr (Accepted i), Inr uid) \<Rightarrow>
          (case by_key ep_id uid (endpoints d) of
             None \<Rightarrow> []
           | Some ep \<Rightarrow> [\<lparr>in_event = i, in_endpoint = ep, in_request = request\<rparr>])
      | _ \<Rightarrow> [])"

text \<open>The job after a pass: gone, or waiting for its next one.\<close>

definition next_jobs :: "pass_end \<Rightarrow> job \<Rightarrow> job list" where
  "next_jobs x j =
     (case x of Return r \<Rightarrow> [] | Again d b m \<Rightarrow> [j\<lparr>jb_attempt := b, jb_waits := m\<rparr>])"

definition after_pass :: "pass_end \<Rightarrow> ('s, 'k) dworld \<Rightarrow> ('s, 'k) dworld" where
  "after_pass x w = (case x of Return r \<Rightarrow> w | Again d b m \<Rightarrow> pause d w)"

section \<open>Steps\<close>

inductive flow_step :: "settings \<Rightarrow> ('s, 't, 'k) flow_env \<Rightarrow> 'k flow \<Rightarrow> 'k flow \<Rightarrow> bool" for cfg F where
  fs_member: "member_step (fe_auth F) (fe_lazy F) (fl_db s) d \<Longrightarrow> flow_step cfg F s (after_db d s)"
| fs_endpoint: "endpoint_step (fe_auth F) (fe_api F) path (fl_db s) d \<Longrightarrow> flow_step cfg F s (after_db d s)"
| fs_event: "event_step (fe_auth F) path (fl_db s) d \<Longrightarrow> flow_step cfg F s (after_db d s)"
| fs_replay: "handle s p \<Longrightarrow> replay_event (fe_auth F) (fe_send F) call event_id redis (fl_db s) p = (r, p') \<Longrightarrow>
    flow_step cfg F s (after_handle p' s)"
| fs_webhook: "receive_webhook (fe_gateway F) dr endpoint_id request redis (fl_db s) = (ans, redis', d) \<Longrightarrow>
    flow_step cfg F s (after_db d (s\<lparr>fl_intake := fl_intake s @ taken_in (fl_db s) endpoint_id request ans\<rparr>))"
| fs_relay: "handle s p \<Longrightarrow> relay_poll (fe_send F) inp (fl_db s) p = (r, d, p') \<Longrightarrow>
    flow_step cfg F s (after_db d (after_handle p' s))"
| fs_retry: "handle s p \<Longrightarrow> retry_poll cfg (fe_send F) rinp (fl_db s) p = (d, p') \<Longrightarrow>
    flow_step cfg F s (after_db d (after_handle p' s))"
| fs_transform: "m \<in> set (fe_log F (fl_broker s)) \<Longrightarrow> km_topic m = kafka_topic_raw_events cfg \<Longrightarrow> km_value m = JObj data \<Longrightarrow>
    flow_step cfg F s (s\<lparr>fl_broker := handle_message (fe_transform F) (fe_send F) (fl_db s) data (fl_broker s)\<rparr>)"
| fs_take: "m \<in> set (fe_log F (fl_broker s)) \<Longrightarrow> km_topic m = kafka_topic_transformed_events cfg \<Longrightarrow> km_value m = JObj data \<Longrightarrow>
    \<not> malformed data \<Longrightarrow> read_message cfg data = Some (Inr (i, route, body)) \<Longrightarrow>
    flow_step cfg F s (s\<lparr>fl_jobs := fl_jobs s @
      [\<lparr>jb_event = i, jb_route = route, jb_body = body, jb_attempt = 0, jb_waits = 0\<rparr>]\<rparr>)"
| fs_pass: "j \<in> set (fl_jobs s) \<Longrightarrow> de_cfg D = cfg \<Longrightarrow> de_send D = fe_send F \<Longrightarrow>
    dw_db w = fl_db s \<Longrightarrow> dw_trace w = fl_trace s \<Longrightarrow> handle s (dw_kafka w) \<Longrightarrow>
    attempt_once (D :: ('s, 'k) denv) (jb_event j) (jb_route j) (jb_body j) (jb_attempt j) (jb_waits j) w = (x, w') \<Longrightarrow>
    flow_step cfg F s (after_db (dw_db w') (after_handle (dw_kafka w')
      (s\<lparr>fl_trace := dw_trace (after_pass x w'), fl_jobs := remove1 j (fl_jobs s) @ next_jobs x j\<rparr>)))"
| fs_crash: "set js \<subseteq> set (fl_jobs s) \<Longrightarrow> flow_step cfg F s (s\<lparr>fl_jobs := js\<rparr>)"

abbreviation flow_steps :: "settings \<Rightarrow> ('s, 't, 'k) flow_env \<Rightarrow> 'k flow \<Rightarrow> 'k flow \<Rightarrow> bool" where
  "flow_steps cfg F \<equiv> (flow_step cfg F)\<^sup>*\<^sup>*"


section \<open>What the processes write to the broker\<close>

context kafka_producer
begin

lemma send_set: "set (log (snd (send m k))) \<subseteq> insert m (set (log k)) \<and> set (log k) \<subseteq> set (log (snd (send m k)))"
  using send_log [of m k "fst (send m k)" "snd (send m k)"] by simp

lemma publish_set: "publish send p r = (res, p') \<Longrightarrow> sent log p' \<subseteq> insert (outbox_msg r) (sent log p)"
  using send_set [of "outbox_msg r"]
  by (auto simp: publish_def get_kafka_def sent_def split: option.splits prod.splits; metis insert_iff prod.sel(2) subset_iff)

lemma relay_records_set:
  "relay_records send stop rs d p = (d', p') \<Longrightarrow> sent log p' \<subseteq> sent log p \<union> outbox_msg ` set rs"
proof (induction rs arbitrary: stop d p)
  case (Cons r rs)
  show ?case
  proof (cases "stop \<noteq> [] \<and> hd stop")
    case False
    obtain res q where pub: "publish send p r = (res, q)" by (cases "publish send p r")
    obtain d1 p1 where one: "relay_one send r d p = (d1, p1)" by (cases "relay_one send r d p")
    have "p1 = q" using one by (auto simp: relay_one_def pub split: sum.splits)
    with publish_set [OF pub] have "sent log p1 \<subseteq> insert (outbox_msg r) (sent log p)" by simp
    moreover have "sent log p' \<subseteq> sent log p1 \<union> outbox_msg ` set rs"
      using Cons False one by simp
    ultimately show ?thesis by auto
  qed (use Cons in auto)
qed simp

lemma relay_poll_set:
  assumes "relay_poll send inp d p = (res, d', p')"
  shows "sent log p' \<subseteq> sent log p \<union> outbox_msg ` set (outbox d)"
proof (cases "batch (pi_locked inp) d = []")
  case False
  obtain d1 p1 where recs: "relay_records send (pi_stop inp) (batch (pi_locked inp) d) d p = (d1, p1)"
    by (cases "relay_records send (pi_stop inp) (batch (pi_locked inp) d) d p")
  have "p' = p1" using assms False recs by (auto simp: relay_poll_def split: sum.splits)
  moreover have "set (batch (pi_locked inp) d) \<subseteq> set (outbox d)" using batch_set by blast
  ultimately show ?thesis using relay_records_set [OF recs] by blast
qed (use assms in \<open>simp add: relay_poll_def\<close>)

lemma handle_message_set:
  "set (log (handle_message E send d data k)) \<subseteq> set (log k) \<union>
    {m. \<exists>i ep ev. json_uuid (dict_get data ''event_id'' JNull) = Inr i \<and> json_uuid (dict_get data ''endpoint_id'' JNull) = Inr ep \<and>
       by_key ev_id i (events d) = Some ev \<and> m \<in> set (deliveries E ev (active_routes d ep))}"
  using dispatch_routes_sub
  by (auto simp: handle_message_def process_event_def Let_def split: sum.splits option.splits)

end

text \<open>A pass of a delivery sends at most a dead letter.\<close>

definition dead_letter_only :: "('s, 'k) denv \<Rightarrow> ('s, 'k) dworld \<Rightarrow> ('s, 'k) dworld \<Rightarrow> bool" where
  "dead_letter_only E w w' \<longleftrightarrow> dw_kafka w' = dw_kafka w \<or>
     (\<exists>m k. km_topic m = kafka_topic_dead_letter (de_cfg E) \<and> dw_kafka w = Some k \<and> dw_kafka w' = Some (snd (de_send E m k)))"

lemma dlo_andthen:
  assumes "dw_kafka (snd p) = dw_kafka w" and "\<And>x. dead_letter_only E (snd p) (snd (f x (snd p)))"
  shows "dead_letter_only E w (snd (andthen p f))"
  using assms by (cases p; cases "fst p") (auto simp: andthen_def dead_letter_only_def)

lemma dlo_same [simp]: "dead_letter_only E w w" "dead_letter_only E w (tick w)"
  by (simp_all add: dead_letter_only_def tick_def)

lemma dlo_send: "dead_letter_only E w (snd (send_dead_letter E (dead_letter (de_cfg E) ev route body err st) w))"
proof (cases "dw_kafka w")
  case (Some k)
  let ?m = "dead_letter (de_cfg E) ev route body err st"
  obtain r k' where send: "de_send E ?m k = (r, k')" by (cases "de_send E ?m k")
  have "dw_kafka (snd (send_dead_letter E ?m w)) = Some k'"
    by (simp add: send_dead_letter_def get_kafka_def Some send Let_def split: sum.split exc.split)
  moreover have "km_topic ?m = kafka_topic_dead_letter (de_cfg E)" by (simp add: dead_letter_def)
  ultimately show ?thesis using Some send unfolding dead_letter_only_def by (metis snd_conv)
qed (simp add: send_dead_letter_def get_kafka_def)

lemma dlo_after: "dead_letter_only E w (snd (after_request E ev route body a st err w))"
  unfolding after_request_def
  by (auto intro!: dlo_andthen simp: cb_report_kafka dlo_send split: prod.split)
    (metis dlo_send snd_conv)

lemma dlo_request: "dead_letter_only E w (snd (request_and_record E ev route body a w))"
proof -
  obtain res ms w1 where req: "do_request E route body w = (res, ms, w1)"
    by (metis prod_cases3)
  have "dw_kafka w1 = dw_kafka w"
    using do_request_appends [OF req] by simp
  then show ?thesis
    by (auto simp: request_and_record_def req add_attempt_kafka dlo_after intro!: dlo_andthen split: prod.split)
qed

lemma dlo_attempt: "dead_letter_only E w (snd (attempt_once E ev route body a n w))"
  unfolding attempt_once_def breaker_open_def dest_gate_def
  by (auto intro!: dlo_andthen simp: check_frame add_attempt_kafka dlo_request split: option.split)
end
