(* ===== verification/Provenance.thy ===== *)
theory Provenance
  imports Flow
begin

text \<open>
  Where a request comes from.  An invariant of the whole relay ties every message, every delivery in
  progress and every request made to an event of the database, that event to a webhook whose signature
  matched, and the request to a row a route of the same endpoint had.
\<close>

section \<open>The part of an event that never changes\<close>

definition bare :: "event_row \<Rightarrow> event_row" where
  "bare ev = ev\<lparr>ev_idempotency_key := None, ev_status := [], ev_retry_at := None, ev_received_at := 0,
     ev_is_discarded := False, ev_discarded_at := None\<rparr>"

definition cores :: "db \<Rightarrow> event_row set" where
  "cores d = bare ` set (events d)"

lemma bare_fields [simp]:
  "ev_id (bare ev) = ev_id ev" "ev_endpoint_id (bare ev) = ev_endpoint_id ev"
  "ev_request_body (bare ev) = ev_request_body ev" "ev_request_headers (bare ev) = ev_request_headers ev"
  by (simp_all add: bare_def)

lemma bare_marks [simp]:
  "bare (ev\<lparr>ev_status := st\<rparr>) = bare ev"
  "bare (ev\<lparr>ev_is_discarded := b, ev_discarded_at := t\<rparr>) = bare ev"
  by (simp_all add: bare_def)

lemma route_body_bare [simp]: "route_body T (bare ev) r = route_body T ev r"
  unfolding route_body_def by (simp only: bare_fields)

lemma delivery_msg_bare [simp]: "delivery_msg cfg (bare ev) r body = delivery_msg cfg ev r body"
  by (simp add: delivery_msg_def)

lemma put_row_cores:
  assumes "keyed ev_id (events d)" and "ev \<in> set (events d)" and "ev_id ev' = ev_id ev" and "bare ev' = bare ev"
  shows "bare ` set (put_row ev_id ev' (events d)) = cores d"
proof -
  have "bare x = bare ev" if "x \<in> set (events d)" "ev_id x = ev_id ev" for x
    using assms(1,2) that by (auto simp: keyed_def distinct_map inj_on_def)
  then have "map bare (put_row ev_id ev' (events d)) = map bare (events d)"
    using assms(3,4) by (simp add: put_row_def)
  then have "set (map bare (put_row ev_id ev' (events d))) = set (map bare (events d))" by simp
  then show ?thesis unfolding cores_def set_map .
qed

lemma db_ok_keys: "db_ok d \<Longrightarrow> keyed ev_id (events d) \<and> keyed ob_id (outbox d)"
  by (simp add: db_ok_def integrity_def)

lemma event_change_cores:
  assumes "event_change ws d d'" and "db_ok d"
  shows "cores d' = cores d"
  using assms
proof (induction rule: event_change.induct)
  case (ec_marks ev d discarded at_time d')
  have "ev \<in> set (events d)" using ec_marks(1) by (simp add: workspace_events_def)
  from put_row_cores [OF _ this, of "ev\<lparr>ev_is_discarded := discarded, ev_discarded_at := at_time\<rparr>"]
  show ?case using ec_marks(3,5) by (simp add: cores_def db_ok_keys)
qed simp

lemma mark_queued_cores:
  assumes "keyed ev_id (events d)"
  shows "cores (mark_queued i d) = cores d \<and> keyed ev_id (events (mark_queued i d))"
proof (cases "by_key ev_id i (events d)")
  case (Some ev)
  then have "ev \<in> set (events d)" using by_key_Some by fastforce
  from put_row_cores [OF assms this, of "ev\<lparr>ev_status := ''queued''\<rparr>"] show ?thesis
    using assms by (simp add: mark_queued_def Some cores_def) (simp add: keyed_def)
qed (use assms in \<open>simp add: mark_queued_def\<close>)

text \<open>The relay keeps the events' cores, and the rows of the outbox within a set that its marks respect.\<close>

lemma relay_one_rows:
  assumes "relay_one send r d p = (d', p')" and "keyed ev_id (events d)" and "r \<in> R" and "set (outbox d) \<subseteq> R"
    and "\<And>x e. x \<in> R \<Longrightarrow> failed_row e x \<in> R \<and> completed_row x \<in> R"
  shows "cores d' = cores d \<and> keyed ev_id (events d') \<and> set (outbox d') \<subseteq> R"
proof -
  obtain res q where pub: "publish send p r = (res, q)" by (cases "publish send p r")
  have mark: "cores (mark_queued i (d\<lparr>outbox := rows\<rparr>)) = cores d \<and> keyed ev_id (events (mark_queued i (d\<lparr>outbox := rows\<rparr>)))" for i rows
    using mark_queued_cores [of "d\<lparr>outbox := rows\<rparr>" i] assms(2) by (simp add: cores_def)
  show ?thesis
  proof (cases res)
    case (Inl e)
    then have "d' = d\<lparr>outbox := put_row ob_id (failed_row e r) (outbox d)\<rparr>"
      using assms(1) by (simp add: relay_one_def pub)
    then show ?thesis using assms(2-5) by (auto simp: cores_def dest!: set_put_row)
  next
    case (Inr u)
    then have "d' = mark_queued (ob_event_id r) (d\<lparr>outbox := put_row ob_id (completed_row r) (outbox d)\<rparr>)"
      using assms(1) by (simp add: relay_one_def pub)
    then show ?thesis using mark assms(3-5) by (auto dest!: set_put_row)
  qed
qed

lemma relay_records_rows:
  assumes "relay_records send stop rs d p = (d', p')" and "keyed ev_id (events d)" and "set rs \<subseteq> R" and "set (outbox d) \<subseteq> R"
    and R: "\<And>x e. x \<in> R \<Longrightarrow> failed_row e x \<in> R \<and> completed_row x \<in> R"
  shows "cores d' = cores d \<and> set (outbox d') \<subseteq> R"
  using assms(1-4)
proof (induction rs arbitrary: stop d p)
  case (Cons r rs)
  obtain d1 p1 where one: "relay_one send r d p = (d1, p1)" by (cases "relay_one send r d p")
  have "cores d1 = cores d" "keyed ev_id (events d1)" "set (outbox d1) \<subseteq> R"
    using relay_one_rows [OF one Cons.prems(2) _ Cons.prems(4) R] Cons.prems(3) by auto
  then show ?case
    using Cons.IH [of _ d1 p1] Cons.prems one by (auto split: if_splits)
qed simp

lemma relay_poll_rows:
  assumes poll: "relay_poll send inp d p = (res, d', p')" and "db_ok d" and "set (outbox d) \<subseteq> R"
    and R: "\<And>x e. x \<in> R \<Longrightarrow> failed_row e x \<in> R \<and> completed_row x \<in> R"
  shows "cores d' = cores d \<and> set (outbox d') \<subseteq> R"
proof -
  let ?b = "batch (pi_locked inp) d"
  obtain d1 p1 where recs: "relay_records send (pi_stop inp) ?b d p = (d1, p1)"
    by (cases "relay_records send (pi_stop inp) ?b d p")
  have "d' = d \<or> d' = d1"
  proof (cases "?b = []")
    case False
    then show ?thesis using poll recs by (auto simp: relay_poll_def commit_ok split: sum.splits)
  qed (use poll in \<open>simp add: relay_poll_def\<close>)
  moreover have "set ?b \<subseteq> R" using batch_set assms(3) by blast
  ultimately show ?thesis
    using relay_records_rows [OF recs _ _ assms(3) R] assms(2,3) db_ok_keys by blast
qed

section \<open>The invariant\<close>

text \<open>An event stems from a webhook that was accepted: the signature matched the secret its endpoint had.\<close>

definition stems :: "'s gateway_env \<Rightarrow> intake list \<Rightarrow> event_row \<Rightarrow> bool" where
  "stems G I ev \<longleftrightarrow> (\<exists>x \<in> set I. \<exists>raw.
     in_event x = ev_id ev \<and> ep_id (in_endpoint x) = ev_endpoint_id ev \<and>
     ep_is_active (in_endpoint x) \<and> ep_hmac_secret (in_endpoint x) \<noteq> [] \<and>
     read_limited_body (ge_cfg G) (in_request x) = Inr raw \<and>
     header_get ''x-hub-signature-256'' (wr_headers (in_request x)) =
       Some (''sha256='' @ hmac_sha256 (utf8 (ep_hmac_secret (in_endpoint x))) raw) \<and>
     ge_json_loads G raw = Inr (ev_request_body ev) \<and>
     check_schema G (ep_request_body_schema (in_endpoint x)) (ev_request_body ev) = Inr ())"

text \<open>A route of the event's endpoint, active, whose filter takes the event and whose pipeline gives the body.\<close>

definition entitled :: "transform_env \<Rightarrow> event_row \<Rightarrow> route_row \<Rightarrow> json \<Rightarrow> bool" where
  "entitled T ev r body \<longleftrightarrow>
     rt_endpoint_id r = ev_endpoint_id ev \<and> rt_is_active r \<and> route_body T ev r = Some body"

definition outbox_names :: "settings \<Rightarrow> event_row set \<Rightarrow> outbox_row \<Rightarrow> bool" where
  "outbox_names cfg C r \<longleftrightarrow> ob_publish_topic r = kafka_topic_raw_events cfg \<and>
     (\<exists>ev \<in> C. ob_event_id r = ev_id ev \<and> ob_publish_key r = uuid_str (ev_endpoint_id ev))"

definition raw_names :: "event_row set \<Rightarrow> json \<Rightarrow> bool" where
  "raw_names C v \<longleftrightarrow> (\<forall>data. v = JObj data \<longrightarrow>
     (\<exists>ev \<in> C. dict_get data ''event_id'' JNull = JStr (uuid_str (ev_id ev)) \<and>
        dict_get data ''endpoint_id'' JNull = JStr (uuid_str (ev_endpoint_id ev))))"

definition msg_ok :: "settings \<Rightarrow> transform_env \<Rightarrow> event_row set \<Rightarrow> route_row set \<Rightarrow> kmsg \<Rightarrow> bool" where
  "msg_ok cfg T C R m \<longleftrightarrow>
     (km_topic m = kafka_topic_raw_events cfg \<longrightarrow> raw_names C (km_value m)) \<and>
     (km_topic m = kafka_topic_transformed_events cfg \<longrightarrow>
       (\<exists>ev \<in> C. \<exists>r \<in> R. \<exists>body. m = delivery_msg cfg ev r body \<and> entitled T ev r body))"

definition job_ok :: "transform_env \<Rightarrow> event_row set \<Rightarrow> route_row set \<Rightarrow> job \<Rightarrow> bool" where
  "job_ok T C R j \<longleftrightarrow>
     (\<exists>ev \<in> C. \<exists>r \<in> R. jb_event j = ev_id ev \<and> jb_route j = delivered_route r \<and> entitled T ev r (jb_body j))"

definition request_ok :: "settings \<Rightarrow> transform_env \<Rightarrow> event_row set \<Rightarrow> route_row set \<Rightarrow> act \<Rightarrow> bool" where
  "request_ok cfg T C R a \<longleftrightarrow> (\<forall>req res. a = Exchanged req res \<longrightarrow>
     (\<exists>ev \<in> C. \<exists>r \<in> R. \<exists>body resolve. req = request_of (delivered_route r) body \<and> entitled T ev r body \<and>
        validate_delivery_url_for_request cfg resolve (rt_url r) = Inr ()))"

definition flow_inv :: "settings \<Rightarrow> ('s, 't, 'k) flow_env \<Rightarrow> 'k flow \<Rightarrow> bool" where
  "flow_inv cfg F s \<longleftrightarrow> sys_inv (fe_api F) (fl_db s) \<and> set (routes (fl_db s)) \<subseteq> set (fl_routes s) \<and>
     (\<forall>ev \<in> cores (fl_db s). stems (fe_gateway F) (fl_intake s) ev) \<and>
     (\<forall>r \<in> set (outbox (fl_db s)). outbox_names cfg (cores (fl_db s)) r) \<and>
     (\<forall>m \<in> set (fe_log F (fl_broker s)). msg_ok cfg (fe_transform F) (cores (fl_db s)) (set (fl_routes s)) m) \<and>
     (\<forall>j \<in> set (fl_jobs s). job_ok (fe_transform F) (cores (fl_db s)) (set (fl_routes s)) j) \<and>
     (\<forall>a \<in> set (fl_trace s). request_ok cfg (fe_transform F) (cores (fl_db s)) (set (fl_routes s)) a)"

lemma entitled_bare [simp]: "entitled T (bare ev) r body \<longleftrightarrow> entitled T ev r body"
  by (simp add: entitled_def)

lemma stems_bare [simp]: "stems G I (bare ev) \<longleftrightarrow> stems G I ev"
  by (simp add: stems_def)

lemma inv_mono:
  assumes "C \<subseteq> C'" and "R \<subseteq> R'"
  shows "outbox_names cfg C r \<Longrightarrow> outbox_names cfg C' r"
    and "msg_ok cfg T C R m \<Longrightarrow> msg_ok cfg T C' R' m"
    and "job_ok T C R j \<Longrightarrow> job_ok T C' R' j"
    and "request_ok cfg T C R a \<Longrightarrow> request_ok cfg T C' R' a"
  using assms
  by (unfold outbox_names_def msg_ok_def raw_names_def job_ok_def request_ok_def) (blast | meson subsetD)+

lemma stems_mono: "set I \<subseteq> set I' \<Longrightarrow> stems G I ev \<Longrightarrow> stems G I' ev"
  by (auto simp: stems_def)

text \<open>
  The steps have one shape: the database keeps the cores of its events (or gains one), the broker gains
  messages that are in order, the jobs and the trace gain entries that are.
\<close>

lemma flow_inv_next:
  assumes inv: "flow_inv cfg F s" and sys: "sys_inv (fe_api F) (fl_db s')"
    and routes: "set (fl_routes s) \<subseteq> set (fl_routes s')" "set (routes (fl_db s')) \<subseteq> set (fl_routes s')"
    and cores: "cores (fl_db s) \<subseteq> cores (fl_db s')"
    and intake: "set (fl_intake s) \<subseteq> set (fl_intake s')"
    and new: "\<And>ev. ev \<in> cores (fl_db s') \<Longrightarrow> ev \<in> cores (fl_db s) \<or> stems (fe_gateway F) (fl_intake s') ev"
    and rows: "\<And>r. r \<in> set (outbox (fl_db s')) \<Longrightarrow> r \<in> set (outbox (fl_db s)) \<or> outbox_names cfg (cores (fl_db s')) r"
    and sent: "\<And>m. m \<in> set (fe_log F (fl_broker s')) \<Longrightarrow>
      m \<in> set (fe_log F (fl_broker s)) \<or> msg_ok cfg (fe_transform F) (cores (fl_db s')) (set (fl_routes s')) m"
    and jobs: "\<And>j. j \<in> set (fl_jobs s') \<Longrightarrow>
      j \<in> set (fl_jobs s) \<or> job_ok (fe_transform F) (cores (fl_db s')) (set (fl_routes s')) j"
    and trace: "\<And>a. a \<in> set (fl_trace s') \<Longrightarrow>
      a \<in> set (fl_trace s) \<or> request_ok cfg (fe_transform F) (cores (fl_db s')) (set (fl_routes s')) a"
  shows "flow_inv cfg F s'"
  unfolding flow_inv_def
proof (intro conjI ballI)
  note mono = inv_mono [OF cores routes(1)]
  show "stems (fe_gateway F) (fl_intake s') ev" if "ev \<in> cores (fl_db s')" for ev
    using new [OF that] inv stems_mono [OF intake] unfolding flow_inv_def by blast
  show "outbox_names cfg (cores (fl_db s')) r" if "r \<in> set (outbox (fl_db s'))" for r
    using rows [OF that] inv mono(1) unfolding flow_inv_def by blast
  show "msg_ok cfg (fe_transform F) (cores (fl_db s')) (set (fl_routes s')) m" if "m \<in> set (fe_log F (fl_broker s'))" for m
    using sent [OF that] inv mono(2) unfolding flow_inv_def by blast
  show "job_ok (fe_transform F) (cores (fl_db s')) (set (fl_routes s')) j" if "j \<in> set (fl_jobs s')" for j
    using jobs [OF that] inv mono(3) unfolding flow_inv_def by blast
  show "request_ok cfg (fe_transform F) (cores (fl_db s')) (set (fl_routes s')) a" if "a \<in> set (fl_trace s')" for a
    using trace [OF that] inv mono(4) unfolding flow_inv_def by blast
qed (use sys routes(2) in auto)

lemma flow_fields [simp]:
  "fl_db (after_db d s) = d" "fl_broker (after_db d s) = fl_broker s" "fl_jobs (after_db d s) = fl_jobs s"
  "fl_trace (after_db d s) = fl_trace s" "fl_intake (after_db d s) = fl_intake s"
  "fl_routes (after_db d s) = fl_routes s @ routes d"
  "fl_db (after_handle p s) = fl_db s" "fl_jobs (after_handle p s) = fl_jobs s"
  "fl_trace (after_handle p s) = fl_trace s" "fl_intake (after_handle p s) = fl_intake s"
  "fl_routes (after_handle p s) = fl_routes s"
  by (simp_all add: after_db_def after_handle_def split: option.split)

lemma after_handle_log:
  assumes "handle s p" and "sent lg p' \<subseteq> sent lg p \<union> X" and "m \<in> set (lg (fl_broker (after_handle p' s)))"
  shows "m \<in> set (lg (fl_broker s)) \<or> m \<in> X"
  using assms by (cases p') (auto simp: after_handle_def handle_def sent_def)

section \<open>A pass keeps the database in order\<close>

definition keeps_ok :: "('s, 'k) dworld \<Rightarrow> ('s, 'k) dworld \<Rightarrow> bool" where
  "keeps_ok w w' \<longleftrightarrow> (db_ok (dw_db w) \<longrightarrow> db_ok (dw_db w'))"

lemma keeps_andthen:
  "keeps_ok w (snd p) \<Longrightarrow> (\<And>x w. keeps_ok w (snd (f x w))) \<Longrightarrow> keeps_ok w (snd (andthen p f))"
  by (cases p; cases "fst p") (auto simp: andthen_def keeps_ok_def)

lemma keeps_same:
  "keeps_ok w w" "keeps_ok w (tick w)" "keeps_ok w (snd (cb_check E url w))" "keeps_ok w (snd (rl_check E key m w))"
  "keeps_ok w (snd (cb_report E url ok w))" "keeps_ok w (snd (send_dead_letter E msg w))"
  by (auto simp: keeps_ok_def tick_def cb_check_def rl_check_def cb_report_def with_redis_def send_dead_letter_def Let_def
      split: sum.split prod.split option.split exc.split)

lemma keeps_add: "keeps_ok w (snd (add_attempt E ev route body a st content err ms w))"
  using attempt_result [of E ev route body a st content err ms w] by (auto simp: keeps_ok_def)

lemma keeps_request: "dw_db (snd (snd (do_request E route body w))) = dw_db w"
  by (simp add: do_request_def Let_def tick_def split: sum.split)

lemma keeps_after: "keeps_ok w (snd (after_request E ev route body a st err w))"
  unfolding after_request_def
  by (auto intro!: keeps_andthen keeps_same split: prod.split) (metis keeps_same(6) snd_conv)

lemma keeps_request_and_record: "keeps_ok w (snd (request_and_record E ev route body a w))"
proof -
  obtain res ms w1 where req: "do_request E route body w = (res, ms, w1)" by (metis prod_cases3)
  have "keeps_ok w w2 \<longleftrightarrow> keeps_ok w1 w2" for w2
    using keeps_request [of E route body w] by (simp add: keeps_ok_def req)
  then show ?thesis
    by (auto simp: request_and_record_def req intro!: keeps_andthen keeps_add keeps_after split: prod.split)
qed

lemma keeps_attempt_once: "keeps_ok w (snd (attempt_once E ev route body a n w))"
  unfolding attempt_once_def breaker_open_def dest_gate_def
  by (auto intro!: keeps_andthen keeps_same keeps_add keeps_request_and_record split: option.split)

section \<open>Every step keeps the invariant\<close>

lemma inv_parts:
  assumes "flow_inv cfg F s"
  shows "sys_inv (fe_api F) (fl_db s)" and "db_ok (fl_db s)" and "list_all event_ok (events (fl_db s))"
    and "set (routes (fl_db s)) \<subseteq> set (fl_routes s)"
  using assms by (auto simp: flow_inv_def sys_inv_def one_owner_def)

text \<open>A transaction that leaves the events and the outbox alone.\<close>

lemma inv_db:
  assumes "flow_inv cfg F s" and "sys_inv (fe_api F) d" and "cores d = cores (fl_db s)"
    and "set (outbox d) \<subseteq> set (outbox (fl_db s))"
  shows "flow_inv cfg F (after_db d s)"
  using assms inv_parts(4) [OF assms(1)] by (intro flow_inv_next [OF assms(1)]) auto

lemma inv_member:
  assumes "member_step (fe_auth F) (fe_lazy F) (fl_db s) d" and inv: "flow_inv cfg F s"
  shows "flow_inv cfg F (after_db d s)"
  using member_step_rows [OF assms(1)] sys_inv_member [OF assms(1) inv_parts(1) [OF inv]]
  by (intro inv_db [OF inv]) (auto simp: cores_def)

lemma inv_endpoint:
  assumes "endpoint_step (fe_auth F) (fe_api F) path (fl_db s) d" and inv: "flow_inv cfg F s"
  shows "flow_inv cfg F (after_db d s)"
proof -
  obtain ws where "endpoint_change (fe_api F) ws (fl_db s) d"
    using endpoint_step_some_change [OF assms(1)] by blast
  from change_rest [OF this] sys_inv_endpoint [OF assms(1) inv_parts(1) [OF inv]] show ?thesis
    by (intro inv_db [OF inv]) (auto simp: cores_def)
qed

lemma inv_event:
  assumes "event_step (fe_auth F) path (fl_db s) d" and inv: "flow_inv cfg F s"
  shows "flow_inv cfg F (after_db d s)"
proof -
  obtain ws where change: "event_change ws (fl_db s) d"
    using event_step_some_change [OF assms(1)] by blast
  from event_change_cores [OF change inv_parts(2) [OF inv]] event_change_rest [OF change]
    sys_inv_event [OF assms(1) inv_parts(1) [OF inv]] show ?thesis
    by (intro inv_db [OF inv]) auto
qed

text \<open>A step that only sends: the messages it adds are in order.\<close>

lemma inv_sends:
  assumes "flow_inv cfg F s" and "handle s p" and "sent (fe_log F) p' \<subseteq> sent (fe_log F) p \<union> X"
    and "\<And>m. m \<in> X \<Longrightarrow> msg_ok cfg (fe_transform F) (cores (fl_db s)) (set (fl_routes s)) m"
  shows "flow_inv cfg F (after_handle p' s)"
  using assms after_handle_log [OF assms(2,3)] inv_parts(1,4) [OF assms(1)]
  by (intro flow_inv_next [OF assms(1)]) auto

lemma replay_msg_ok:
  assumes "distinct [kafka_topic_raw_events cfg, kafka_topic_transformed_events cfg, kafka_topic_dead_letter cfg]"
    and "bare ev \<in> C"
  shows "msg_ok cfg T C R (replay_msg cfg ev)"
  using assms by (auto simp: msg_ok_def replay_msg_def raw_names_def dict_get_def intro!: bexI [of _ "bare ev"])

lemma outbox_msg_ok:
  assumes "distinct [kafka_topic_raw_events cfg, kafka_topic_transformed_events cfg, kafka_topic_dead_letter cfg]"
    and "outbox_names cfg C r"
  shows "msg_ok cfg T C R (outbox_msg r)"
  using assms by (auto simp: msg_ok_def outbox_msg_def raw_names_def dict_get_def outbox_names_def)

lemma dead_letter_ok:
  assumes "distinct [kafka_topic_raw_events cfg, kafka_topic_transformed_events cfg, kafka_topic_dead_letter cfg]"
    and "km_topic m = kafka_topic_dead_letter cfg"
  shows "msg_ok cfg T C R m"
  using assms by (auto simp: msg_ok_def)

lemma webhook_cases:
  assumes "receive_webhook G dr endpoint_id request redis d = (ans, redis', d')"
  shows "d' = d \<or> (\<exists>ep payload redis1. admit G dr endpoint_id request redis d = (Inr (ep, payload), redis1) \<and>
    ans = Inr (Accepted (dr_event_id dr)) \<and>
    d' = d\<lparr>events := events d @ [new_event dr ep (header_get ''x-idempotency-key'' (wr_headers request)) payload (wr_headers request)],
           outbox := outbox d @ [new_outbox (ge_cfg G) dr ep]\<rparr>)"
  using assms
  by (auto simp: receive_webhook_def store_event_def Let_def commit_ok split: prod.splits sum.splits bool.splits)

lemma inv_webhook:
  assumes run: "receive_webhook (fe_gateway F) dr endpoint_id request redis (fl_db s) = (ans, redis', d)"
    and inv: "flow_inv cfg F s" and cfg: "one_config cfg F"
  shows "flow_inv cfg F (after_db d (s\<lparr>fl_intake := fl_intake s @ taken_in (fl_db s) endpoint_id request ans\<rparr>))"
proof -
  let ?G = "fe_gateway F" and ?d = "fl_db s"
  have sys: "sys_inv (fe_api F) d"
    using sys_inv_webhook [OF inv_parts(1) [OF inv], of ?G dr endpoint_id request redis] run by simp
  consider "d = ?d" | ep payload redis1 where "admit ?G dr endpoint_id request redis ?d = (Inr (ep, payload), redis1)"
      "ans = Inr (Accepted (dr_event_id dr))"
      "d = ?d\<lparr>events := events ?d @ [new_event dr ep (header_get ''x-idempotency-key'' (wr_headers request)) payload (wr_headers request)],
         outbox := outbox ?d @ [new_outbox (ge_cfg ?G) dr ep]\<rparr>"
    using webhook_cases [OF run] by blast
  then show ?thesis
  proof cases
    case 1
    with sys show ?thesis using inv_parts(4) [OF inv] by (intro flow_inv_next [OF inv]) auto
  next
    case (2 ep payload redis1)
    let ?ev = "new_event dr ep (header_get ''x-idempotency-key'' (wr_headers request)) payload (wr_headers request)"
    obtain raw where facts: "read_limited_body (ge_cfg ?G) request = Inr raw" "uuid_parse endpoint_id = Inr (ep_id ep)"
      "by_key ep_id (ep_id ep) (endpoints ?d) = Some ep" "ep_is_active ep"
      "check_signature ?G (ep_hmac_secret ep) (header_get ''x-hub-signature-256'' (wr_headers request)) raw = Inr ()"
      "ge_json_loads ?G raw = Inr payload" "check_schema ?G (ep_request_body_schema ep) payload = Inr ()"
      using admit_ok [OF 2(1)] by (auto dest: by_key_Some)
    have "ep \<in> set (endpoints ?d)" using by_key_Some [OF facts(3)] by simp
    then have secret: "ep_hmac_secret ep \<noteq> []"
      using inv_parts(1) [OF inv] by (auto simp: sys_inv_def list_all_iff endpoint_ok_def)
    have taken: "taken_in ?d endpoint_id request ans = [\<lparr>in_event = dr_event_id dr, in_endpoint = ep, in_request = request\<rparr>]"
      by (simp add: taken_in_def 2(2) facts(2,3))
    have cores: "cores d = insert (bare ?ev) (cores ?d)"
      by (simp add: 2(3) cores_def)
    have stems: "stems ?G (fl_intake s @ taken_in ?d endpoint_id request ans) (bare ?ev)"
      using facts secret by (auto simp: stems_def taken new_event_def check_signature_ok)
    have row: "outbox_names cfg (cores d) (new_outbox (ge_cfg ?G) dr ep)"
      using cfg unfolding cores by (auto simp: outbox_names_def new_outbox_def one_config_def new_event_def)
    show ?thesis
      using sys cores stems row inv_parts(4) [OF inv] by (intro flow_inv_next [OF inv]) (auto simp: 2(3))
  qed
qed

lemma replay_set:
  assumes "kafka_producer send lg" and "replay_event E send call event_id redis d p = (r, p')"
  shows "sent lg p' \<subseteq> sent lg p \<union> replay_msg (ae_cfg E) ` set (events d)"
proof (cases "fst (with_event E ''admin'' call event_id redis d (\<lambda>ev. (Inr ev, d)))")
  case (Inr ev)
  then have "ev \<in> set (events d)"
    by (auto simp: with_event_def relay_defs get_event_Inr split: sum.splits dest!: by_key_Some)
  then have member: "replay_msg (ae_cfg E) ev \<in> replay_msg (ae_cfg E) ` set (events d)" by (rule imageI)
  show ?thesis
  proof (cases p)
    case None
    then have "p' = None" using assms(2) Inr by (simp add: replay_event_def get_kafka_def)
    then show ?thesis by (simp add: sent_def)
  next
    case (Some k)
    obtain u k' where send: "send (replay_msg (ae_cfg E) ev) k = (u, k')"
      by (cases "send (replay_msg (ae_cfg E) ev) k")
    then have "p' = Some k'" using assms(2) Inr Some by (auto simp: replay_event_def get_kafka_def split: sum.splits)
    moreover have "set (lg k') \<subseteq> insert (replay_msg (ae_cfg E) ev) (set (lg k))"
      using kafka_producer.send_set [OF assms(1), of "replay_msg (ae_cfg E) ev" k] by (simp add: send)
    ultimately show ?thesis using member by (auto simp: sent_def Some)
  qed
qed (use assms(2) in \<open>simp add: replay_event_def\<close>)

lemma inv_replay:
  assumes "kafka_producer (fe_send F) (fe_log F)" and cfg: "one_config cfg F" and inv: "flow_inv cfg F s"
    and h: "handle s p" and run: "replay_event (fe_auth F) (fe_send F) call event_id redis (fl_db s) p = (r, p')"
  shows "flow_inv cfg F (after_handle p' s)"
  using replay_set [OF assms(1) run] cfg
  by (intro inv_sends [OF inv h]) (auto simp: cores_def one_config_def intro!: replay_msg_ok)

lemma inv_relay:
  assumes "kafka_producer (fe_send F) (fe_log F)" and cfg: "one_config cfg F" and inv: "flow_inv cfg F s"
    and h: "handle s p" and run: "relay_poll (fe_send F) inp (fl_db s) p = (r, d, p')"
  shows "flow_inv cfg F (after_db d (after_handle p' s))"
proof -
  let ?C = "cores (fl_db s)"
  have names: "set (outbox (fl_db s)) \<subseteq> {r. outbox_names cfg ?C r}"
    using inv by (auto simp: flow_inv_def)
  have kept: "failed_row e x \<in> {r. outbox_names cfg ?C r} \<and> completed_row x \<in> {r. outbox_names cfg ?C r}"
    if "x \<in> {r. outbox_names cfg ?C r}" for x e
    using that by (auto simp: outbox_names_def failed_row_def completed_row_def Let_def)
  have rows: "cores d = ?C" "set (outbox d) \<subseteq> {r. outbox_names cfg ?C r}"
    using relay_poll_rows [OF run inv_parts(2) [OF inv] names] kept by auto
  have logged: "m \<in> set (fe_log F (fl_broker s)) \<or> msg_ok cfg (fe_transform F) ?C R m"
    if "m \<in> set (fe_log F (fl_broker (after_handle p' s)))" for m R
    using after_handle_log [OF h kafka_producer.relay_poll_set [OF assms(1) run] that] names cfg
    by (auto simp: one_config_def intro!: outbox_msg_ok)
  have "sys_inv (fe_api F) d"
    using sys_inv_relay [OF inv_parts(1) [OF inv], of "fe_send F" inp p] run by simp
  then show ?thesis
    using rows logged inv_parts(4) [OF inv] by (intro flow_inv_next [OF inv]) (auto simp: after_db_def)
qed

lemma inv_retry:
  assumes inv: "flow_inv cfg F s" and h: "handle s p" and run: "retry_poll cfg (fe_send F) rinp (fl_db s) p = (d, p')"
  shows "flow_inv cfg F (after_db d (after_handle p' s))"
proof -
  have "d = fl_db s" "p' = p"
    using retry_poll_none [OF none_due [OF inv_parts(3) [OF inv]], of cfg "fe_send F" rinp p] run by auto
  moreover from this have "fl_broker (after_handle p' s) = fl_broker s"
    using h by (auto simp: handle_def after_handle_def)
  ultimately show ?thesis
    using inv_parts(1,4) [OF inv] by (intro flow_inv_next [OF inv]) (auto simp: after_db_def)
qed

lemma delivery_msg_ok:
  assumes "distinct [kafka_topic_raw_events cfg, kafka_topic_transformed_events cfg, kafka_topic_dead_letter cfg]"
    and "bare ev \<in> C" and "r \<in> R" and "entitled T ev r body"
  shows "msg_ok cfg T C R (delivery_msg cfg ev r body)"
proof -
  have "km_topic (delivery_msg cfg ev r body) = kafka_topic_transformed_events cfg" by (simp add: delivery_msg_def)
  then show ?thesis
    using assms unfolding msg_ok_def by (metis delivery_msg_bare entitled_bare distinct_length_2_or_more)
qed

lemma inv_transform:
  assumes "kafka_producer (fe_send F) (fe_log F)" and cfg: "one_config cfg F" and inv: "flow_inv cfg F s"
    and m: "m \<in> set (fe_log F (fl_broker s))" "km_topic m = kafka_topic_raw_events cfg" "km_value m = JObj data"
  shows "flow_inv cfg F (s\<lparr>fl_broker := handle_message (fe_transform F) (fe_send F) (fl_db s) data (fl_broker s)\<rparr>)"
proof -
  let ?d = "fl_db s" and ?T = "fe_transform F"
  have "msg_ok cfg ?T (cores ?d) (set (fl_routes s)) m" using inv m(1) by (auto simp: flow_inv_def)
  then obtain ev where ev: "ev \<in> set (events ?d)"
      "dict_get data ''event_id'' JNull = JStr (uuid_str (ev_id ev))"
      "dict_get data ''endpoint_id'' JNull = JStr (uuid_str (ev_endpoint_id ev))"
    using m(2,3) by (auto simp: msg_ok_def raw_names_def cores_def)
  have key: "by_key ev_id (ev_id ev) (events ?d) = Some ev"
    using by_key_in [OF _ ev(1)] db_ok_keys [OF inv_parts(2) [OF inv]] by blast
  have ok: "msg_ok cfg ?T (cores ?d) (set (fl_routes s)) x"
    if "x \<in> set (deliveries ?T ev (active_routes ?d (ev_endpoint_id ev)))" for x
  proof -
    have te: "te_cfg ?T = cfg" using cfg by (simp add: one_config_def)
    from that obtain r body where "r \<in> set (routes ?d)" "x = delivery_msg cfg ev r body" "entitled ?T ev r body"
      by (auto simp: deliveries_def active_routes_def entitled_def te split: option.splits)
    then show ?thesis
      using inv_parts(4) [OF inv] cfg ev(1) by (auto simp: one_config_def cores_def intro!: delivery_msg_ok)
  qed
  have "x \<in> set (fe_log F (fl_broker s)) \<or> msg_ok cfg ?T (cores ?d) (set (fl_routes s)) x"
    if "x \<in> set (fe_log F (handle_message ?T (fe_send F) ?d data (fl_broker s)))" for x
    using kafka_producer.handle_message_set [OF assms(1), of ?T ?d data "fl_broker s"] that ok
    by (auto simp: ev(2,3) json_uuid_def key)
  then show ?thesis
    using inv_parts(1,4) [OF inv] by (intro flow_inv_next [OF inv]) auto
qed

lemma inv_take:
  assumes inv: "flow_inv cfg F s"
    and m: "m \<in> set (fe_log F (fl_broker s))" "km_topic m = kafka_topic_transformed_events cfg" "km_value m = JObj data"
    and read: "read_message cfg data = Some (Inr (i, route, body))"
  shows "flow_inv cfg F (s\<lparr>fl_jobs := fl_jobs s @
    [\<lparr>jb_event = i, jb_route = route, jb_body = body, jb_attempt = 0, jb_waits = 0\<rparr>]\<rparr>)"
proof -
  have "msg_ok cfg (fe_transform F) (cores (fl_db s)) (set (fl_routes s)) m" using inv m(1) by (auto simp: flow_inv_def)
  then obtain ev r b where "ev \<in> cores (fl_db s)" "r \<in> set (fl_routes s)" "m = delivery_msg cfg ev r b"
      "entitled (fe_transform F) ev r b"
    using m(2) unfolding msg_ok_def by blast
  moreover from this have "i = ev_id ev" "route = delivered_route r" "body = b"
    using read_delivery_msg [of cfg ev r b data cfg] m(3) read by simp_all
  ultimately have "job_ok (fe_transform F) (cores (fl_db s)) (set (fl_routes s))
      \<lparr>jb_event = i, jb_route = route, jb_body = body, jb_attempt = 0, jb_waits = 0\<rparr>"
    by (auto simp: job_ok_def)
  then show ?thesis
    using inv_parts(1,4) [OF inv] by (intro flow_inv_next [OF inv]) auto
qed

lemma inv_crash:
  "flow_inv cfg F s \<Longrightarrow> set js \<subseteq> set (fl_jobs s) \<Longrightarrow> flow_inv cfg F (s\<lparr>fl_jobs := js\<rparr>)"
  
proof -
  assume inv: "flow_inv cfg F s" and js: "set js \<subseteq> set (fl_jobs s)"
  show ?thesis
    using inv_parts(1,4) [OF inv] js by (intro flow_inv_next [OF inv]) auto
qed

lemma inv_pass:
  fixes D :: "('s, 'k) denv"
  assumes "kafka_producer (fe_send F) (fe_log F)" and cfg: "one_config cfg F" and inv: "flow_inv cfg F s"
    and j: "j \<in> set (fl_jobs s)" and D: "de_cfg D = cfg" "de_send D = fe_send F"
    and w: "dw_db w = fl_db s" "dw_trace w = fl_trace s" and h: "handle s (dw_kafka w)"
    and run: "attempt_once D (jb_event j) (jb_route j) (jb_body j) (jb_attempt j) (jb_waits j) w = (x, w')"
  shows "flow_inv cfg F (after_db (dw_db w') (after_handle (dw_kafka w')
    (s\<lparr>fl_trace := dw_trace (after_pass x w'), fl_jobs := remove1 j (fl_jobs s) @ next_jobs x j\<rparr>)))"
proof -
  let ?d = "fl_db s" and ?T = "fe_transform F"
  obtain rows acts where pass: "appends w w' rows acts" "list_all (exchange_ok D (jb_route j) (jb_body j)) acts"
    using attempt_once_ok [of D "jb_event j" "jb_route j" "jb_body j" "jb_attempt j" w "jb_waits j"] run
    by (auto simp: pass_ok_def)
  have d': "dw_db w' = ?d\<lparr>attempts := attempts ?d @ rows\<rparr>" "dw_trace w' = fl_trace s @ acts"
    using pass(1) w by (simp_all add: appends_def)
  have "db_ok (dw_db w')"
    using keeps_attempt_once [of w D "jb_event j" "jb_route j" "jb_body j" "jb_attempt j" "jb_waits j"] run w(1)
      inv_parts(2) [OF inv] by (simp add: keeps_ok_def)
  then have sys: "sys_inv (fe_api F) (dw_db w')"
    using inv_parts(1) [OF inv] one_owner_frame [of ?d "dw_db w'"] by (simp add: sys_inv_def d'(1))
  have "job_ok ?T (cores ?d) (set (fl_routes s)) j" using inv j by (auto simp: flow_inv_def)
  then obtain ev r where ev: "ev \<in> cores ?d" "r \<in> set (fl_routes s)" "jb_event j = ev_id ev" "jb_route j = delivered_route r"
      "entitled ?T ev r (jb_body j)" by (auto simp: job_ok_def)
  have jobs: "job_ok ?T (cores ?d) R j'" if "j' \<in> set (next_jobs x j)" "set (fl_routes s) \<subseteq> R" for j' R
  proof -
    have "jb_event j' = jb_event j" "jb_route j' = jb_route j" "jb_body j' = jb_body j"
      using that(1) by (auto simp: next_jobs_def split: pass_end.splits)
    with ev that(2) show ?thesis unfolding job_ok_def by (metis subsetD)
  qed
  have trace: "a \<in> set (fl_trace s) \<or> request_ok cfg ?T (cores ?d) R a"
    if "a \<in> set (dw_trace (after_pass x w'))" "set (fl_routes s) \<subseteq> R" for a R
  proof -
    have "a \<in> set (fl_trace s) \<or> a \<in> set acts \<or> (\<exists>t. a = Paused t)"
      using that(1) d'(2) by (auto simp: after_pass_def pause_def split: pass_end.splits)
    then show ?thesis
      using pass(2) ev that(2) by (fastforce simp: list_all_iff exchange_ok_def request_ok_def D(1) delivered_route_def)
  qed
  have logged: "m \<in> set (fe_log F (fl_broker s)) \<or> msg_ok cfg ?T (cores ?d) R m"
    if "m \<in> set (fe_log F (fl_broker (after_handle (dw_kafka w') s)))" for m R
  proof -
    have "dead_letter_only D w w'"
      using dlo_attempt [of D w "jb_event j" "jb_route j" "jb_body j" "jb_attempt j" "jb_waits j"] run by simp
    then have "sent (fe_log F) (dw_kafka w') \<subseteq> sent (fe_log F) (dw_kafka w) \<union> {m. km_topic m = kafka_topic_dead_letter cfg}"
      using kafka_producer.send_set [OF assms(1)] by (fastforce simp: dead_letter_only_def sent_def D)
    from after_handle_log [OF h this that] show ?thesis
      using cfg by (auto simp: one_config_def intro!: dead_letter_ok)
  qed
  have broker: "fl_broker (after_handle p (s\<lparr>fl_trace := t, fl_jobs := js\<rparr>)) = fl_broker (after_handle p s)" for p t js
    by (simp add: after_handle_def split: option.split)
  have same: "cores (dw_db w') = cores ?d" "outbox (dw_db w') = outbox ?d" "routes (dw_db w') = routes ?d"
    by (simp_all add: d'(1) cores_def)
  show ?thesis
    using sys same inv_parts(4) [OF inv] jobs trace logged
    by (intro flow_inv_next [OF inv]) (auto simp: broker dest: subsetD [OF set_remove1_subset])
qed

lemma flow_inv_step:
  assumes "kafka_producer (fe_send F) (fe_log F)" and "one_config cfg F"
  shows "flow_step cfg F s s' \<Longrightarrow> flow_inv cfg F s \<Longrightarrow> flow_inv cfg F s'"
proof (induction rule: flow_step.induct)
  case (fs_member s d)
  then show ?case by (intro inv_member)
next
  case (fs_endpoint path s d)
  then show ?case by (intro inv_endpoint)
next
  case (fs_event path s d)
  then show ?case by (intro inv_event)
next
  case (fs_replay s p call event_id redis r p')
  then show ?case by (intro inv_replay [OF assms])
next
  case (fs_webhook dr endpoint_id request redis s ans redis' d)
  then show ?case by (intro inv_webhook [OF _ _ assms(2)])
next
  case (fs_relay s p inp r d p')
  then show ?case by (intro inv_relay [OF assms])
next
  case (fs_retry s p rinp d p')
  then show ?case by (intro inv_retry)
next
  case (fs_transform m s data)
  then show ?case by (intro inv_transform [OF assms])
next
  case (fs_take m s data i route body)
  then show ?case by (intro inv_take)
next
  case (fs_pass j s D w x w')
  then show ?case by (intro inv_pass [OF assms])
next
  case (fs_crash js s)
  then show ?case by (intro inv_crash)
qed

lemma start_flow_inv: "fe_log F k = [] \<Longrightarrow> flow_inv cfg F (start_flow k)"
  using sys_inv_empty [of "fe_api F"] by (simp add: flow_inv_def start_flow_def cores_def) (simp add: empty_db_def)

lemma flow_inv_reachable:
  assumes "kafka_producer (fe_send F) (fe_log F)" and "one_config cfg F" and "fe_log F k = []"
  shows "flow_steps cfg F (start_flow k) s \<Longrightarrow> flow_inv cfg F s"
  by (induction rule: rtranclp_induct) (auto intro: flow_inv_step [OF assms(1,2)] start_flow_inv [OF assms(3)])

end
