(* ===== verification/Journey.thy ===== *)
theory Journey
  imports Provenance
begin

text \<open>
  The whole way of a webhook, in both directions: every request the relay makes stems from an accepted
  webhook, and an accepted webhook can reach the destination of every route that is entitled to it.
\<close>

section \<open>A pass that makes the request\<close>

lemma with_redis_run:
  "f s = (x, s') \<Longrightarrow> dw_redis w = Some s \<Longrightarrow> with_redis f w = (Inr x, tick (w\<lparr>dw_redis := Some s'\<rparr>))"
  by (simp add: with_redis_def get_redis_def)

lemma record_trace:
  assumes "do_request D route body w = (res, ms, w1)"
  shows "dw_trace (snd (request_and_record D ev route body a w)) = dw_trace w1"
proof -
  obtain st content err where out: "http_outcome res = (st, content, err)" by (metis prod_cases3)
  obtain r w2 where add: "add_attempt D ev route body a st content err ms w1 = (r, w2)"
    by (cases "add_attempt D ev route body a st content err ms w1")
  have "dw_trace w2 = dw_trace w1"
    using add_attempt_appends [OF add] by (auto simp: appends_def)
  moreover have "dw_trace (snd (after_request D ev route body a st err w2)) = dw_trace w2"
    using after_request_appends [of D ev route body a st err w2] by (metis appends_def append_Nil2 prod.collapse)
  ultimately show ?thesis
    by (cases r) (simp_all add: request_and_record_def assms out add andthen_def)
qed

text \<open>With a closed breaker, room under the limit and a URL that passes, the pass sends the request.\<close>

lemma pass_exchanges:
  assumes cb: "cb_is_open (de_redis D) (de_cfg D) (rc_url route) (dw_now w) redis = (Inr False, redis1)"
    and rl: "\<And>member. \<exists>redis2. allow_request (de_redis D) (de_cfg D) (''dest:'' @ rc_url route) None member (dw_now w) redis1 =
      (True, redis2)"
    and rpm: "0 < rate_limit_rpm (de_cfg D)" and w: "dw_redis w = Some redis" and route: "rc_rate_limit_rpm route = None"
    and url: "\<And>n. validate_delivery_url_for_request (de_cfg D) (de_resolve D n) (rc_url route) = Inr ()"
  shows "\<exists>res. Exchanged (request_of route body) res \<in> set (dw_trace (snd (attempt_once D ev route body a n w)))"
proof -
  have check: "cb_check D (rc_url route) w = (Inr False, tick (w\<lparr>dw_redis := Some redis1\<rparr>))"
    unfolding cb_check_def with_redis_run [where f = "cb_is_open (de_redis D) (de_cfg D) (rc_url route) (dw_now w)", OF cb w] by simp
  let ?w1 = "tick (w\<lparr>dw_redis := Some redis1\<rparr>)"
  have w1: "dw_now ?w1 = dw_now w" "dw_redis ?w1 = Some redis1" by (simp_all add: tick_def)
  obtain redis2 where allow: "allow_request (de_redis D) (de_cfg D) (''dest:'' @ rc_url route) None
      (uuid_str (de_uuid D (dw_tick ?w1))) (dw_now ?w1) redis1 = (True, redis2)"
    unfolding w1(1) using rl by blast
  let ?w2 = "tick (?w1\<lparr>dw_redis := Some redis2\<rparr>)"
  note run = with_redis_run [where f = "allow_request (de_redis D) (de_cfg D) (''dest:'' @ rc_url route) None
    (uuid_str (de_uuid D (dw_tick ?w1))) (dw_now ?w1)", OF allow w1(2)]
  have limit: "rl_check D (''dest:'' @ rc_url route) None ?w1 = (Inr True, ?w2)"
    unfolding rl_check_def run using rpm by simp
  let ?res = "de_http D (dw_tick ?w2) (request_of route body)"
  obtain ms w3 where req: "do_request D route body ?w2 = (?res, ms, w3)"
      "Exchanged (request_of route body) ?res \<in> set (dw_trace w3)"
    by (simp add: do_request_def url Let_def)
  have "attempt_once D ev route body a n w = request_and_record D ev route body a ?w2"
    by (simp add: attempt_once_def andthen_def check route dest_gate_def limit del: append_Cons append.simps)
  then show ?thesis
    using record_trace [OF req(1)] req(2) by (metis (no_types))
qed

lemma empty_url_refused: "\<exists>e. validate_delivery_url cfg [] = Inl (HTTPException 400 e)"
proof -
  have "split_scheme (clean_url []) = ([], [])" "netloc_of [] = []"
    by (simp_all add: split_scheme_def clean_url_def py_lstrip_def py_partition_def netloc_of_def starts_with_def)
  then show ?thesis by (simp add: validate_delivery_url_def urlparse_def py_partition_def py_lower_def Let_def)
qed

lemma url_not_empty: "validate_delivery_url_for_request cfg resolve u = Inr () \<Longrightarrow> u \<noteq> []"
  using empty_url_refused [of cfg] by (auto simp: validate_delivery_url_for_request_def)

text \<open>The messages of a route whose text fields are not empty are not malformed.\<close>

lemma delivery_msg_well_formed:
  "km_value (delivery_msg cfg ev r body) = JObj data \<Longrightarrow> rt_url r \<noteq> [] \<Longrightarrow> \<not> malformed data"
  using length_uuid_str [of "ev_id ev"] length_uuid_str [of "rt_id r"]
  by (auto simp: delivery_msg_def malformed_def dict_get_def)

text \<open>From the raw message on: the transform worker, the delivery worker, and a pass that makes the request.\<close>

lemma message_reaches_destination:
  fixes D :: "('s, 'k) denv" and F :: "('s, 't, 'k) flow_env"
  assumes kafka: "kafka_producer (fe_send F) (fe_log F)" "\<And>m k. fst (fe_send F m k) = Inr ()"
    and cfg: "one_config cfg F" and m: "m \<in> set (fe_log F (fl_broker s))" "km_topic m = kafka_topic_raw_events cfg"
      "km_value m = JObj data" "dict_get data ''event_id'' JNull = JStr (uuid_str i)"
      "dict_get data ''endpoint_id'' JNull = JStr (uuid_str (rt_endpoint_id r))"
    and ev: "by_key ev_id i (events (fl_db s)) = Some ev" and r: "r \<in> set (routes (fl_db s))" "rt_is_active r"
    and body: "route_body (fe_transform F) ev r = Some body" and D: "de_cfg D = cfg" "de_send D = fe_send F"
    and cb: "cb_is_open (de_redis D) cfg (rt_url r) t redis = (Inr False, redis1)"
    and rl: "\<And>member. \<exists>redis2. allow_request (de_redis D) cfg (''dest:'' @ rt_url r) None member t redis1 = (True, redis2)"
    and rpm: "0 < rate_limit_rpm cfg" and url: "\<And>n. validate_delivery_url_for_request cfg (de_resolve D n) (rt_url r) = Inr ()"
  shows "\<exists>s' res. flow_steps cfg F s s' \<and> Exchanged (request_of (delivered_route r) body) res \<in> set (fl_trace s')"
proof -
  let ?T = "fe_transform F" and ?msg = "delivery_msg cfg ev r body"
  define s1 where "s1 = s\<lparr>fl_broker := handle_message ?T (fe_send F) (fl_db s) data (fl_broker s)\<rparr>"
  have one: "flow_step cfg F s s1" unfolding s1_def by (rule fs_transform [OF m(1-3)])
  have te: "te_cfg ?T = cfg" using cfg by (simp add: one_config_def)
  have "?msg \<in> set (deliveries ?T ev (active_routes (fl_db s) (rt_endpoint_id r)))"
    using r body by (auto simp: deliveries_def active_routes_def te intro!: bexI [of _ r])
  then have logged: "?msg \<in> set (fe_log F (fl_broker s1))"
    using fan_out [OF kafka ev m(4,5), of ?T "fl_broker s"] by (simp add: s1_def)
  obtain data2 where data2: "km_value ?msg = JObj data2" "km_topic ?msg = kafka_topic_transformed_events cfg"
    by (simp add: delivery_msg_def)
  let ?j = "\<lparr>jb_event = ev_id ev, jb_route = delivered_route r, jb_body = body, jb_attempt = 0, jb_waits = 0\<rparr>"
  define s2 where "s2 = s1\<lparr>fl_jobs := fl_jobs s1 @ [?j]\<rparr>"
  have two: "flow_step cfg F s1 s2"
    unfolding s2_def by (rule fs_take [OF logged data2(2,1) delivery_msg_well_formed [OF data2(1) url_not_empty [OF url]]
        read_delivery_msg [OF data2(1)]])
  define w :: "('s, 'k) dworld" where "w = \<lparr>dw_redis = Some redis, dw_db = fl_db s2, dw_now = t, dw_kafka = None,
    dw_trace = fl_trace s2, dw_tick = 0\<rparr>"
  obtain x w' where pass: "attempt_once D (ev_id ev) (delivered_route r) body 0 0 w = (x, w')"
    by (cases "attempt_once D (ev_id ev) (delivered_route r) body 0 0 w")
  have fields: "rc_url (delivered_route r) = rt_url r" "rc_rate_limit_rpm (delivered_route r) = None"
    by (simp_all add: delivered_route_def)
  have "\<exists>res. Exchanged (request_of (delivered_route r) body) res \<in>
      set (dw_trace (snd (attempt_once D (ev_id ev) (delivered_route r) body 0 0 w)))"
    by (rule pass_exchanges [of D "delivered_route r" w redis redis1])
      (simp_all add: fields D(1) w_def cb rpm url rl del: append_Cons append.simps)
  then obtain res where res: "Exchanged (request_of (delivered_route r) body) res \<in> set (dw_trace w')"
    using pass by auto
  have "flow_step cfg F s2 (after_db (dw_db w') (after_handle (dw_kafka w')
      (s2\<lparr>fl_trace := dw_trace (after_pass x w'), fl_jobs := remove1 ?j (fl_jobs s2) @ next_jobs x ?j\<rparr>)))" (is "flow_step _ _ _ ?s3")
    by (rule fs_pass [OF _ D, of ?j _ w]) (use pass in \<open>simp_all add: s2_def w_def handle_def\<close>)
  with one two have "flow_steps cfg F s ?s3" by (meson converse_rtranclp_into_rtranclp rtranclp.rtrancl_refl)
  moreover have "set (dw_trace w') \<subseteq> set (dw_trace (after_pass x w'))"
    by (auto simp: after_pass_def pause_def split: pass_end.split)
  ultimately show ?thesis using res by (intro exI [of _ ?s3] exI [of _ res]) auto
qed

text \<open>From an accepted webhook on: one poll of the relay puts the raw message into the broker's log.\<close>

lemma destination_reached:
  fixes D :: "('s, 'k) denv" and F :: "('s, 't, 'k) flow_env"
  assumes "kafka_producer (fe_send F) (fe_log F)" and "\<And>m k. fst (fe_send F m k) = Inr ()" and "one_config cfg F"
    and "receive_webhook (fe_gateway F) dr endpoint_id request redis (fl_db s) = (Inr (Accepted i), redis', d1)"
    and "length (filter (\<lambda>row. ob_status row = ''pending'') (outbox (fl_db s))) < 10"
    and "r \<in> set (routes (fl_db s))" and "uuid_parse endpoint_id = Inr (rt_endpoint_id r)" and "rt_is_active r"
    and "by_key ev_id i (events d1) = Some ev" and "route_body (fe_transform F) ev r = Some body"
    and "de_cfg D = cfg" and "de_send D = fe_send F"
    and "cb_is_open (de_redis D) cfg (rt_url r) t store = (Inr False, store')"
    and "\<And>member. \<exists>store''. allow_request (de_redis D) cfg (''dest:'' @ rt_url r) None member t store' = (True, store'')"
    and "0 < rate_limit_rpm cfg" and "\<And>n. validate_delivery_url_for_request cfg (de_resolve D n) (rt_url r) = Inr ()"
  shows "\<exists>s' res. flow_steps cfg F s s' \<and> Exchanged (request_of (delivered_route r) body) res \<in> set (fl_trace s')"
proof (rule accepted_facts [OF assms(4)])
  fix ep payload raw
  let ?G = "fe_gateway F"
  let ?ev = "new_event dr ep (header_get ''x-idempotency-key'' (wr_headers request)) payload (wr_headers request)"
  let ?ob = "new_outbox (ge_cfg ?G) dr ep"
  assume parts: "uuid_parse endpoint_id = Inr (ep_id ep)" "i = dr_event_id dr" and ok: "db_ok d1"
    and d1: "d1 = (fl_db s)\<lparr>events := events (fl_db s) @ [?ev], outbox := outbox (fl_db s) @ [?ob]\<rparr>"
  have ge: "ge_cfg ?G = cfg" using assms(3) by (simp add: one_config_def)
  have "by_key ev_id (ev_id ?ev) (events d1) = Some ?ev"
    using by_key_in [of ev_id "events d1" ?ev] db_ok_keys [OF ok] by (simp add: d1)
  then have ev: "ev = ?ev" using assms(9) by (simp add: parts(2) new_event_def)
  have "set (batch (\<lambda>i. False) d1) = set (pending_rows d1)"
    using assms(5) by (intro batch_all) (simp add: d1 pending_rows_def)
  then have "?ob \<in> set (batch (\<lambda>i. False) d1)" by (simp add: d1 pending_rows_def new_outbox_def)
  then obtain d2 k2 where poll: "relay_poll (fe_send F) quiet d1 (Some (fl_broker s)) = (Inr (), d2, Some k2)" "routes d2 = routes d1"
      "by_key ev_id (ev_id ?ev) (events d2) = Some (?ev\<lparr>ev_status := ''queued''\<rparr>)" "outbox_msg ?ob \<in> set (fe_log F k2)"
    using poll_hands_over [OF assms(1,2) ok, of ?ob ?ev "fl_broker s"] by (auto simp: d1 new_outbox_def new_event_def)
  define s1 where "s1 = after_db d1 (s\<lparr>fl_intake := fl_intake s @ taken_in (fl_db s) endpoint_id request (Inr (Accepted i))\<rparr>)"
  have one: "flow_step cfg F s s1" unfolding s1_def by (rule fs_webhook [OF assms(4)])
  have s1: "fl_db s1 = d1" "fl_broker s1 = fl_broker s" by (simp_all add: s1_def)
  define s2 where "s2 = after_db d2 (after_handle (Some k2) s1)"
  have two: "flow_step cfg F s1 s2"
    unfolding s2_def by (rule fs_relay [where p = "Some (fl_broker s)" and inp = quiet]) (simp_all add: handle_def s1 poll(1))
  have s2: "fl_db s2 = d2" "fl_broker s2 = k2" by (simp_all add: s2_def after_handle_def)
  let ?data = "[(''event_id'', JStr (uuid_str i)), (''endpoint_id'', JStr (uuid_str (rt_endpoint_id r)))]"
  have msg: "km_topic (outbox_msg ?ob) = kafka_topic_raw_events cfg" "km_value (outbox_msg ?ob) = JObj ?data"
    using parts(1) assms(7) by (simp_all add: outbox_msg_def new_outbox_def parts(2) ge)
  have "\<exists>s' res. flow_steps cfg F s2 s' \<and> Exchanged (request_of (delivered_route r) body) res \<in> set (fl_trace s')"
  proof (rule message_reaches_destination [OF assms(1-3), where D = D and t = t and i = i and data = ?data])
    show "outbox_msg ?ob \<in> set (fe_log F (fl_broker s2))" using poll(4) by (simp add: s2)
    show "by_key ev_id i (events (fl_db s2)) = Some (?ev\<lparr>ev_status := ''queued''\<rparr>)"
      using poll(3) by (simp add: s2 parts(2) new_event_def)
    show "r \<in> set (routes (fl_db s2))" using assms(6) by (simp add: s2 poll(2) d1)
    have "bare (?ev\<lparr>ev_status := ''queued''\<rparr>) = bare ev" by (simp add: ev)
    then show "route_body (fe_transform F) (?ev\<lparr>ev_status := ''queued''\<rparr>) r = Some body"
      using assms(10) by (metis route_body_bare)
    show "cb_is_open (de_redis D) cfg (rt_url r) t store = (Inr False, store')" by (rule assms(13))
    show "\<exists>store''. allow_request (de_redis D) cfg (''dest:'' @ rt_url r) None member t store' = (True, store'')" for member
      by (rule assms(14))
    show "validate_delivery_url_for_request cfg (de_resolve D n) (rt_url r) = Inr ()" for n by (rule assms(16))
  qed (use assms(8,11,12,15) msg in \<open>simp_all add: dict_get_def\<close>)
  then obtain s' res where "flow_steps cfg F s2 s'" "Exchanged (request_of (delivered_route r) body) res \<in> set (fl_trace s')"
    by blast
  moreover from this(1) one two have "flow_steps cfg F s s'" by (meson converse_rtranclp_into_rtranclp)
  ultimately show ?thesis by blast
qed

section \<open>Properties\<close>


text \<open>
  C2: an accepted webhook can reach every destination it is meant for.  If the gateway accepts a webhook
  while fewer than ten outbox records are pending, and sends to Kafka succeed, then for every active route
  of the endpoint whose filter and pipeline give a body for the event, there is a run of the relay (one
  poll, the raw message handled, the route's message taken, one pass) in which the request with that body
  goes to the route's URL, provided the circuit breaker is closed, the destination is below its rate limit
  and its URL passes the check at that moment.
\<close>
theorem webhook_can_reach_destination:
  fixes D :: "('s, 'k) denv" and F :: "('s, 't, 'k) flow_env"
  assumes "kafka_producer (fe_send F) (fe_log F)" and "\<And>m k. fst (fe_send F m k) = Inr ()" and "one_config cfg F"
    and "receive_webhook (fe_gateway F) dr endpoint_id request redis (fl_db s) = (Inr (Accepted i), redis', d1)"
    and "length (filter (\<lambda>row. ob_status row = ''pending'') (outbox (fl_db s))) < 10"
    and "r \<in> set (routes (fl_db s))" and "uuid_parse endpoint_id = Inr (rt_endpoint_id r)" and "rt_is_active r"
    and "by_key ev_id i (events d1) = Some ev" and "route_body (fe_transform F) ev r = Some body"
    and "de_cfg D = cfg" and "de_send D = fe_send F"
    and "cb_is_open (de_redis D) cfg (rt_url r) t store = (Inr False, store')"
    and "\<And>member. \<exists>store''. allow_request (de_redis D) cfg (''dest:'' @ rt_url r) None member t store' = (True, store'')"
    and "0 < rate_limit_rpm cfg" and "\<And>n. validate_delivery_url_for_request cfg (de_resolve D n) (rt_url r) = Inr ()"
  shows "\<exists>s' req res. flow_steps cfg F s s' \<and> Exchanged req res \<in> set (fl_trace s') \<and>
    hr_url req = rt_url r \<and> hr_method req = rt_method r \<and> hr_json req = body"
  using destination_reached [OF assms] by (fastforce simp: request_of_def delivered_route_def)

section \<open>Closed examples\<close>

definition ex_flow :: "(ref_state, string \<times> dict, broker) flow_env" where
  "ex_flow = \<lparr>fe_auth = ex_auth, fe_api = ex_api, fe_lazy = ex_lazy, fe_gateway = ex_gateway,
     fe_transform = ex_transform, fe_send = sure_send, fe_log = br_log\<rparr>"

lemma ex_flow_fields [simp]:
  "fe_auth ex_flow = ex_auth" "fe_api ex_flow = ex_api" "fe_lazy ex_flow = ex_lazy" "fe_gateway ex_flow = ex_gateway"
  "fe_transform ex_flow = ex_transform" "fe_send ex_flow = sure_send" "fe_log ex_flow = br_log"
  by (simp_all add: ex_flow_def)

lemma ex_one_config: "one_config default_settings ex_flow"
  by (simp add: one_config_def) (simp add: ex_auth_def ex_api_def ex_gateway_def ex_transform_def default_settings_def)

definition ex_ready :: "broker flow" where
  "ex_ready = \<lparr>fl_db = ex_route_db, fl_broker = empty_broker, fl_jobs = [], fl_trace = [], fl_intake = [], fl_routes = [ex_stored_route]\<rparr>"

lemma ex_ready_reached: "flow_steps default_settings ex_flow (start_flow empty_broker) ex_ready"
proof -
  have "flow_step default_settings ex_flow (start_flow empty_broker) (after_db ex_account_db (start_flow empty_broker))"
    by (rule fs_member) (simp add: start_flow_def ex_account)
  moreover have "flow_step default_settings ex_flow (after_db ex_account_db (start_flow empty_broker))
      (after_db ex_endpoint_db (after_db ex_account_db (start_flow empty_broker)))"
    by (rule fs_endpoint [where path = "uuid_str 2"]) (simp add: ex_create)
  moreover have "flow_step default_settings ex_flow (after_db ex_endpoint_db (after_db ex_account_db (start_flow empty_broker)))
      (after_db ex_route_db (after_db ex_endpoint_db (after_db ex_account_db (start_flow empty_broker))))"
    by (rule fs_endpoint [where path = "uuid_str 2"]) (simp add: ex_add_route)
  moreover have "after_db ex_route_db (after_db ex_endpoint_db (after_db ex_account_db (start_flow empty_broker))) = ex_ready"
    by (simp add: after_db_def start_flow_def ex_ready_def ex_route_db_def ex_endpoint_db_def ex_account_tables)
  ultimately show ?thesis by (metis (no_types) converse_rtranclp_into_rtranclp rtranclp.rtrancl_refl)
qed

definition ex_mark :: string where
  "ex_mark = ''sha256='' @ hmac_sha256 (utf8 (replicate 64 CHR ''a'')) ''{}''"

definition ex_signed :: webhook_request where
  "ex_signed = \<lparr>wr_chunks = [''{'', ''}''], wr_client = Some ''192.0.2.1'', wr_headers = [(''x-hub-signature-256'', ex_mark)]\<rparr>"

abbreviation ex_shop_endpoint :: endpoint_row where
  "ex_shop_endpoint \<equiv> hd (endpoints ex_route_db)"

lemma ex_signed_headers:
  "header_get ''x-idempotency-key'' (wr_headers ex_signed) = None"
  "header_get ''x-hub-signature-256'' (wr_headers ex_signed) = Some ex_mark"
  by (simp_all add: header_get_def ex_signed_def py_lower_def lower_char_def)

lemma ex_room:
  "\<exists>s. allow_request ref_redis default_settings key (Some 300) member t Map.empty = (True, s)"
  "\<exists>s. allow_request ref_redis default_settings key None member t Map.empty = (True, s)"
  by (simp_all add: allow_request_def Let_def ref_redis_def ref_get_def ref_view_def default_settings_def
      ref_zset_def ref_zrem_def zset_drop_def split: prod.split)

lemma ex_signed_admitted:
  "\<exists>s. admit ex_gateway (ex_draw 3000 None) (uuid_str 5) ex_signed (Some Map.empty) ex_route_db = (Inr (ex_shop_endpoint, JObj []), Some s)"
proof -
  have f: "find_endpoint ex_route_db (uuid_str 5) ex_signed = Inr ex_shop_endpoint"
    by (simp add: find_endpoint_ok by_key_def ex_route_db_def ex_endpoint_db_def client_ip_allowed_def)
  have b: "read_limited_body (ge_cfg ex_gateway) ex_signed = Inr ''{}''"
    by (simp add: read_limited_body_def ex_gateway_def default_settings_def ex_signed_def)
  have s: "check_signature ex_gateway (ep_hmac_secret ex_shop_endpoint) (Some ex_mark) ''{}'' = Inr ()"
    by (simp add: check_signature_ok ex_mark_def ex_route_db_def ex_endpoint_db_def)
  have e: "ep_rate_limit_rps ex_shop_endpoint = Some 5" "ep_request_body_schema ex_shop_endpoint = None"
    by (simp_all add: ex_route_db_def ex_endpoint_db_def)
  obtain s' where "check_rate ex_gateway (ex_draw 3000 None) ex_shop_endpoint (Some Map.empty) = (Inr (), Some s')"
    using ex_room(1) [of "''ingress:ep:'' @ uuid_str (ep_id ex_shop_endpoint)" "dr_member (ex_draw 3000 None)" "dr_now (ex_draw 3000 None)"]
    by (auto simp: check_rate_def e get_redis_def ex_gateway_def simp del: append_Cons)
  then show ?thesis
    by (simp add: admit_def f b ex_signed_headers s) (simp add: e check_schema_def parse_payload_def ex_gateway_def)
qed

definition ex_shop_hook :: event_row where
  "ex_shop_hook = new_event (ex_draw 3000 None) ex_shop_endpoint None (JObj []) (wr_headers ex_signed)"

definition ex_hooked_db :: db where
  "ex_hooked_db = ex_route_db\<lparr>events := [ex_shop_hook],
     outbox := [new_outbox default_settings (ex_draw 3000 None) ex_shop_endpoint]\<rparr>"

lemma ex_route_tables: "events ex_route_db = []" "outbox ex_route_db = []" "attempts ex_route_db = []"
  by (simp_all add: ex_route_db_def ex_endpoint_db_def ex_account_db_def empty_db_def)

lemma ex_hooked_ok: "db_ok ex_hooked_db"
  unfolding ex_hooked_db_def
  by (rule db_ok_store [OF ex_route_ok, unfolded ex_route_tables append_Nil])
    (simp_all add: ex_shop_hook_def new_event_def new_outbox_def fits_event_def fits_outbox_def short_def opt_ok_def int4_def
      default_settings_def length_uuid_str ex_draw_def ex_route_db_def ex_endpoint_db_def)

lemma ex_signed_accepted:
  "\<exists>store. receive_webhook ex_gateway (ex_draw 3000 None) (uuid_str 5) ex_signed (Some Map.empty) ex_route_db =
     (Inr (Accepted 4), store, ex_hooked_db)"
proof -
  obtain store where "admit ex_gateway (ex_draw 3000 None) (uuid_str 5) ex_signed (Some Map.empty) ex_route_db =
      (Inr (ex_shop_endpoint, JObj []), Some store)"
    using ex_signed_admitted by blast
  moreover have "store_event (ge_cfg ex_gateway) (ex_draw 3000 None) ex_shop_endpoint None (JObj []) (wr_headers ex_signed) ex_route_db =
      Inr ex_hooked_db"
    using ex_hooked_ok
    by (simp add: store_event_def commit_ok ex_route_tables ex_gateway_def ex_hooked_db_def ex_shop_hook_def)
      (simp add: commit_def db_ok_def ex_draw_def)
  moreover have "dr_event_id (ex_draw 3000 None) = 4" by (simp add: ex_draw_def)
  ultimately show ?thesis by (simp add: receive_webhook_def ex_signed_headers check_duplicate_def)
qed

lemma ex_shop_body: "route_body ex_transform ex_shop_hook ex_stored_route = Some (JObj [])"
  by (simp add: route_body_def route_matches_event_def ex_stored_route_def ex_shop_hook_def new_event_def apply_pipeline_def dict_get_def
      run_step_def)

definition ex_denv :: "(ref_state, broker) denv" where
  "ex_denv = (ex_env 200)\<lparr>de_send := sure_send\<rparr>"

lemma ex_url_passes: "validate_delivery_url_for_request default_settings (de_resolve ex_denv n) (rt_url ex_stored_route) = Inr ()"
proof -
  have "rt_url ex_stored_route = quad_url 8 8 8 8 ''hook''" "de_resolve ex_denv n = literal_resolver"
    by (simp_all add: ex_stored_route_def ex_url_def quad_url_def ex_denv_def ex_env_def)
  then show ?thesis using quad_url_ok [of 8 8 8 8 default_settings "''hook''"] by (simp add: blocked_octets_def)
qed

lemma ex_kafka: "kafka_producer (fe_send ex_flow) (fe_log ex_flow)" "fst (fe_send ex_flow m k) = Inr ()"
  using sure.kafka_producer_axioms ex_sure by simp_all

lemma ex_taken: "\<exists>store. receive_webhook (fe_gateway ex_flow) (ex_draw 3000 None) (uuid_str 5) ex_signed (Some Map.empty) (fl_db ex_ready) =
    (Inr (Accepted 4), store, ex_hooked_db)"
  using ex_signed_accepted by (auto simp: ex_ready_def)

lemma ex_denv_fields: "de_cfg ex_denv = default_settings" "de_send ex_denv = fe_send ex_flow" "de_redis ex_denv = ref_redis"
  by (simp_all add: ex_denv_def ex_env_def)

lemma ex_gates:
  "cb_is_open (de_redis ex_denv) default_settings u 4000 Map.empty = (Inr False, Map.empty)"
  "\<exists>s. allow_request (de_redis ex_denv) default_settings key None member 4000 Map.empty = (True, s)"
  unfolding ex_denv_fields by (simp add: cb_is_open_def ref_redis_def ref_get_def ref_view_def) (rule ex_room(2))

lemma ex_conditions:
  "length (filter (\<lambda>row. ob_status row = ''pending'') (outbox (fl_db ex_ready))) < 10"
  "ex_stored_route \<in> set (routes (fl_db ex_ready))" "uuid_parse (uuid_str 5) = Inr (rt_endpoint_id ex_stored_route)"
  "rt_is_active ex_stored_route" "by_key ev_id 4 (events ex_hooked_db) = Some ex_shop_hook"
  "route_body (fe_transform ex_flow) ex_shop_hook ex_stored_route = Some (JObj [])" "0 < rate_limit_rpm default_settings"
  by (simp_all add: ex_ready_def ex_route_tables ex_shop_body)
    (simp_all add: ex_route_db_def ex_stored_route_def default_settings_def by_key_def ex_hooked_db_def ex_shop_hook_def new_event_def ex_draw_def)

lemma ex_journey:
  "\<exists>s res. flow_steps default_settings ex_flow (start_flow empty_broker) s \<and>
     Exchanged (request_of (delivered_route ex_stored_route) (JObj [])) res \<in> set (fl_trace s)"
proof -
  obtain store where acc: "receive_webhook (fe_gateway ex_flow) (ex_draw 3000 None) (uuid_str 5) ex_signed (Some Map.empty) (fl_db ex_ready) =
      (Inr (Accepted 4), store, ex_hooked_db)"
    using ex_taken by blast
  obtain s res where "flow_steps default_settings ex_flow ex_ready s"
      "Exchanged (request_of (delivered_route ex_stored_route) (JObj [])) res \<in> set (fl_trace s)"
    using destination_reached [OF ex_kafka ex_one_config acc ex_conditions(1-6) ex_denv_fields(1,2) ex_gates ex_conditions(7) ex_url_passes]
    by blast
  then show ?thesis using ex_ready_reached by (meson rtranclp_trans)
qed

theorem webhook_can_reach_destination_witness:
  "\<exists>s req res. flow_steps default_settings ex_flow ex_ready s \<and> Exchanged req res \<in> set (fl_trace s) \<and>
     hr_url req = ''https://'' @ dotted 8 8 8 8 @ ''/'' @ ''hook'' \<and> hr_json req = JObj []"
proof -
  obtain store where acc: "receive_webhook (fe_gateway ex_flow) (ex_draw 3000 None) (uuid_str 5) ex_signed (Some Map.empty) (fl_db ex_ready) =
      (Inr (Accepted 4), store, ex_hooked_db)"
    using ex_taken by blast
  from webhook_can_reach_destination [OF ex_kafka ex_one_config acc ex_conditions(1-6) ex_denv_fields(1,2) ex_gates ex_conditions(7) ex_url_passes]
  show ?thesis by (auto simp: ex_stored_route_def ex_url_def)
qed


end
