(* ===== verification/Database.thy ===== *)
theory Database
  imports Prelude
begin

text \<open>
  The start-up of the schema, \<open>init_db\<close> in \<open>app/core/database.py\<close>: the tables the models declare, the
  migrations in the order of the code, and the one transaction that runs them.  PostgreSQL and the
  client library are an argument; what the code relies on of them is the locale \<open>postgres\<close>.
\<close>

section \<open>Schemas\<close>

text \<open>A column with its type, its server default and the table it refers to (and whether deletions cascade).\<close>

datatype default_value = Literal string | Now

record column =
  co_name :: string
  co_type :: string
  co_primary :: bool
  co_not_null :: bool
  co_default :: "default_value option"
  co_refers :: "(string \<times> bool) option"

record index =
  ix_table :: string
  ix_column :: string
  ix_unique :: bool

record table_decl =
  td_name :: string
  td_columns :: "column list"
  td_indexes :: "index list"

record schema =
  sc_tables :: "(string \<times> column list) list"
  sc_indexes :: "index list"

definition col :: "string \<Rightarrow> string \<Rightarrow> column" where
  "col n t = \<lparr>co_name = n, co_type = t, co_primary = False, co_not_null = True, co_default = None, co_refers = None\<rparr>"

definition nullable :: "column \<Rightarrow> column" where
  "nullable c = c\<lparr>co_not_null := False\<rparr>"

definition primary :: "column \<Rightarrow> column" where
  "primary c = c\<lparr>co_primary := True\<rparr>"

definition default_to :: "default_value \<Rightarrow> column \<Rightarrow> column" where
  "default_to v c = c\<lparr>co_default := Some v\<rparr>"

definition refers_to :: "string \<Rightarrow> column \<Rightarrow> column" where
  "refers_to t c = c\<lparr>co_refers := Some (t, False)\<rparr>"

definition cascades_with :: "string \<Rightarrow> column \<Rightarrow> column" where
  "cascades_with t c = c\<lparr>co_refers := Some (t, True)\<rparr>"

definition key_column :: column where
  "key_column = primary (col ''id'' ''UUID'')"

definition now_column :: "string \<Rightarrow> column" where
  "now_column n = default_to Now (col n ''TIMESTAMPTZ'')"

section \<open>The declared tables\<close>

text \<open>\<open>default=\<close> is Python's; only \<open>server_default=\<close> reaches the table.  A type without \<open>None\<close> is NOT NULL.\<close>

definition users_table :: table_decl where
  "users_table = \<lparr>td_name = ''users'', td_columns =
     [key_column, col ''email'' ''VARCHAR(255)'', col ''display_name'' ''VARCHAR(255)'', col ''password_hash'' ''VARCHAR(255)'',
      col ''is_active'' ''BOOLEAN'', now_column ''created_at'', now_column ''updated_at''],
     td_indexes = [\<lparr>ix_table = ''users'', ix_column = ''email'', ix_unique = True\<rparr>]\<rparr>"

definition workspaces_table :: table_decl where
  "workspaces_table = \<lparr>td_name = ''workspaces'', td_columns =
     [key_column, col ''name'' ''VARCHAR(255)'', col ''slug'' ''VARCHAR(255)'', now_column ''created_at'', now_column ''updated_at''],
     td_indexes = [\<lparr>ix_table = ''workspaces'', ix_column = ''slug'', ix_unique = True\<rparr>]\<rparr>"

definition memberships_table :: table_decl where
  "memberships_table = \<lparr>td_name = ''workspace_memberships'', td_columns =
     [primary (cascades_with ''users'' (col ''user_id'' ''UUID'')),
      primary (cascades_with ''workspaces'' (col ''workspace_id'' ''UUID'')),
      col ''role'' ''VARCHAR(20)'', now_column ''joined_at''],
     td_indexes = []\<rparr>"

definition endpoints_table :: table_decl where
  "endpoints_table = \<lparr>td_name = ''endpoints'', td_columns =
     [key_column, cascades_with ''workspaces'' (col ''workspace_id'' ''UUID''), col ''name'' ''VARCHAR(255)'',
      col ''hmac_secret'' ''VARCHAR(255)'', col ''is_active'' ''BOOLEAN'', nullable (col ''rate_limit_rps'' ''INTEGER''),
      nullable (col ''ip_allowlist'' ''VARCHAR[]''), nullable (col ''request_body_schema'' ''TEXT''),
      now_column ''created_at'', now_column ''updated_at''],
     td_indexes = []\<rparr>"

definition routes_table :: table_decl where
  "routes_table = \<lparr>td_name = ''routes'', td_columns =
     [key_column, cascades_with ''endpoints'' (col ''endpoint_id'' ''UUID''), col ''name'' ''VARCHAR(255)'', col ''url'' ''TEXT'',
      col ''method'' ''VARCHAR(10)'', nullable (col ''headers'' ''JSONB''), nullable (col ''transform_pipeline'' ''JSONB''),
      nullable (col ''rate_limit_rpm'' ''INTEGER''), col ''timeout_ms'' ''INTEGER'', col ''max_retries'' ''INTEGER'',
      col ''retry_backoff_ms'' ''INTEGER'', col ''is_active'' ''BOOLEAN'', nullable (col ''filter_expression'' ''TEXT''),
      now_column ''created_at''],
     td_indexes = []\<rparr>"

definition events_table :: table_decl where
  "events_table = \<lparr>td_name = ''events'', td_columns =
     [key_column, refers_to ''endpoints'' (col ''endpoint_id'' ''UUID''), nullable (col ''idempotency_key'' ''VARCHAR(255)''),
      col ''request_body'' ''JSONB'', nullable (col ''request_headers'' ''JSONB''),
      default_to (Literal ''pending'') (col ''status'' ''VARCHAR(32)''), nullable (col ''retry_at'' ''TIMESTAMPTZ''),
      now_column ''received_at'', default_to (Literal ''false'') (col ''is_discarded'' ''BOOLEAN''),
      nullable (col ''discarded_at'' ''TIMESTAMPTZ'')],
     td_indexes = map (\<lambda>c. \<lparr>ix_table = ''events'', ix_column = c, ix_unique = False\<rparr>) [''endpoint_id'', ''status'', ''received_at'']\<rparr>"

definition attempts_table :: table_decl where
  "attempts_table = \<lparr>td_name = ''delivery_attempts'', td_columns =
     [key_column, refers_to ''events'' (col ''event_id'' ''UUID''), refers_to ''routes'' (col ''route_id'' ''UUID''),
      col ''attempt_number'' ''INTEGER'', col ''request_url'' ''TEXT'', nullable (col ''request_body'' ''JSONB''),
      nullable (col ''response_status'' ''INTEGER''), nullable (col ''response_body'' ''TEXT''), nullable (col ''error'' ''TEXT''),
      nullable (col ''duration_ms'' ''INTEGER''), now_column ''attempted_at''],
     td_indexes = [\<lparr>ix_table = ''delivery_attempts'', ix_column = ''event_id'', ix_unique = False\<rparr>]\<rparr>"

definition outbox_table :: table_decl where
  "outbox_table = \<lparr>td_name = ''outbox_records'', td_columns =
     [key_column, refers_to ''events'' (col ''event_id'' ''UUID''),
      default_to (Literal ''pending'') (col ''status'' ''VARCHAR(16)''), col ''publish_key'' ''VARCHAR(255)'',
      col ''publish_topic'' ''VARCHAR(255)'', default_to (Literal ''0'') (col ''attempts'' ''INTEGER''),
      nullable (col ''last_error'' ''TEXT''), now_column ''created_at'', nullable (col ''processed_at'' ''TIMESTAMPTZ'')],
     td_indexes = map (\<lambda>c. \<lparr>ix_table = ''outbox_records'', ix_column = c, ix_unique = False\<rparr>) [''event_id'', ''status'']\<rparr>"

text \<open>\<open>Base.metadata\<close> after the imports of \<open>init_db\<close>, a table after those it refers to.\<close>

definition metadata :: "table_decl list" where
  "metadata = [users_table, workspaces_table, memberships_table, endpoints_table, routes_table, events_table,
     attempts_table, outbox_table]"

section \<open>The migrations\<close>

text \<open>Each of the three kinds of statement carries IF NOT EXISTS.\<close>

datatype ddl = Add_Column string column | Create_Table string "column list" | Create_Index index

definition migrations :: "ddl list" where
  "migrations =
     [Add_Column ''routes'' (nullable (col ''filter_expression'' ''TEXT'')),
      Add_Column ''events'' (nullable (col ''request_headers'' ''JSONB'')),
      Add_Column ''endpoints'' (nullable (refers_to ''workspaces'' (col ''workspace_id'' ''UUID''))),
      Add_Column ''endpoints'' (nullable (col ''request_body_schema'' ''TEXT'')),
      Add_Column ''events'' (default_to (Literal ''pending'') (col ''status'' ''VARCHAR(32)'')),
      Add_Column ''events'' (nullable (col ''retry_at'' ''TIMESTAMPTZ'')),
      Create_Table ''outbox_records''
        [primary (col ''id'' ''UUID''), refers_to ''events'' (col ''event_id'' ''UUID''),
         default_to (Literal ''pending'') (col ''status'' ''VARCHAR(16)''), col ''publish_key'' ''VARCHAR(255)'',
         col ''publish_topic'' ''VARCHAR(255)'', default_to (Literal ''0'') (col ''attempts'' ''INTEGER''),
         nullable (col ''last_error'' ''TEXT''), default_to Now (col ''created_at'' ''TIMESTAMPTZ''),
         nullable (col ''processed_at'' ''TIMESTAMPTZ'')],
      Create_Index \<lparr>ix_table = ''outbox_records'', ix_column = ''status'', ix_unique = False\<rparr>,
      Create_Index \<lparr>ix_table = ''outbox_records'', ix_column = ''event_id'', ix_unique = False\<rparr>]"

section \<open>What the statements do\<close>

definition columns :: "schema \<Rightarrow> string \<Rightarrow> column list option" where
  "columns sc t = map_of (sc_tables sc) t"

definition ix_name :: "index \<Rightarrow> string" where
  "ix_name i = ''ix_'' @ ix_table i @ ''_'' @ ix_column i"

definition new_column :: "column \<Rightarrow> column list \<Rightarrow> column list" where
  "new_column c cs = (if co_name c \<in> co_name ` set cs then cs else cs @ [c])"

definition create_missing :: "table_decl \<Rightarrow> schema \<Rightarrow> schema" where
  "create_missing td sc =
     (if columns sc (td_name td) = None
      then \<lparr>sc_tables = sc_tables sc @ [(td_name td, td_columns td)], sc_indexes = sc_indexes sc @ td_indexes td\<rparr> else sc)"

fun apply_ddl :: "ddl \<Rightarrow> schema \<Rightarrow> schema" where
  "apply_ddl (Add_Column t c) sc = sc\<lparr>sc_tables := map (\<lambda>(n, cs). (n, if n = t then new_column c cs else cs)) (sc_tables sc)\<rparr>"
| "apply_ddl (Create_Table t cs) sc = (if columns sc t = None then sc\<lparr>sc_tables := sc_tables sc @ [(t, cs)]\<rparr> else sc)"
| "apply_ddl (Create_Index i) sc = (if ix_name i \<in> ix_name ` set (sc_indexes sc) then sc else sc\<lparr>sc_indexes := sc_indexes sc @ [i]\<rparr>)"

record ('s, 'c) pg_ops =
  po_begin :: "'s \<Rightarrow> 'c"
  po_create_all :: "table_decl list \<Rightarrow> 'c \<Rightarrow> unit res \<times> 'c"
  po_execute :: "ddl \<Rightarrow> 'c \<Rightarrow> unit res \<times> 'c"
  po_commit :: "'c \<Rightarrow> unit res \<times> 's"
  po_rollback :: "'c \<Rightarrow> 's"

text \<open>
  The documented behaviour of a transaction: an error fails it; from then on every statement raises, and
  COMMIT acts as ROLLBACK without an error.  After a fault of the commit itself its effect is unknown.
\<close>

locale postgres =
  fixes P :: "('s, 'c) pg_ops"
    and stored :: "'s \<Rightarrow> schema"
    and base :: "'c \<Rightarrow> schema"
    and work :: "'c \<Rightarrow> schema"
    and failed :: "'c \<Rightarrow> bool"
  assumes begin_tx: "base (po_begin P s) = stored s \<and> work (po_begin P s) = stored s \<and> \<not> failed (po_begin P s)"
    and create_ok: "\<not> failed c \<Longrightarrow> po_create_all P tds c = (Inr (), c') \<Longrightarrow>
      base c' = base c \<and> work c' = fold create_missing tds (work c) \<and> \<not> failed c'"
    and create_fault: "po_create_all P tds c = (Inl e, c') \<Longrightarrow> base c' = base c"
    and execute_ok: "\<not> failed c \<Longrightarrow> po_execute P st c = (Inr (), c') \<Longrightarrow>
      base c' = base c \<and> work c' = apply_ddl st (work c) \<and> \<not> failed c'"
    and execute_fault: "po_execute P st c = (Inl e, c') \<Longrightarrow> base c' = base c \<and> failed c'"
    and execute_failed: "failed c \<Longrightarrow> fst (po_execute P st c) \<noteq> Inr ()"
    and commit_ok: "po_commit P c = (Inr (), s) \<Longrightarrow> stored s = (if failed c then base c else work c)"
    and commit_fault: "po_commit P c = (Inl e, s) \<Longrightarrow> stored s = base c \<or> stored s = work c"
    and rollback_tx: "stored (po_rollback P c) = base c"

section \<open>\<open>init_db\<close>\<close>

text \<open>The loop over the statements; \<open>except Exception: pass\<close> drops each result.\<close>

fun run_migrations :: "('s, 'c) pg_ops \<Rightarrow> ddl list \<Rightarrow> 'c \<Rightarrow> 'c" where
  "run_migrations P [] c = c"
| "run_migrations P (st # sts) c = run_migrations P sts (snd (po_execute P st c))"

definition init_db :: "('s, 'c) pg_ops \<Rightarrow> 's \<Rightarrow> unit res \<times> 's" where
  "init_db P s =
     (case po_create_all P metadata (po_begin P s) of
        (Inl e, c) \<Rightarrow> (Inl e, po_rollback P c)
      | (Inr u, c) \<Rightarrow> po_commit P (run_migrations P migrations c))"

text \<open>What the statements answered, which the code never looks at.\<close>

fun migration_results :: "('s, 'c) pg_ops \<Rightarrow> ddl list \<Rightarrow> 'c \<Rightarrow> unit res list" where
  "migration_results P [] c = []"
| "migration_results P (st # sts) c = fst (po_execute P st c) # migration_results P sts (snd (po_execute P st c))"

definition swallowed :: "('s, 'c) pg_ops \<Rightarrow> 's \<Rightarrow> bool" where
  "swallowed P s \<longleftrightarrow> \<not> list_all (\<lambda>r. r = Inr ()) (migration_results P migrations (snd (po_create_all P metadata (po_begin P s))))"

section \<open>Lemmas on the transaction\<close>

context postgres
begin

lemma execute_base: "base (snd (po_execute P st c)) = base c"
proof (cases "po_execute P st c")
  case (Pair r c')
  then show ?thesis
    using execute_ok [of c st c'] execute_fault [of st c _ c'] execute_failed [of c st] by (cases r) auto
qed

lemma run_base: "base (run_migrations P sts c) = base c"
  by (induction sts arbitrary: c) (simp_all add: execute_base)

lemma execute_stays_failed: "failed c \<Longrightarrow> failed (snd (po_execute P st c))"
  using execute_failed [of c st] execute_fault [of st c] by (cases "po_execute P st c"; cases "fst (po_execute P st c)") auto

lemma run_stays_failed: "failed c \<Longrightarrow> failed (run_migrations P sts c)"
  by (induction sts arbitrary: c) (simp_all add: execute_stays_failed)

lemma run_swallowed:
  "\<not> list_all (\<lambda>r. r = Inr ()) (migration_results P sts c) \<Longrightarrow> failed (run_migrations P sts c)"
proof (induction sts arbitrary: c)
  case (Cons st sts)
  obtain r c' where step: "po_execute P st c = (r, c')" by (cases "po_execute P st c")
  show ?case
  proof (cases r)
    case (Inl e)
    then have "failed c'" using execute_fault [of st c e c'] step by simp
    then show ?thesis using run_stays_failed [of c' sts] by (simp add: step)
  qed (use Cons step in simp)
qed simp

lemma run_clean:
  "\<not> failed c \<Longrightarrow> list_all (\<lambda>r. r = Inr ()) (migration_results P sts c) \<Longrightarrow>
   work (run_migrations P sts c) = fold apply_ddl sts (work c) \<and> \<not> failed (run_migrations P sts c)"
proof (induction sts arbitrary: c)
  case (Cons st sts)
  obtain c' where "po_execute P st c = (Inr (), c')"
    using Cons.prems(2) by (cases "po_execute P st c") simp
  with Cons execute_ok [of c st c'] show ?case by simp
qed simp

lemma init_db_outcome:
  assumes "init_db P s = (Inr (), s')"
  shows "stored s' = (if swallowed P s then stored s
    else fold apply_ddl migrations (fold create_missing metadata (stored s)))"
proof -
  obtain c where create: "po_create_all P metadata (po_begin P s) = (Inr (), c)"
    and commit: "po_commit P (run_migrations P migrations c) = (Inr (), s')"
    using assms by (auto simp: init_db_def split: prod.splits sum.splits)
  have c: "base c = stored s" "work c = fold create_missing metadata (stored s)" "\<not> failed c"
    using create_ok [OF _ create] begin_tx [of s] by simp_all
  show ?thesis
    using commit_ok [OF commit] run_swallowed [of migrations c] run_clean [OF c(3), of migrations] c
    by (auto simp: swallowed_def create run_base)
qed

text \<open>When \<open>init_db\<close> raises, the schema is the old one, unless it was the commit that raised.\<close>

lemma init_db_raises:
  assumes "init_db P s = (Inl e, s')" and "fst (po_create_all P metadata (po_begin P s)) \<noteq> Inr ()"
  shows "stored s' = stored s"
proof -
  obtain c where "po_create_all P metadata (po_begin P s) = (Inl e, c)" "s' = po_rollback P c"
    using assms by (auto simp: init_db_def split: prod.splits sum.splits)
  then show ?thesis
    using create_fault [of metadata "po_begin P s" e c] begin_tx [of s] rollback_tx [of c] by simp
qed

end

section \<open>Lemmas on schemas\<close>

lemma columns_create:
  "columns (create_missing td sc) t =
    (case columns sc t of None \<Rightarrow> if t = td_name td then Some (td_columns td) else None | Some cs \<Rightarrow> Some cs)"
  by (auto simp: create_missing_def columns_def map_add_def split: option.split)

lemma columns_create_all:
  "columns (fold create_missing tds sc) t =
    (case columns sc t of None \<Rightarrow> map_of (map (\<lambda>td. (td_name td, td_columns td)) tds) t | Some cs \<Rightarrow> Some cs)"
  by (induction tds arbitrary: sc) (auto simp: columns_create split: option.split)

lemma columns_add:
  "columns (apply_ddl (Add_Column t' c) sc) t = map_option (\<lambda>cs. if t = t' then new_column c cs else cs) (columns sc t)"
proof -
  have "map_of (map (\<lambda>(n, cs). (n, if n = t' then new_column c cs else cs)) rows) t =
      map_option (\<lambda>cs. if t = t' then new_column c cs else cs) (map_of rows t)" for rows
    by (induction rows) auto
  then show ?thesis by (simp add: columns_def)
qed

fun added_to :: "string \<Rightarrow> ddl list \<Rightarrow> column list" where
  "added_to t [] = []"
| "added_to t (Add_Column t' c # sts) = (if t' = t then c # added_to t sts else added_to t sts)"
| "added_to t (st # sts) = added_to t sts"

fun creates_only :: "(string \<Rightarrow> bool) \<Rightarrow> ddl list \<Rightarrow> bool" where
  "creates_only ex [] = True"
| "creates_only ex (Create_Table t cs # sts) = (ex t \<and> creates_only ex sts)"
| "creates_only ex (st # sts) = creates_only ex sts"

lemma columns_apply_mono: "columns sc t \<noteq> None \<Longrightarrow> columns (apply_ddl st sc) t \<noteq> None"
proof (cases st)
  case (Add_Column t' c)
  then show "columns sc t \<noteq> None \<Longrightarrow> ?thesis" by (simp only: columns_add) simp
qed (auto simp: columns_def)

lemma creates_only_mono: "creates_only ex sts \<Longrightarrow> (\<And>t. ex t \<Longrightarrow> ex' t) \<Longrightarrow> creates_only ex' sts"
  by (induction ex sts rule: creates_only.induct) auto

lemma columns_migrations:
  "creates_only (\<lambda>t. columns sc t \<noteq> None) sts \<Longrightarrow>
   columns (fold apply_ddl sts sc) t = map_option (fold new_column (added_to t sts)) (columns sc t)"
proof (induction sts arbitrary: sc)
  case (Cons st sts)
  have "creates_only (\<lambda>t. columns sc t \<noteq> None) sts"
    using Cons.prems by (cases st) auto
  then have more: "creates_only (\<lambda>t. columns (apply_ddl st sc) t \<noteq> None) sts"
    by (rule creates_only_mono) (rule columns_apply_mono)
  show ?case
  proof (cases st)
    case (Add_Column t' c)
    then show ?thesis
      using Cons.IH [OF more] by (cases "columns sc t") (auto simp: columns_add simp del: apply_ddl.simps)
  qed (use Cons.prems Cons.IH [OF more] in \<open>auto simp: columns_def\<close>)
qed (simp add: option.map_id)

lemma fold_new_column:
  "distinct (map co_name cs) \<Longrightarrow> fold new_column cs cols = cols @ filter (\<lambda>c. co_name c \<notin> co_name ` set cols) cs"
proof (induction cs arbitrary: cols)
  case (Cons c cs)
  then have "co_name x \<noteq> co_name c" if "x \<in> set cs" for x using that by (force simp: image_iff)
  with Cons show ?case by (auto simp: new_column_def intro!: filter_cong)
qed simp

lemmas column_defs = key_column_def now_column_def col_def nullable_def primary_def default_to_def refers_to_def cascades_with_def

lemmas table_defs = metadata_def users_table_def workspaces_table_def memberships_table_def endpoints_table_def
  routes_table_def events_table_def attempts_table_def outbox_table_def

text \<open>What the migrations would add is declared for a new table already, and the table they create is the declared one.\<close>

lemma added_names:
  "map co_name (added_to t migrations) =
    (if t = ''routes'' then [''filter_expression''] else if t = ''events'' then [''request_headers'', ''status'', ''retry_at'']
     else if t = ''endpoints'' then [''workspace_id'', ''request_body_schema''] else [])"
  by (simp add: migrations_def column_defs)

lemma added_distinct: "distinct (map co_name (added_to t migrations))"
  by (simp only: added_names) simp

lemma added_declared:
  assumes "td \<in> set metadata" "c \<in> set (added_to (td_name td) migrations)"
  shows "co_name c \<in> co_name ` set (td_columns td)"
proof -
  have "co_name c \<in> set (map co_name (added_to (td_name td) migrations))" using assms(2) by simp
  moreover have "set (map co_name (added_to (td_name td) migrations)) \<subseteq> set (map co_name (td_columns td))"
  proof (cases "td = routes_table \<or> td = events_table \<or> td = endpoints_table")
    case True
    then show ?thesis
      unfolding added_names by (auto simp: routes_table_def events_table_def endpoints_table_def column_defs)
  next
    case False
    then have "td_name td \<notin> {''routes'', ''events'', ''endpoints''}"
      using assms(1) by (auto simp: metadata_def users_table_def workspaces_table_def memberships_table_def
          attempts_table_def outbox_table_def)
    then show ?thesis unfolding added_names by simp
  qed
  ultimately show ?thesis by auto
qed

lemma migrated_outbox: "Create_Table (td_name outbox_table) (td_columns outbox_table) \<in> set migrations"
  by (simp add: outbox_table_def migrations_def column_defs)

text \<open>The workspace column of an old endpoints table comes without NOT NULL and without the cascade the model declares.\<close>

lemma workspace_column_weaker:
  "\<exists>c \<in> set (added_to ''endpoints'' migrations). \<exists>c' \<in> set (td_columns endpoints_table).
     co_name c = co_name c' \<and> \<not> co_not_null c \<and> co_not_null c' \<and>
     co_refers c = Some (''workspaces'', False) \<and> co_refers c' = Some (''workspaces'', True)"
  by (simp add: endpoints_table_def migrations_def column_defs)

lemma map_of_metadata:
  "map_of (map (\<lambda>td. (td_name td, td_columns td)) tds) t = map_option td_columns (find (\<lambda>td. td_name td = t) tds)"
  by (induction tds) auto

lemma migrated_columns:
  "columns (fold apply_ddl migrations (fold create_missing metadata sc)) t =
    (case columns sc t of
       None \<Rightarrow> map_option td_columns (find (\<lambda>td. td_name td = t) metadata)
     | Some cs \<Rightarrow> Some (cs @ filter (\<lambda>c. co_name c \<notin> co_name ` set cs) (added_to t migrations)))"
proof -
  let ?sc = "fold create_missing metadata sc"
  have ex: "creates_only (\<lambda>t. columns ?sc t \<noteq> None) migrations"
    unfolding columns_create_all by (simp add: migrations_def table_defs split: option.split)
  have "columns (fold apply_ddl migrations ?sc) t =
      map_option (\<lambda>cs. cs @ filter (\<lambda>c. co_name c \<notin> co_name ` set cs) (added_to t migrations)) (columns ?sc t)"
    unfolding columns_migrations [OF ex] by (cases "columns ?sc t") (simp_all add: fold_new_column [OF added_distinct])
  moreover have "filter (\<lambda>c. co_name c \<notin> co_name ` set (td_columns td)) (added_to t migrations) = []"
    if "find (\<lambda>td. td_name td = t) metadata = Some td" for td
    using that added_declared [of td] by (auto simp: find_Some_iff filter_empty_conv)
  ultimately show ?thesis
    by (cases "columns sc t"; cases "find (\<lambda>td. td_name td = t) metadata")
      (simp_all add: columns_create_all map_of_metadata)
qed

section \<open>A reference server\<close>

text \<open>A schema and the statements the server refuses, for lack of a privilege, say.\<close>

record pg_server =
  pg_schema :: schema
  pg_refused :: "ddl list"

record pg_conn =
  pc_server :: pg_server
  pc_work :: schema
  pc_failed :: bool

definition ref_pg :: "(pg_server, pg_conn) pg_ops" where
  "ref_pg = \<lparr>
     po_begin = (\<lambda>s. \<lparr>pc_server = s, pc_work = pg_schema s, pc_failed = False\<rparr>),
     po_create_all = (\<lambda>tds c. (Inr (), c\<lparr>pc_work := fold create_missing tds (pc_work c)\<rparr>)),
     po_execute = (\<lambda>st c.
       if pc_failed c then (Inl (OtherError ''InFailedSQLTransactionError'' ''current transaction is aborted''), c)
       else if st \<in> set (pg_refused (pc_server c))
       then (Inl (OtherError ''InsufficientPrivilegeError'' ''permission denied''), c\<lparr>pc_failed := True\<rparr>)
       else (Inr (), c\<lparr>pc_work := apply_ddl st (pc_work c)\<rparr>)),
     po_commit = (\<lambda>c. (Inr (), if pc_failed c then pc_server c else (pc_server c)\<lparr>pg_schema := pc_work c\<rparr>)),
     po_rollback = (\<lambda>c. pc_server c)\<rparr>"

interpretation ref_pg: postgres ref_pg pg_schema "\<lambda>c. pg_schema (pc_server c)" pc_work pc_failed
  by unfold_locales (auto simp: ref_pg_def split: if_splits)

section \<open>Properties\<close>

text \<open>
  C30: the schema after a start.  When \<open>init_db\<close> returns, either every migration was executed; then a
  table that did not exist has exactly its declared columns, and a table that did has its old ones and those
  added columns it lacked, in the order of the statements.  Or one of them raised; then nothing at all
  has changed, the creation of the tables included, although \<open>init_db\<close> returned without an error.
\<close>
theorem init_db_all_or_nothing:
  assumes "postgres P stored base work failed" and "init_db P s = (Inr (), s')"
  shows "if swallowed P s then stored s' = stored s
    else \<forall>t. columns (stored s') t =
      (case columns (stored s) t of
         None \<Rightarrow> map_option td_columns (find (\<lambda>td. td_name td = t) metadata)
       | Some cs \<Rightarrow> Some (cs @ filter (\<lambda>c. co_name c \<notin> co_name ` set cs) (added_to t migrations)))"
  using postgres.init_db_outcome [OF assms] migrated_columns [of "stored s"] by simp

section \<open>Closed examples\<close>

definition ex_server :: pg_server where
  "ex_server = \<lparr>pg_schema = \<lparr>sc_tables = [], sc_indexes = []\<rparr>, pg_refused = [hd migrations]\<rparr>"

lemma ref_init: "\<exists>s'. init_db ref_pg s = (Inr (), s')"
  by (simp add: init_db_def ref_pg_def)

theorem init_db_all_or_nothing_witness:
  "\<exists>s'. init_db ref_pg ex_server = (Inr (), s') \<and> pg_schema s' = pg_schema ex_server"
proof -
  obtain s' where s': "init_db ref_pg ex_server = (Inr (), s')" using ref_init by blast
  have "swallowed ref_pg ex_server"
    by (simp add: swallowed_def ref_pg_def ex_server_def migrations_def)
  then show ?thesis
    using init_db_all_or_nothing [OF ref_pg.postgres_axioms s'] s' by simp
qed

end
