(* ===== verification/App.thy ===== *)
theory App
  imports Database Url_Security Redis_Store Kafka
begin

text \<open>
  The application object of \<open>app/main.py\<close>: its start-up and shutdown, and what it tells the CORS
  middleware.  The middleware itself is not part of the sources.
\<close>

definition start_app :: "settings \<Rightarrow> ('d, 'c) pg_ops \<Rightarrow> 's \<Rightarrow> 'k \<Rightarrow> exc option \<Rightarrow> exc option \<Rightarrow> 'd \<Rightarrow>
    ('s option \<times> 'k option) res \<times> 'd" where
  "start_app cfg P redis_client kafka_client start_fault stop_fault d =
     (case validate_production_settings cfg of
        Inl e \<Rightarrow> (Inl e, d)
      | Inr u \<Rightarrow>
          (case init_db P d of
             (Inl e, d') \<Rightarrow> (Inl e, d')
           | (Inr v, d') \<Rightarrow> (Inr (init_redis redis_client None, init_kafka kafka_client start_fault stop_fault None), d')))"

text \<open>An exception of closing Redis leaves the engine undisposed and reaches the server.\<close>

definition stop_app :: "exc option \<Rightarrow> exc option \<Rightarrow> 's option \<times> 'k option \<Rightarrow> unit res \<times> 's option \<times> 'k option" where
  "stop_app kafka_fault redis_fault handles =
     (let kafka' = close_kafka kafka_fault (snd handles);
          (r, redis') = close_redis redis_fault (fst handles)
      in (r, redis', kafka'))"

definition cors_origins :: "settings \<Rightarrow> string list" where
  "cors_origins cfg =
     (let origins = filter (\<lambda>w. w \<noteq> []) (map (py_strip is_space) (py_split (CHR '','') (cors_allowed_origins cfg)))
      in if origins = [] then [''http://localhost:5173''] else origins)"

definition cors_headers :: "string list" where
  "cors_headers = [''Authorization'', ''Content-Type'', ''X-Hub-Signature-256'', ''Idempotency-Key'']"

section \<open>Lemmas\<close>

lemma start_app_ok:
  "start_app cfg P rc kc sf tf d = (Inr h, d') \<Longrightarrow> validate_production_settings cfg = Inr () \<and> init_db P d = (Inr (), d') \<and>
     fst h = Some rc \<and> snd h = (if sf = None then Some kc else None)"
  by (auto simp: start_app_def init_redis_def init_kafka_handle split: sum.splits prod.splits)

lemma cors_origins_nonempty: "cors_origins cfg \<noteq> [] \<and> [] \<notin> set (cors_origins cfg)"
  by (auto simp: cors_origins_def Let_def)

text \<open>The header of the gateway's idempotency key is not among those a browser may send.\<close>

lemma idempotency_header_not_allowed: "''x-idempotency-key'' \<notin> set (map py_lower cors_headers)"
  by (simp add: cors_headers_def py_lower_def lower_char_def)

section \<open>Properties\<close>

text \<open>
  A production application is strict.  If the application starts with an environment called prod or
  production, its two secrets have at least 32 characters, Redis is connected, and from then on no route
  URL passes the check unless its scheme is https and its host is not a refused one.
\<close>
theorem started_in_production:
  assumes "start_app cfg P rc kc start_fault stop_fault d = (Inr (redis, kafka), d')" and "is_production cfg"
    and "validate_delivery_url cfg url = Inr u"
  shows "32 \<le> length (jwt_secret_key cfg) \<and> 32 \<le> length (password_pepper cfg) \<and> redis = Some rc \<and>
    (\<exists>p h. urlparse url = Inr p \<and> py_lower (scheme p) = ''https'' \<and> hostname p = Some h \<and> h \<noteq> [] \<and> \<not> is_blocked_host h)"
proof -
  have start: "validate_production_settings cfg = Inr ()" "redis = Some rc"
    using start_app_ok [OF assms(1)] by simp_all
  then have "\<not> allow_insecure_delivery_urls cfg"
    using assms(2) by (simp add: validate_production_settings_ok)
  then show ?thesis
    using start assms(3) by (auto simp: validate_production_settings_ok validate_delivery_url_iff)
qed

section \<open>Closed examples\<close>

definition ex_production :: settings where
  "ex_production = default_settings\<lparr>environment := ''prod'', jwt_secret_key := replicate 32 CHR ''k'',
     password_pepper := replicate 40 CHR ''p''\<rparr>"

theorem started_in_production_witness:
  "\<exists>p. urlparse (''https://'' @ dotted 8 8 8 8 @ ''/'' @ ''hook'') = Inr p \<and> py_lower (scheme p) = ''https''"
proof -
  obtain s' where "init_db ref_pg ex_server = (Inr (), s')" using ref_init by blast
  then have start: "start_app ex_production ref_pg Map.empty empty_broker None None ex_server =
      (Inr (Some Map.empty, Some empty_broker), s')"
    by (simp add: start_app_def validate_production_settings_def ex_production_def is_production_def py_lower_def lower_char_def
        default_settings_def init_redis_def init_kafka_def)
  have prod: "is_production ex_production"
    by (simp add: ex_production_def is_production_def py_lower_def lower_char_def)
  have url: "validate_delivery_url ex_production (''https://'' @ dotted 8 8 8 8 @ ''/'' @ ''hook'') =
      Inr (''https://'' @ dotted 8 8 8 8 @ ''/'' @ ''hook'')"
    by (subst quad_decision) (simp_all add: blocked_octets_def)
  show ?thesis
    using started_in_production [OF start prod url] by blast
qed

end
