(* ===== verification/Worker_Runs.thy ===== *)
theory Worker_Runs
  imports Transform_Worker
begin

text \<open>
  The processes around the two consumers, \<open>run\<close> of \<open>workers/transform_worker.py\<close> and
  \<open>workers/delivery_worker.py\<close>: what is started and stopped, in which order and what a fault leaves open;
  and the loop of the transform worker over the texts of its topic, with its offsets over any number of
  restarts.
\<close>

section \<open>Starting and stopping\<close>

record run_faults =
  wf_init_db :: "exc option"
  wf_consumer_start :: "exc option"
  wf_producer_start :: "exc option"
  wf_consumer_stop :: "exc option"
  wf_producer_stop :: "exc option"
  wf_redis_close :: "exc option"

text \<open>What is running: a consumer that is a member of its group, a producer, the Redis handle.\<close>

record 's handles =
  ha_consumer :: bool
  ha_producer :: bool
  ha_redis :: "'s option"

definition all_closed :: "'s handles" where
  "all_closed = \<lparr>ha_consumer = False, ha_producer = False, ha_redis = None\<rparr>"

definition start_transform :: "run_faults \<Rightarrow> unit res \<times> unit handles" where
  "start_transform faults =
     (case wf_init_db faults of
        Some e \<Rightarrow> (Inl e, all_closed)
      | None \<Rightarrow>
          (case wf_consumer_start faults of
             Some e \<Rightarrow> (Inl e, all_closed)
           | None \<Rightarrow>
               (case wf_producer_start faults of
                  Some e \<Rightarrow> (Inl e, all_closed\<lparr>ha_consumer := True\<rparr>)
                | None \<Rightarrow> (Inr (), all_closed\<lparr>ha_consumer := True, ha_producer := True\<rparr>))))"

text \<open>The \<open>finally\<close> block: an exception in it replaces the one that was under way and skips the rest.\<close>

definition stop_transform :: "run_faults \<Rightarrow> unit res \<Rightarrow> 's handles \<Rightarrow> unit res \<times> 's handles" where
  "stop_transform faults result h =
     (case wf_consumer_stop faults of
        Some e \<Rightarrow> (Inl e, h)
      | None \<Rightarrow>
          (case wf_producer_stop faults of
             Some e \<Rightarrow> (Inl e, h\<lparr>ha_consumer := False\<rparr>)
           | None \<Rightarrow> (result, h\<lparr>ha_consumer := False, ha_producer := False\<rparr>)))"

definition start_delivery :: "run_faults \<Rightarrow> 's \<Rightarrow> unit res \<times> 's handles" where
  "start_delivery faults client =
     (case wf_init_db faults of
        Some e \<Rightarrow> (Inl e, all_closed)
      | None \<Rightarrow>
          (let h = all_closed\<lparr>ha_redis := init_redis client None\<rparr>
           in case wf_consumer_start faults of
                Some e \<Rightarrow> (Inl e, h)
              | None \<Rightarrow> (Inr (), h\<lparr>ha_consumer := True\<rparr>)))"

definition stop_delivery :: "run_faults \<Rightarrow> unit res \<Rightarrow> 's handles \<Rightarrow> unit res \<times> 's handles" where
  "stop_delivery faults result h =
     (case wf_consumer_stop faults of
        Some e \<Rightarrow> (Inl e, h)
      | None \<Rightarrow>
          (case close_redis (wf_redis_close faults) (ha_redis h) of
             (Inl e, redis) \<Rightarrow> (Inl e, h\<lparr>ha_consumer := False, ha_redis := redis\<rparr>)
           | (Inr u, redis) \<Rightarrow> (result, h\<lparr>ha_consumer := False, ha_redis := redis\<rparr>)))"

section \<open>The loop of the transform worker\<close>

datatype loop_end = Waiting | Stopped | Raised exc

text \<open>
  The texts from the committed offset on, each with whether the stop signal has come and whether the commit
  after it raises.  The result is why the loop ended, the position, the committed offset and the broker.
\<close>

fun transform_loop :: "(string \<Rightarrow> string) \<Rightarrow> transform_env \<Rightarrow> 'k sender \<Rightarrow> db \<Rightarrow> (string \<times> bool \<times> bool) list \<Rightarrow>
    nat \<Rightarrow> nat \<Rightarrow> 'k \<Rightarrow> loop_end \<times> nat \<times> nat \<times> 'k" where
  "transform_loop fl E send d [] position offset k = (Waiting, position, offset, k)"
| "transform_loop fl E send d ((raw, stop, commit_raises) # rest) position offset k =
     (case json_loads fl raw of
        Inl e \<Rightarrow> (Raised e, position, offset, k)
      | Inr v \<Rightarrow>
          if stop then (Stopped, position, offset, k)
          else (case receive fl raw of
                  Inl e \<Rightarrow> (Raised e, position, offset, k)
                | Inr data \<Rightarrow>
                    transform_loop fl E send d rest (position + 1) (if commit_raises then offset else position + 1)
                      (handle_message E send d data k)))"

text \<open>\<open>None\<close>: the process waits for the next message.\<close>

definition run_transform :: "(string \<Rightarrow> string) \<Rightarrow> transform_env \<Rightarrow> 'k sender \<Rightarrow> db \<Rightarrow> run_faults \<Rightarrow>
    (string \<times> bool \<times> bool) list \<Rightarrow> nat \<Rightarrow> 'k \<Rightarrow> unit res option \<times> unit handles \<times> nat \<times> nat \<times> 'k" where
  "run_transform fl E send d faults messages offset k =
     (case start_transform faults of
        (Inl e, h) \<Rightarrow> (Some (Inl e), h, offset, offset, k)
      | (Inr u, h) \<Rightarrow>
          (case transform_loop fl E send d messages offset offset k of
             (Waiting, p, c, k') \<Rightarrow> (None, h, p, c, k')
           | (Stopped, p, c, k') \<Rightarrow>
               (let (r, h') = stop_transform faults (Inr ()) h in (Some r, h', p, c, k'))
           | (Raised e, p, c, k') \<Rightarrow>
               (let (r, h') = stop_transform faults (Inl e) h in (Some r, h', p, c, k'))))"

text \<open>
  Any number of runs of the process on one topic, each from the offset that the runs before it committed.
  The last component lists the offsets that were handled, with the database at that time.
\<close>

record restart_input =
  ri_db :: db
  ri_faults :: run_faults
  ri_flags :: "(bool \<times> bool) list"

fun restarts :: "(string \<Rightarrow> string) \<Rightarrow> transform_env \<Rightarrow> 'k sender \<Rightarrow> string list \<Rightarrow> restart_input list \<Rightarrow> nat \<Rightarrow> 'k \<Rightarrow>
    nat \<times> 'k \<times> (db \<times> nat) list" where
  "restarts fl E send topic [] offset k = (offset, k, [])"
| "restarts fl E send topic (r # rs) offset k =
     (case run_transform fl E send (ri_db r) (ri_faults r) (zip (drop offset topic) (ri_flags r)) offset k of
        (result, h, p, c, k') \<Rightarrow>
          (case restarts fl E send topic rs c k' of
             (c', k'', later) \<Rightarrow> (c', k'', map (Pair (ri_db r)) [offset..<p] @ later)))"

section \<open>Lemmas\<close>

text \<open>On texts that are objects the loop is the loop over the parsed messages.\<close>

lemma receive_parses: "receive fl raw = Inr data \<Longrightarrow> json_loads fl raw = Inr (JObj data)"
  by (cases "json_loads fl raw") (auto simp: receive_def split: json.splits)

lemma transform_loop_consume:
  assumes "list_all2 (\<lambda>(raw, flags) (data, flags'). receive fl raw = Inr data \<and> flags = flags') texts messages"
  shows "snd (snd (transform_loop fl E send d texts position offset k)) = consume E send d messages position offset k"
  using assms
proof (induction texts messages arbitrary: position offset k rule: list_all2_induct)
  case (Cons x xs y ys)
  obtain raw stop raises where x: "x = (raw, stop, raises)" by (cases x)
  obtain data where y: "y = (data, stop, raises)" and got: "receive fl raw = Inr data" using Cons x by (cases y) auto
  show ?case using Cons by (simp add: x y got receive_parses [OF got])
qed simp

definition handle_text :: "(string \<Rightarrow> string) \<Rightarrow> transform_env \<Rightarrow> 'k sender \<Rightarrow> string list \<Rightarrow> db \<times> nat \<Rightarrow> 'k \<Rightarrow> 'k" where
  "handle_text fl E send topic x k =
     (case receive fl (topic ! snd x) of Inl e \<Rightarrow> k | Inr data \<Rightarrow> handle_message E send (fst x) data k)"

lemma loop_account:
  assumes "transform_loop fl E send d texts position offset k = (x, p, c, k')"
    and "map fst texts = take (length texts) (drop position topic)" and "offset \<le> position"
  shows "position \<le> p \<and> offset \<le> c \<and> c \<le> p \<and> k' = fold (handle_text fl E send topic) (map (Pair d) [position..<p]) k"
  using assms
proof (induction texts arbitrary: position offset k)
  case Nil
  then show ?case by simp
next
  case (Cons t texts)
  obtain raw stop commit_raises where t: "t = (raw, stop, commit_raises)" by (cases t)
  have pos: "position < length topic"
    using Cons.prems(2) by (cases "position < length topic") auto
  then have raw: "raw = topic ! position" and rest: "map fst texts = take (length texts) (drop (Suc position) topic)"
    using Cons.prems(2) t by (auto simp: Cons_nth_drop_Suc [symmetric])
  show ?case
  proof (cases "receive fl raw")
    case (Inl e)
    then show ?thesis using Cons.prems(1,3) t by (auto split: sum.splits if_splits)
  next
    case (Inr data)
    note parsed = receive_parses [OF Inr]
    show ?thesis
    proof (cases stop)
      case True
      then show ?thesis using Cons.prems(1,3) t parsed by auto
    next
      case False
      let ?offset = "if commit_raises then offset else position + 1"
      have run: "transform_loop fl E send d texts (position + 1) ?offset (handle_message E send d data k) = (x, p, c, k')"
        using Cons.prems(1) t parsed Inr False by simp
      have "position + 1 \<le> p \<and> ?offset \<le> c \<and> c \<le> p \<and>
          k' = fold (handle_text fl E send topic) (map (Pair d) [position + 1..<p]) (handle_message E send d data k)"
        using rest Cons.prems(3) by (intro Cons.IH [OF run]) auto
      moreover have "handle_text fl E send topic (d, position) k = handle_message E send d data k"
        using Inr raw by (simp add: handle_text_def)
      ultimately show ?thesis
        using Cons.prems(3) by (auto simp: upt_conv_Cons split: if_splits)
    qed
  qed
qed

lemma run_account:
  assumes "run_transform fl E send d faults (zip (drop offset topic) flags) offset k = (r, h, p, c, k')"
  shows "offset \<le> c \<and> c \<le> p \<and> k' = fold (handle_text fl E send topic) (map (Pair d) [offset..<p]) k"
proof -
  obtain s h0 where start: "start_transform faults = (s, h0)" by (cases "start_transform faults")
  obtain x p1 c1 k1 where loop: "transform_loop fl E send d (zip (drop offset topic) flags) offset offset k = (x, p1, c1, k1)"
    by (metis prod_cases4)
  have "map fst (zip (drop offset topic) flags) = take (length (zip (drop offset topic) flags)) (drop offset topic)"
    by (simp add: map_fst_zip_take min.commute)
  from loop_account [OF loop this] have acc: "offset \<le> p1 \<and> offset \<le> c1 \<and> c1 \<le> p1 \<and>
      k1 = fold (handle_text fl E send topic) (map (Pair d) [offset..<p1]) k" by simp
  show ?thesis
  proof (cases s)
    case (Inl e)
    then show ?thesis using assms start by (simp add: run_transform_def)
  next
    case (Inr u)
    then have "p = p1 \<and> c = c1 \<and> k' = k1"
      using assms start loop by (auto simp: run_transform_def split: loop_end.splits prod.splits)
    then show ?thesis using acc by simp
  qed
qed

lemma restarts_account:
  "restarts fl E send topic rs c k = (c', k', history) \<Longrightarrow>
   c \<le> c' \<and> {c..<c'} \<subseteq> snd ` set history \<and> k' = fold (handle_text fl E send topic) history k"
proof (induction rs arbitrary: c k c' k' history)
  case (Cons r rs)
  obtain result h p c1 k1 where run:
    "run_transform fl E send (ri_db r) (ri_faults r) (zip (drop c topic) (ri_flags r)) c k = (result, h, p, c1, k1)"
    by (metis prod_cases5)
  obtain later where rest: "restarts fl E send topic rs c1 k1 = (c', k', later)"
      and hist: "history = map (Pair (ri_db r)) [c..<p] @ later"
    using Cons.prems run by (auto split: prod.splits)
  note now = run_account [OF run] and then_on = Cons.IH [OF rest]
  have "snd ` set history = {c..<p} \<union> snd ` set later"
    by (auto simp: hist image_Un image_image)
  moreover have "{c..<c'} \<subseteq> {c..<p} \<union> {c1..<c'}"
    using now by auto
  ultimately show ?case
    using now then_on by (simp add: hist) blast
qed simp

section \<open>Properties\<close>

text \<open>
  C18: the transform worker handles every message at least once.  Over any number of runs on a topic, with
  any faults of starting, stopping and committing, stop signals and changes of the database in between: the
  committed offset never goes back; every message below it has been handled; and what the runs did to the
  broker is the handling of the recorded messages one after the other, nothing else.
\<close>
theorem transform_at_least_once:
  assumes "restarts fl E send topic rs c k = (c', k', history)"
  shows "c \<le> c' \<and> (\<forall>j. c \<le> j \<and> j < c' \<longrightarrow> (\<exists>d. (d, j) \<in> set history)) \<and>
    k' = fold (\<lambda>(d, j) k. case receive fl (topic ! j) of Inl e \<Rightarrow> k | Inr data \<Rightarrow> handle_message E send d data k) history k"
proof -
  have "handle_text fl E send topic =
      (\<lambda>(d, j) k. case receive fl (topic ! j) of Inl e \<Rightarrow> k | Inr data \<Rightarrow> handle_message E send d data k)"
    by (simp add: handle_text_def fun_eq_iff split: sum.split)
  with restarts_account [OF assms] show ?thesis by fastforce
qed

text \<open>
  C19: a message that is no object stops the transform worker for good.  If the message at the committed
  offset does not parse, or parses to something that is no object, then no number of restarts gets past it:
  the offset stays, nothing is sent for it or for any message after it; and each run that starts without a
  fault, and is not told to stop, ends with an exception.
\<close>
theorem poison_message_stops_transform:
  assumes "c < length topic" and "receive fl (topic ! c) = Inl e"
  shows "restarts fl E send topic rs c k = (c, k, []) \<and>
    (\<exists>e'. fst (run_transform fl E send d faults (zip (drop c topic) ((False, raises) # flags)) c k) = Some (Inl e'))"
proof -
  have head: "drop c topic = topic ! c # drop (Suc c) topic"
    using assms(1) by (simp add: Cons_nth_drop_Suc)
  have loop: "snd (transform_loop fl E send d (zip (drop c topic) flags) c c k) = (c, c, k)" for d flags
    using assms(2) by (cases flags) (auto simp: head split: sum.split)
  have run: "snd (snd (run_transform fl E send d faults (zip (drop c topic) flags) c k)) = (c, c, k)" for d faults flags
    using loop [of d flags] by (auto simp: run_transform_def split: prod.splits sum.splits loop_end.splits)
  have "restarts fl E send topic rs c k = (c, k, [])"
  proof (induction rs)
    case (Cons r rs)
    obtain result h where "run_transform fl E send (ri_db r) (ri_faults r) (zip (drop c topic) (ri_flags r)) c k = (result, h, c, c, k)"
      using run [of "ri_db r" "ri_faults r" "ri_flags r"] by (metis prod.collapse)
    with Cons show ?case by simp
  qed simp
  moreover have "\<exists>e'. fst (transform_loop fl E send d (zip (drop c topic) ((False, raises) # flags)) c c k) = Raised e'"
    using assms(2) by (auto simp: head split: sum.split)
  then have "\<exists>e'. fst (run_transform fl E send d faults (zip (drop c topic) ((False, raises) # flags)) c k) = Some (Inl e')"
    by (auto simp: run_transform_def stop_transform_def split: prod.splits sum.splits option.splits)
  ultimately show ?thesis by blast
qed

section \<open>Closed examples\<close>

definition no_faults :: run_faults where
  "no_faults = \<lparr>wf_init_db = None, wf_consumer_start = None, wf_producer_start = None, wf_consumer_stop = None,
     wf_producer_stop = None, wf_redis_close = None\<rparr>"

definition ex_raw_text :: string where
  "ex_raw_text = json_dumps (JObj ex_raw)"

lemma ex_raw_received: "receive fl ex_raw_text = Inr ex_raw"
  by (simp add: receive_def ex_raw_text_def loads_dumps ex_raw_def del: json_dumps.simps)

definition ex_run :: "bool \<Rightarrow> restart_input" where
  "ex_run commit_raises = \<lparr>ri_db = ex_fan_db, ri_faults = no_faults, ri_flags = [(False, commit_raises)]\<rparr>"

text \<open>A commit that raises: the next run handles the message again.\<close>

lemma ex_restarts:
  "restarts no_floats ex_transform steady_send [ex_raw_text] [ex_run True, ex_run False] 0 empty_broker =
     (1, handle_message ex_transform steady_send ex_fan_db ex_raw
           (handle_message ex_transform steady_send ex_fan_db ex_raw empty_broker),
      [(ex_fan_db, 0), (ex_fan_db, 0)])"
  by (simp add: ex_run_def run_transform_def start_transform_def no_faults_def ex_raw_received
      receive_parses [OF ex_raw_received])

theorem transform_at_least_once_witness:
  "\<exists>d. (d, 0) \<in> set (snd (snd (restarts no_floats ex_transform steady_send [ex_raw_text] [ex_run True, ex_run False] 0 empty_broker)))"
  unfolding ex_restarts snd_conv
  using transform_at_least_once [OF ex_restarts, THEN conjunct2, THEN conjunct1, rule_format, of 0] by simp

theorem poison_message_stops_transform_witness:
  "restarts no_floats ex_transform steady_send [''[]'', ex_raw_text] (replicate 5 (ex_run False)) 0 empty_broker = (0, empty_broker, [])"
proof -
  have "receive no_floats ''[]'' = Inl (OtherError ''AttributeError'' ''object has no attribute get'')"
    by code_simp
  then have poison: "receive no_floats ([''[]'', ex_raw_text] ! 0) = Inl (OtherError ''AttributeError'' ''object has no attribute get'')"
    by simp
  show ?thesis
    by (rule poison_message_stops_transform [OF _ poison, THEN conjunct1]) simp
qed

end
