(* ===== verification/Client_Shell.thy ===== *)
theory Client_Shell
  imports Wire Hmac Data_Model
begin

text \<open>
  The programs that drive a running relay from outside (\<open>chaos/\<close>, the demo scripts, \<open>e2e_test.py\<close>) are
  functions on a world.  What they call of their surroundings is the record \<open>shell\<close>: an HTTP client, the
  container tool, a database connection, the clock, the terminal.  A program that raises leaves the world
  as it is at that moment.  Closing a client or a connection does nothing to the world and is left out, as
  are blank lines and rules of the output; icons and dashes are written with ASCII characters.
\<close>

section \<open>The surroundings\<close>

datatype http_body = NoBody | Raw string | Json json

record http_call =
  hc_method :: string
  hc_url :: string
  hc_headers :: "(string \<times> string) list"
  hc_body :: http_body

record http_reply =
  hp_status :: int
  hp_text :: string

text \<open>
  A call raises when no reply comes.  \<open>sh_docker\<close> gives the exit code and the error output, \<open>sh_fetch\<close> the
  rows of a query with its parameters, identifiers in them as their texts, \<open>sh_hex\<close> a fresh \<open>uuid4().hex\<close>;
  \<open>sh_float\<close> is \<open>repr(float(text))\<close>, \<open>sh_reason\<close> the reason phrase of a status.
\<close>

record 'w shell =
  sh_http :: "http_call \<Rightarrow> 'w \<Rightarrow> http_reply res \<times> 'w"
  sh_docker :: "string list \<Rightarrow> 'w \<Rightarrow> (int \<times> string) res \<times> 'w"
  sh_connect :: "'w \<Rightarrow> unit res \<times> 'w"
  sh_fetch :: "string \<Rightarrow> uuid list \<Rightarrow> 'w \<Rightarrow> dict list res \<times> 'w"
  sh_hex :: "'w \<Rightarrow> string \<times> 'w"
  sh_clock :: "'w \<Rightarrow> time"
  sh_sleep :: "rat \<Rightarrow> 'w \<Rightarrow> 'w"
  sh_print :: "string \<Rightarrow> 'w \<Rightarrow> 'w"
  sh_input :: "string \<Rightarrow> 'w \<Rightarrow> string \<times> 'w"
  sh_float :: "string \<Rightarrow> string"
  sh_reason :: "int \<Rightarrow> string"

section \<open>Programs\<close>

type_synonym ('a, 'w) prog = "'w \<Rightarrow> 'a res \<times> 'w"

definition p_lift :: "'a res \<Rightarrow> ('a, 'w) prog" where
  "p_lift r w = (r, w)"

definition p_return :: "'a \<Rightarrow> ('a, 'w) prog" where
  "p_return x w = (Inr x, w)"

definition p_raise :: "exc \<Rightarrow> ('a, 'w) prog" where
  "p_raise e w = (Inl e, w)"

definition p_bind :: "('a, 'w) prog \<Rightarrow> ('a \<Rightarrow> ('b, 'w) prog) \<Rightarrow> ('b, 'w) prog" where
  "p_bind m f w = (case m w of (Inl e, w') \<Rightarrow> (Inl e, w') | (Inr x, w') \<Rightarrow> f x w')"

definition p_try :: "('a, 'w) prog \<Rightarrow> (exc \<Rightarrow> ('a, 'w) prog) \<Rightarrow> ('a, 'w) prog" where
  "p_try m h w = (case m w of (Inl e, w') \<Rightarrow> h e w' | (Inr x, w') \<Rightarrow> (Inr x, w'))"

fun p_each :: "('a \<Rightarrow> ('b, 'w) prog) \<Rightarrow> 'a list \<Rightarrow> ('b list, 'w) prog" where
  "p_each f [] = p_return []"
| "p_each f (x # xs) = p_bind (f x) (\<lambda>y. p_bind (p_each f xs) (\<lambda>ys. p_return (y # ys)))"

definition p_assert :: "bool \<Rightarrow> string \<Rightarrow> (unit, 'w) prog" where
  "p_assert holds msg = (if holds then p_return () else p_raise (OtherError ''AssertionError'' msg))"

definition p_http :: "'w shell \<Rightarrow> http_call \<Rightarrow> (http_reply, 'w) prog" where
  "p_http S call w = sh_http S call w"

definition p_sleep :: "'w shell \<Rightarrow> rat \<Rightarrow> (unit, 'w) prog" where
  "p_sleep S t w = (Inr (), sh_sleep S t w)"

definition p_clock :: "'w shell \<Rightarrow> (time, 'w) prog" where
  "p_clock S w = (Inr (sh_clock S w), w)"

definition p_hex :: "'w shell \<Rightarrow> (string, 'w) prog" where
  "p_hex S w = (case sh_hex S w of (h, w') \<Rightarrow> (Inr h, w'))"

text \<open>A query: its text, its parameters; \<open>fetchrow\<close> is the first row, if there is one.\<close>

definition p_docker :: "'w shell \<Rightarrow> string list \<Rightarrow> (int \<times> string, 'w) prog" where
  "p_docker S command w = sh_docker S command w"

definition p_connect :: "'w shell \<Rightarrow> (unit, 'w) prog" where
  "p_connect S w = sh_connect S w"

definition p_fetch :: "'w shell \<Rightarrow> string \<Rightarrow> uuid list \<Rightarrow> (dict list, 'w) prog" where
  "p_fetch S query params w = sh_fetch S query params w"

definition p_fetchrow :: "'w shell \<Rightarrow> string \<Rightarrow> uuid list \<Rightarrow> (dict option, 'w) prog" where
  "p_fetchrow S query params =
     p_bind (p_fetch S query params) (\<lambda>rows. p_return (case rows of [] \<Rightarrow> None | row # rest \<Rightarrow> Some row))"

definition p_input :: "'w shell \<Rightarrow> string \<Rightarrow> (string, 'w) prog" where
  "p_input S prompt w = (case sh_input S prompt w of (s, w') \<Rightarrow> (Inr s, w'))"

text \<open>\<open>asyncio.gather\<close>: every call runs, in some order, here that of the list; the first exception is raised.\<close>

fun p_gather :: "('a \<Rightarrow> ('b, 'w) prog) \<Rightarrow> 'a list \<Rightarrow> ('b list, 'w) prog" where
  "p_gather f [] w = (Inr [], w)"
| "p_gather f (x # xs) w =
     (let (r, w1) = f x w; (rs, w2) = p_gather f xs w1
      in (bind_res r (\<lambda>y. bind_res rs (\<lambda>ys. Inr (y # ys))), w2))"

section \<open>Texts\<close>

text \<open>An f-string is the list of its parts; a part may raise.  \<open>str(e)\<close> of an exception, of a parse error empty.\<close>

definition texts :: "string res list \<Rightarrow> string res" where
  "texts parts = foldr (\<lambda>part rest. bind_res part (\<lambda>s. bind_res rest (\<lambda>t. Inr (s @ t)))) parts (Inr [])"

definition shown :: "json res \<Rightarrow> string res" where
  "shown r = bind_res r (\<lambda>v. Inr (py_str v))"

definition exc_text :: "exc \<Rightarrow> string" where
  "exc_text e = (case e of KeyError key \<Rightarrow> repr_str key | _ \<Rightarrow> exc_msg e)"

definition p_print :: "'w shell \<Rightarrow> string res \<Rightarrow> (unit, 'w) prog" where
  "p_print S line w = (case line of Inl e \<Rightarrow> (Inl e, w) | Inr s \<Rightarrow> (Inr (), sh_print S s w))"

definition p_say :: "'w shell \<Rightarrow> string \<Rightarrow> (unit, 'w) prog" where
  "p_say S s = p_print S (Inr s)"

definition p_lines :: "'w shell \<Rightarrow> string list \<Rightarrow> (unit, 'w) prog" where
  "p_lines S ls w = (Inr (), fold (sh_print S) ls w)"

text \<open>\<open>f"{x:.1f}"\<close> and \<open>f"{x:.0f}"\<close> of a number that is not negative: a tie goes to the even digit.\<close>

definition round_even :: "rat \<Rightarrow> int" where
  "round_even x =
     (let n = \<lfloor>x\<rfloor>; rest = x - of_int n
      in if rest < 1/2 \<or> rest = 1/2 \<and> even n then n else n + 1)"

definition fixed0 :: "rat \<Rightarrow> string" where
  "fixed0 x = show_int (round_even x)"

definition fixed1 :: "rat \<Rightarrow> string" where
  "fixed1 x = (let n = round_even (10 * x) in show_int (n div 10) @ ''.'' @ show_int (n mod 10))"

section \<open>Python on parsed replies\<close>

text \<open>\<open>v[key]\<close> and \<open>v[0]\<close>.\<close>

definition item :: "string \<Rightarrow> json \<Rightarrow> json res" where
  "item key v =
     (case v of
        JObj d \<Rightarrow> (case map_of d key of None \<Rightarrow> Inl (KeyError key) | Some x \<Rightarrow> Inr x)
      | JArr xs \<Rightarrow> Inl (TypeError ''list indices must be integers or slices, not str'')
      | JStr s \<Rightarrow> Inl (TypeError ''string indices must be integers, not str'')
      | _ \<Rightarrow> Inl (TypeError ''object is not subscriptable''))"

definition first_item :: "json \<Rightarrow> json res" where
  "first_item v =
     (case v of
        JArr xs \<Rightarrow> (case xs of [] \<Rightarrow> Inl (OtherError ''IndexError'' ''list index out of range'') | x # rest \<Rightarrow> Inr x)
      | JObj d \<Rightarrow> Inl (KeyError ''0'')
      | JStr s \<Rightarrow> (case s of [] \<Rightarrow> Inl (OtherError ''IndexError'' ''string index out of range'') | c # rest \<Rightarrow> Inr (JStr [c]))
      | _ \<Rightarrow> Inl (TypeError ''object is not subscriptable''))"

text \<open>\<open>v.get(key, default)\<close>, \<open>v[:n]\<close>, \<open>v.encode()\<close> and \<open>key in v\<close>.\<close>

definition no_attribute :: "string \<Rightarrow> exc" where
  "no_attribute name = OtherError ''AttributeError'' (''object has no attribute '' @ name)"

definition get_item :: "string \<Rightarrow> json \<Rightarrow> json \<Rightarrow> json res" where
  "get_item key dflt v = (case v of JObj d \<Rightarrow> Inr (dict_get d key dflt) | _ \<Rightarrow> Inl (no_attribute ''get''))"

definition head_of :: "nat \<Rightarrow> json \<Rightarrow> json res" where
  "head_of n v =
     (case v of JStr s \<Rightarrow> Inr (JStr (take n s)) | JArr xs \<Rightarrow> Inr (JArr (take n xs))
      | _ \<Rightarrow> Inl (TypeError ''object is not subscriptable''))"

definition encoded :: "json \<Rightarrow> string res" where
  "encoded v = (case v of JStr s \<Rightarrow> Inr s | _ \<Rightarrow> Inl (no_attribute ''encode''))"

definition has_text :: "string \<Rightarrow> string \<Rightarrow> bool" where
  "has_text part s = list_ex (\<lambda>n. starts_with (drop n s) part) [0..<Suc (length s)]"

definition has_item :: "string \<Rightarrow> json \<Rightarrow> bool res" where
  "has_item key v =
     (case v of
        JObj d \<Rightarrow> Inr (dict_has d key)
      | JArr xs \<Rightarrow> Inr (JStr key \<in> set xs)
      | JStr s \<Rightarrow> Inr (has_text key s)
      | _ \<Rightarrow> Inl (TypeError ''argument is not iterable''))"

definition items_of :: "json \<Rightarrow> json list res" where
  "items_of v =
     (case v of
        JArr xs \<Rightarrow> Inr xs
      | JObj d \<Rightarrow> Inr (map (\<lambda>p. JStr (fst p)) d)
      | JStr s \<Rightarrow> Inr (map (\<lambda>c. JStr [c]) s)
      | _ \<Rightarrow> Inl (TypeError ''object is not iterable''))"

definition py_len :: "json \<Rightarrow> nat res" where
  "py_len v =
     (case items_of v of Inl e \<Rightarrow> Inl (TypeError ''object of this type has no len()'') | Inr xs \<Rightarrow> Inr (length xs))"

definition shown_len :: "json \<Rightarrow> string res" where
  "shown_len v = bind_res (py_len v) (\<lambda>n. Inr (show_nat n))"

fun each_res :: "('a \<Rightarrow> 'b res) \<Rightarrow> 'a list \<Rightarrow> 'b list res" where
  "each_res f [] = Inr []"
| "each_res f (x # xs) = bind_res (f x) (\<lambda>y. bind_res (each_res f xs) (\<lambda>ys. Inr (y # ys)))"

definition reply_json :: "'w shell \<Rightarrow> http_reply \<Rightarrow> json res" where
  "reply_json S r = json_loads (sh_float S) (hp_text r)"

definition p_json :: "'w shell \<Rightarrow> http_reply \<Rightarrow> (json, 'w) prog" where
  "p_json S r = p_lift (reply_json S r)"

definition p_item :: "string \<Rightarrow> json \<Rightarrow> (json, 'w) prog" where
  "p_item key v = p_lift (item key v)"

fun first_where :: "('a \<Rightarrow> bool res) \<Rightarrow> 'a list \<Rightarrow> 'a option res" where
  "first_where f [] = Inr None"
| "first_where f (x # xs) = bind_res (f x) (\<lambda>found. if found then Inr (Some x) else first_where f xs)"

section \<open>Requests\<close>

definition get_call :: "string \<Rightarrow> (string \<times> string) list \<Rightarrow> http_call" where
  "get_call url headers = \<lparr>hc_method = ''GET'', hc_url = url, hc_headers = headers, hc_body = NoBody\<rparr>"

definition json_call :: "string \<Rightarrow> string \<Rightarrow> (string \<times> string) list \<Rightarrow> dict \<Rightarrow> http_call" where
  "json_call verb url headers body = \<lparr>hc_method = verb, hc_url = url, hc_headers = headers, hc_body = Json (JObj body)\<rparr>"

definition post_call :: "string \<Rightarrow> (string \<times> string) list \<Rightarrow> http_body \<Rightarrow> http_call" where
  "post_call url headers body = \<lparr>hc_method = ''POST'', hc_url = url, hc_headers = headers, hc_body = body\<rparr>"

definition bearer :: "json \<Rightarrow> (string \<times> string) list" where
  "bearer token = [(''Authorization'', ''Bearer '' @ py_str token)]"

definition quoted :: "string \<Rightarrow> string" where
  "quoted s = [CHR 0x27] @ s @ [CHR 0x27]"

section \<open>What every client does\<close>

definition sign_payload :: "string \<Rightarrow> string \<Rightarrow> string" where
  "sign_payload secret payload = ''sha256='' @ hmac_sha256 (utf8 secret) payload"

section \<open>Lemmas\<close>

named_theorems prog_defs "the combinators of client programs"

lemmas [prog_defs] = p_lift_def p_return_def p_raise_def p_bind_def p_try_def p_assert_def p_say_def p_print_def

text \<open>A program that can only end with an exception.\<close>

definition p_fails :: "('a, 'w) prog \<Rightarrow> bool" where
  "p_fails m \<longleftrightarrow> (\<forall>w. \<exists>e. fst (m w) = Inl e)"

text \<open>What holds of the results of a program that does not raise.\<close>

definition p_gives :: "('a, 'w) prog \<Rightarrow> ('a \<Rightarrow> bool) \<Rightarrow> bool" where
  "p_gives m Q \<longleftrightarrow> (\<forall>w x. fst (m w) = Inr x \<longrightarrow> Q x)"

lemma fails_raise: "p_fails (p_raise e)"
  by (simp add: p_fails_def p_raise_def)

lemma fails_assert: "\<not> holds \<Longrightarrow> p_fails (p_assert holds msg)"
  by (simp add: p_assert_def fails_raise)

lemma fails_first: "p_fails m \<Longrightarrow> p_fails (p_bind m f)"
  by (auto simp: p_fails_def p_bind_def split: prod.split sum.split) (metis fst_conv sum.distinct(2))

lemma fails_later:
  assumes "p_gives m Q" and "\<And>x. Q x \<Longrightarrow> p_fails (f x)"
  shows "p_fails (p_bind m f)"
  unfolding p_fails_def
proof
  fix w
  obtain r w' where m: "m w = (r, w')" by (cases "m w")
  show "\<exists>e. fst (p_bind m f w) = Inl e"
  proof (cases r)
    case (Inl e)
    then show ?thesis by (simp add: p_bind_def m)
  next
    case (Inr x)
    have "Q x" using assms(1) m Inr unfolding p_gives_def by (metis fst_conv)
    then show ?thesis using assms(2) by (simp add: p_bind_def m Inr p_fails_def)
  qed
qed

lemma fails_any: "(\<And>x. p_fails (f x)) \<Longrightarrow> p_fails (p_bind m f)"
  by (rule fails_later [of m "\<lambda>x. True"]) (simp_all add: p_gives_def)

lemma gives_lift: "p_gives (p_lift r) Q \<longleftrightarrow> (\<forall>x. r = Inr x \<longrightarrow> Q x)"
  by (simp add: p_gives_def p_lift_def)

lemma gives_assert: "p_gives (p_assert holds msg) (\<lambda>u. holds)"
  by (simp add: p_gives_def p_assert_def p_raise_def)

lemma gives_mono: "p_gives m Q \<Longrightarrow> (\<And>x. Q x \<Longrightarrow> R x) \<Longrightarrow> p_gives m R"
  by (auto simp: p_gives_def)

lemma gives_bind: "p_gives m Q \<Longrightarrow> (\<And>x. Q x \<Longrightarrow> p_gives (f x) R) \<Longrightarrow> p_gives (p_bind m f) R"
  unfolding p_gives_def p_bind_def by (auto split: prod.splits sum.splits) (metis fst_conv)

lemma gives_return: "p_gives (p_return x) Q \<longleftrightarrow> Q x"
  by (simp add: p_gives_def p_return_def)

end
