(* ===== verification/Http_App.thy ===== *)
theory Http_App
  imports Client_Shell Gateway
begin

text \<open>
  The HTTP surface of the application as its clients see it: the table of routes that \<open>app/main.py\<close> and the
  decorators of the routers build, how a request finds its handler (the documented behaviour of the
  framework: the first route whose path and method match; a path that matches only with a slash added or
  removed is redirected), and the reply that the gateway's answer becomes.
\<close>

section \<open>Routes\<close>

text \<open>Method, path template and handler, in the order in which \<open>main.py\<close> includes the routers.\<close>

definition gateway_routes :: "(string \<times> string \<times> string) list" where
  "gateway_routes = [(''POST'', ''/hooks/{endpoint_id}'', ''receive_webhook'')]"

definition auth_routes :: "(string \<times> string \<times> string) list" where
  "auth_routes =
     [(''POST'', ''/api/auth/register'', ''register''), (''POST'', ''/api/auth/login'', ''login''),
      (''GET'', ''/api/auth/me'', ''me''), (''POST'', ''/api/auth/logout'', ''logout'')]"

definition workspace_routes_table :: "(string \<times> string \<times> string) list" where
  "workspace_routes_table =
     [(''GET'', ''/api/workspaces/'', ''list_workspaces''),
      (''POST'', ''/api/workspaces/'', ''create_workspace''),
      (''GET'', ''/api/workspaces/{workspace_id}'', ''get_workspace''),
      (''PUT'', ''/api/workspaces/{workspace_id}'', ''update_workspace''),
      (''DELETE'', ''/api/workspaces/{workspace_id}'', ''delete_workspace''),
      (''GET'', ''/api/workspaces/{workspace_id}/members'', ''list_members''),
      (''POST'', ''/api/workspaces/{workspace_id}/members'', ''add_member''),
      (''PUT'', ''/api/workspaces/{workspace_id}/members/{user_id}'', ''update_member_role''),
      (''DELETE'', ''/api/workspaces/{workspace_id}/members/{user_id}'', ''remove_member'')]"

definition endpoint_routes_table :: "(string \<times> string \<times> string) list" where
  "endpoint_routes_table =
     [(''GET'', ''/api/workspaces/{workspace_id}/endpoints'', ''list_endpoints''),
      (''POST'', ''/api/workspaces/{workspace_id}/endpoints'', ''create_endpoint''),
      (''GET'', ''/api/workspaces/{workspace_id}/endpoints/{endpoint_id}'', ''get_endpoint''),
      (''PUT'', ''/api/workspaces/{workspace_id}/endpoints/{endpoint_id}'', ''update_endpoint''),
      (''DELETE'', ''/api/workspaces/{workspace_id}/endpoints/{endpoint_id}'', ''delete_endpoint''),
      (''POST'', ''/api/workspaces/{workspace_id}/endpoints/{endpoint_id}/rotate'', ''rotate_secret''),
      (''GET'', ''/api/workspaces/{workspace_id}/endpoints/{endpoint_id}/routes'', ''list_routes''),
      (''POST'', ''/api/workspaces/{workspace_id}/endpoints/{endpoint_id}/routes'', ''add_route''),
      (''PUT'', ''/api/workspaces/{workspace_id}/routes/{route_id}'', ''update_route''),
      (''DELETE'', ''/api/workspaces/{workspace_id}/routes/{route_id}'', ''delete_route'')]"

definition event_routes_table :: "(string \<times> string \<times> string) list" where
  "event_routes_table =
     [(''GET'', ''/api/workspaces/{workspace_id}/events'', ''list_events''),
      (''GET'', ''/api/workspaces/{workspace_id}/events/{event_id}'', ''get_event''),
      (''GET'', ''/api/workspaces/{workspace_id}/events/{event_id}/attempts'', ''get_event_attempts''),
      (''POST'', ''/api/workspaces/{workspace_id}/events/{event_id}/replay'', ''replay_event''),
      (''GET'', ''/api/workspaces/{workspace_id}/dlq'', ''list_dlq''),
      (''POST'', ''/api/workspaces/{workspace_id}/dlq/{event_id}/discard'', ''discard_dlq_event''),
      (''POST'', ''/api/workspaces/{workspace_id}/dlq/{event_id}/restore'', ''restore_dlq_event'')]"

definition app_routes :: "(string \<times> string \<times> string) list" where
  "app_routes = gateway_routes @ auth_routes @ workspace_routes_table @ endpoint_routes_table @ event_routes_table @
     [(''GET'', ''/health'', ''health'')]"

definition health :: json where
  "health = JObj [(''status'', JStr ''ok'')]"

section \<open>Finding the handler\<close>

datatype resolution = Handler string | Method_Not_Allowed | Redirect string | Not_Found

definition seg_matches :: "string \<Rightarrow> string \<Rightarrow> bool" where
  "seg_matches t s = (if starts_with t ''{'' then s \<noteq> [] else t = s)"

definition path_matches :: "string \<Rightarrow> string \<Rightarrow> bool" where
  "path_matches template path =
     (let ts = py_split CHR ''/'' template; ss = py_split CHR ''/'' path
      in length ts = length ss \<and> list_all2 seg_matches ts ss)"

definition other_slash :: "string \<Rightarrow> string" where
  "other_slash path =
     (if path \<noteq> [] \<and> last path = CHR ''/'' then rev (dropWhile (\<lambda>c. c = CHR ''/'') (rev path)) else path @ ''/'')"

definition resolve_in :: "(string \<times> string \<times> string) list \<Rightarrow> string \<Rightarrow> string \<Rightarrow> resolution" where
  "resolve_in table method path =
     (let here = filter (\<lambda>(m, t, h). path_matches t path) table
      in case find (\<lambda>(m, t, h). m = method) here of
           Some (m, t, h) \<Rightarrow> Handler h
         | None \<Rightarrow>
             if here \<noteq> [] then Method_Not_Allowed
             else if path \<noteq> ''/'' \<and> list_ex (\<lambda>(m, t, h). path_matches t (other_slash path)) table
             then Redirect (other_slash path)
             else Not_Found)"

definition resolve_route :: "string \<Rightarrow> string \<Rightarrow> resolution" where
  "resolve_route = resolve_in app_routes"

text \<open>The path of an absolute URL without query.\<close>

definition url_path :: "string \<Rightarrow> string" where
  "url_path url = (if starts_with url ''http://'' then dropWhile (\<lambda>c. c \<noteq> CHR ''/'') (drop 7 url) else url)"

section \<open>Replies\<close>

text \<open>The reply to an exception: its detail for an \<open>HTTPException\<close>, a 500 for any other.\<close>

definition error_reply :: "exc \<Rightarrow> http_reply" where
  "error_reply e =
     (case e of
        HTTPException code detail \<Rightarrow> \<lparr>hp_status = int code, hp_text = json_dumps (JObj [(''detail'', JStr detail)])\<rparr>
      | _ \<Rightarrow> \<lparr>hp_status = 500, hp_text = ''Internal Server Error''\<rparr>)"

definition not_found_reply :: http_reply where
  "not_found_reply = error_reply (HTTPException 404 ''Not Found'')"

definition hook_answer :: "webhook_answer \<Rightarrow> json" where
  "hook_answer a =
     (case a of
        Accepted i \<Rightarrow> JObj [(''status'', JStr ''accepted''), (''event_id'', JStr (uuid_str i))]
      | Duplicate \<Rightarrow> JObj [(''status'', JStr ''duplicate''), (''event_id'', JNull)])"

definition gateway_reply :: "webhook_answer res \<Rightarrow> http_reply" where
  "gateway_reply r =
     (case r of Inl e \<Rightarrow> error_reply e | Inr a \<Rightarrow> \<lparr>hp_status = 202, hp_text = json_dumps (hook_answer a)\<rparr>)"

text \<open>
  What the gateway may get of a call: the body in any chunks; the framework and the HTTP client may add
  headers, but not the two that the gateway reads.
\<close>

definition carries :: "http_call \<Rightarrow> string \<Rightarrow> webhook_request \<Rightarrow> bool" where
  "carries call body request \<longleftrightarrow>
     concat (wr_chunks request) = body \<and>
     list_all (\<lambda>name. header_get name (wr_headers request) = header_get name (hc_headers call))
       [''x-hub-signature-256'', ''x-idempotency-key'']"

definition hook_call :: "string \<Rightarrow> string \<Rightarrow> string \<Rightarrow> http_call \<Rightarrow> bool" where
  "hook_call base endpoint_id body call \<longleftrightarrow>
     hc_method call = ''POST'' \<and> hc_url call = base @ ''/hooks/'' @ endpoint_id \<and> hc_body call = Raw body"

text \<open>A relay is reached at \<open>base\<close>: a reply to a webhook is the gateway's, in whatever state it is then.\<close>

definition hooks_served :: "'w shell \<Rightarrow> 's gateway_env \<Rightarrow> string \<Rightarrow> bool" where
  "hooks_served S E base \<longleftrightarrow>
     (\<forall>call endpoint_id body w r. hook_call base endpoint_id body call \<longrightarrow> fst (sh_http S call w) = Inr r \<longrightarrow>
        (\<exists>dr request redis d. carries call body request \<and>
           r = gateway_reply (fst (receive_webhook E dr endpoint_id request redis d))))"

section \<open>Lemmas\<close>

lemma reply_of_hook: "hp_status r = 202 \<Longrightarrow> r = \<lparr>hp_status = 202, hp_text = json_dumps (hook_answer a)\<rparr> \<Longrightarrow>
    reply_json S r = Inr (hook_answer a)"
  by (cases a) (simp_all add: reply_json_def hook_answer_def loads_dumps del: json_dumps.simps)

lemma duplicate_needs_key:
  assumes "header_get ''x-idempotency-key'' (wr_headers request) = None"
  shows "fst (receive_webhook E dr endpoint_id request redis d) \<noteq> Inr Duplicate"
  using assms by (auto simp: receive_webhook_def check_duplicate_def split: prod.splits sum.splits)

lemma reply_of_error:
  assumes "hp_status (error_reply e) = 202"
  shows "\<exists>detail. reply_json S (error_reply e) = Inr (JObj [(''detail'', JStr detail)])"
  using assms by (cases e) (simp_all add: error_reply_def reply_json_def loads_dumps del: json_dumps.simps)

text \<open>Without the key that the gateway reads, no reply says \<open>duplicate\<close>.\<close>

lemma reply_not_duplicate:
  assumes "hooks_served S E base" "hook_call base endpoint_id body call" "fst (sh_http S call w) = Inr r"
    and "hp_status r = 202" "header_get ''x-idempotency-key'' (hc_headers call) = None"
  shows "\<exists>v. reply_json S r = Inr v \<and> item ''status'' v \<noteq> Inr (JStr ''duplicate'')"
proof -
  obtain dr request redis d where r: "carries call body request"
      "r = gateway_reply (fst (receive_webhook E dr endpoint_id request redis d))"
    using assms(1,2,3) unfolding hooks_served_def by blast
  let ?x = "fst (receive_webhook E dr endpoint_id request redis d)"
  have "?x \<noteq> Inr Duplicate" by (rule duplicate_needs_key) (use r(1) assms(5) in \<open>simp add: carries_def\<close>)
  then consider e where "?x = Inl e" | i where "?x = Inr (Accepted i)" by (metis sumE webhook_answer.exhaust)
  then show ?thesis
  proof cases
    case 1
    then show ?thesis using reply_of_error [of e S] assms(4) r(2) by (auto simp: gateway_reply_def item_def)
  next
    case 2
    then have "r = \<lparr>hp_status = 202, hp_text = json_dumps (hook_answer (Accepted i))\<rparr>" by (simp add: r(2) gateway_reply_def)
    from reply_of_hook [OF assms(4) this, of S] show ?thesis by (simp add: item_def hook_answer_def)
  qed
qed

text \<open>The signature that every client computes is the one that the gateway accepts.\<close>

lemma signature_accepted: "check_signature E secret (Some (sign_payload secret payload)) payload = Inr ()"
  by (simp add: check_signature_ok sign_payload_def)

end
