(* ===== verification/Client_Example.thy ===== *)
theory Client_Example
  imports Http_App
begin

text \<open>
  A relay to run client programs against: webhooks are answered by the gateway's model, whose only endpoint
  is number 2, the other replies are written down; the world is the list of those to come.
\<close>

section \<open>The relay\<close>

definition ex_secret :: string where
  "ex_secret = replicate 64 CHR ''a''"

definition ex_e2e_db :: db where
  "ex_e2e_db = ex_hook_db\<lparr>endpoints := [ex_endpoint\<lparr>ep_hmac_secret := ex_secret\<rparr>]\<rparr>"

definition ex_arrived :: "http_call \<Rightarrow> string \<Rightarrow> webhook_request" where
  "ex_arrived call body = \<lparr>wr_chunks = [body], wr_client = Some ''192.0.2.1'', wr_headers = hc_headers call\<rparr>"

definition ex_hook :: "http_call \<Rightarrow> string \<Rightarrow> string \<Rightarrow> http_reply" where
  "ex_hook call endpoint_id body =
     gateway_reply (fst (receive_webhook ex_gateway (ex_draw 0 None) endpoint_id (ex_arrived call body) (Some Map.empty) ex_e2e_db))"

definition ex_http :: "string \<Rightarrow> http_call \<Rightarrow> http_reply list \<Rightarrow> http_reply res \<times> http_reply list" where
  "ex_http base call replies =
     (let hooks = base @ ''/hooks/''
      in case (hc_method call = ''POST'' \<and> starts_with (hc_url call) hooks, hc_body call) of
           (True, Raw body) \<Rightarrow> (Inr (ex_hook call (drop (length hooks) (hc_url call)) body), replies)
         | _ \<Rightarrow> (case replies of [] \<Rightarrow> (Inl (OtherError ''ConnectError'' []), []) | r # rest \<Rightarrow> (Inr r, rest)))"

definition ex_shell :: "string \<Rightarrow> http_reply list shell" where
  "ex_shell base =
     \<lparr>sh_http = ex_http base, sh_docker = (\<lambda>args w. (Inr (0, []), w)), sh_connect = (\<lambda>w. (Inr (), w)),
      sh_fetch = (\<lambda>q ps w. (Inr [], w)), sh_hex = (\<lambda>w. (replicate 32 CHR ''0'', w)), sh_clock = (\<lambda>w. 0),
      sh_sleep = (\<lambda>t w. w), sh_print = (\<lambda>s w. w), sh_input = (\<lambda>s w. ([], w)), sh_float = id, sh_reason = (\<lambda>code. [])\<rparr>"

definition canned :: "int \<Rightarrow> json \<Rightarrow> http_reply" where
  "canned code v = \<lparr>hp_status = code, hp_text = json_dumps v\<rparr>"

lemma ex_served: "hooks_served (ex_shell base) ex_gateway base"
  unfolding hooks_served_def hook_call_def
proof (intro allI impI, elim conjE)
  fix call endpoint_id body w r
  assume "hc_method call = ''POST''" "hc_url call = base @ ''/hooks/'' @ endpoint_id" "hc_body call = Raw body"
    and "fst (sh_http (ex_shell base) call w) = Inr r"
  then have "r = ex_hook call endpoint_id body"
    by (simp add: ex_shell_def ex_http_def starts_with_iff)
  moreover have "carries call body (ex_arrived call body)" by (simp add: carries_def ex_arrived_def)
  ultimately show "\<exists>dr request redis d. carries call body request \<and>
      r = gateway_reply (fst (receive_webhook ex_gateway dr endpoint_id request redis d))"
    unfolding ex_hook_def by blast
qed

lemma canned_json: "writable id v \<Longrightarrow> reply_json (ex_shell base) (canned code v) = Inr v"
  by (simp add: reply_json_def canned_def ex_shell_def loads_dumps)

lemma ex_hook_accepted:
  assumes "header_get ''x-hub-signature-256'' (hc_headers call) = Some (sign_payload ex_secret body)"
    and "header_get ''x-idempotency-key'' (hc_headers call) = None" and "int (length body) \<le> 1000"
  shows "ex_hook call (uuid_str 2) body = canned 202 (hook_answer (Accepted 4))"
proof -
  let ?ep = "ex_endpoint\<lparr>ep_hmac_secret := ex_secret\<rparr>"
  let ?rq = "ex_arrived call body"
  have hdr: "header_get ''x-hub-signature-256'' (wr_headers ?rq) = Some (sign_payload ex_secret body)"
      "header_get ''x-idempotency-key'' (wr_headers ?rq) = None"
    using assms(1,2) by (simp_all add: ex_arrived_def)
  have "by_key ep_id 2 (endpoints ex_e2e_db) = Some ?ep"
    by (simp add: by_key_def ex_e2e_db_def ex_endpoint_def)
  then have f: "find_endpoint ex_e2e_db (uuid_str 2) ?rq = Inr ?ep"
    by (simp add: find_endpoint_ok) (simp add: ex_endpoint_def client_ip_allowed_def)
  have b: "read_limited_body (ge_cfg ex_gateway) ?rq = Inr body"
    using assms(3) by (simp add: read_limited_body_def ex_gateway_def default_settings_def ex_arrived_def)
  have a: "admit ex_gateway (ex_draw 0 None) (uuid_str 2) ?rq (Some Map.empty) ex_e2e_db = (Inr (?ep, JObj []), Some Map.empty)"
    by (simp add: admit_def f b check_rate_def hdr signature_accepted)
      (simp add: ex_endpoint_def check_schema_def parse_payload_def ex_gateway_def signature_accepted)
  obtain d where "store_event (ge_cfg ex_gateway) (ex_draw 0 None) ?ep None (JObj []) (wr_headers ?rq) ex_e2e_db = Inr d"
    by (simp add: store_event_def commit_def fits_def integrity_def ex_hook_db_def ex_e2e_db_def empty_db_def keyed_def refers_def
        fits_workspace_def fits_endpoint_def fits_event_def fits_outbox_def short_def opt_ok_def int4_def ex_draw_def
        new_event_def new_outbox_def ex_endpoint_def default_settings_def length_uuid_str ex_gateway_def ex_secret_def)
  then have "receive_webhook ex_gateway (ex_draw 0 None) (uuid_str 2) ?rq (Some Map.empty) ex_e2e_db = (Inr (Accepted 4), Some Map.empty, d)"
    by (simp add: receive_webhook_def a check_duplicate_def hdr) (simp add: ex_draw_def)
  then show ?thesis by (simp add: ex_hook_def gateway_reply_def canned_def)
qed



lemma ex_quiet [simp]: "sh_print (ex_shell base) s w = w" "sh_clock (ex_shell base) w = 0"
  by (simp_all add: ex_shell_def)

lemma ex_reply:
  assumes "hc_url call = base @ ''/api'' @ rest"
  shows "sh_http (ex_shell base) call (r # w) = (Inr r, w)"
  using assms by (auto simp: ex_shell_def ex_http_def starts_with_iff split: http_body.splits bool.splits)

lemma ex_reply_hook:
  assumes "hc_url call = base @ ''/hooks/'' @ endpoint_id" "hc_method call = ''POST''" "hc_body call = Raw body"
  shows "sh_http (ex_shell base) call w = (Inr (ex_hook call endpoint_id body), w)"
  using assms by (simp add: ex_shell_def ex_http_def starts_with_iff)

lemma canned_status [simp]: "hp_status (canned c v) = c"
  by (simp add: canned_def)

end
