(* ===== verification/E2e_Script.thy ===== *)
theory E2e_Script
  imports Client_Example
begin

text \<open>
  The end-to-end script \<open>e2e_test.py\<close> as a client program: seventeen steps against a running relay, each
  of which asserts what it expects.
\<close>

section \<open>Helpers\<close>

definition ok :: "http_reply \<Rightarrow> int \<Rightarrow> (http_reply, 'w) prog" where
  "ok r expected =
     p_bind (p_assert (hp_status r = expected)
       (''Expected '' @ show_int expected @ '', got '' @ show_int (hp_status r) @ '': '' @ hp_text r)) (\<lambda>_. p_return r)"

definition http_ok :: "'w shell \<Rightarrow> http_call \<Rightarrow> int \<Rightarrow> (http_reply, 'w) prog" where
  "http_ok S call expected = p_bind (p_http S call) (\<lambda>r. ok r expected)"

definition e2e_step :: "'w shell \<Rightarrow> int \<Rightarrow> string \<Rightarrow> (unit, 'w) prog" where
  "e2e_step S num desc = p_say S (''Step '' @ show_int num @ '': '' @ desc)"

definition e2e_password :: string where
  "e2e_password = ''testpassword123''"

definition ws_url :: "string \<Rightarrow> json \<Rightarrow> string \<Rightarrow> string" where
  "ws_url base wsid rest = base @ ''/api/workspaces/'' @ py_str wsid @ rest"

section \<open>Steps 1 to 7\<close>

definition e2e_register :: "'w shell \<Rightarrow> string \<Rightarrow> string \<Rightarrow> (json \<times> json, 'w) prog" where
  "e2e_register S base email =
     p_bind (e2e_step S 1 ''Register a new user'') (\<lambda>_.
     p_bind (http_ok S (json_call ''POST'' (base @ ''/api/auth/register'') []
       [(''email'', JStr email), (''password'', JStr e2e_password), (''display_name'', JStr ''E2E User'')]) 201) (\<lambda>r.
     p_bind (p_json S r) (\<lambda>reply.
     p_bind (p_item ''access_token'' reply) (\<lambda>token.
     p_bind (p_item ''user'' reply) (\<lambda>user.
     p_bind (p_item ''id'' user) (\<lambda>user_id.
     p_bind (p_say S (''  User registered: '' @ py_str user_id)) (\<lambda>_.
     p_bind (p_print S (texts [Inr ''  Token: '', shown (head_of 40 token), Inr ''...''])) (\<lambda>_.
     p_return (token, user_id)))))))))"

definition e2e_login :: "'w shell \<Rightarrow> string \<Rightarrow> string \<Rightarrow> (unit, 'w) prog" where
  "e2e_login S base email =
     p_bind (e2e_step S 2 ''Login with credentials'') (\<lambda>_.
     p_bind (http_ok S (json_call ''POST'' (base @ ''/api/auth/login'') []
       [(''email'', JStr email), (''password'', JStr e2e_password)]) 200) (\<lambda>r.
     p_print S (texts [Inr ''  Login OK -- user: '',
       shown (bind_res (reply_json S r) (\<lambda>reply. bind_res (item ''user'' reply) (item ''display_name'')))])))"

definition e2e_workspace :: "'w shell \<Rightarrow> string \<Rightarrow> (string \<times> string) list \<Rightarrow> (json, 'w) prog" where
  "e2e_workspace S base headers =
     p_bind (e2e_step S 3 ''List workspaces'') (\<lambda>_.
     p_bind (http_ok S (get_call (base @ ''/api/workspaces/'') headers) 200) (\<lambda>r.
     p_bind (p_json S r) (\<lambda>workspaces.
     p_bind (p_lift (py_len workspaces)) (\<lambda>n.
     p_bind (p_assert (1 \<le> n) ''Expected at least 1 workspace'') (\<lambda>_.
     p_bind (p_lift (first_item workspaces)) (\<lambda>ws.
     p_bind (p_item ''id'' ws) (\<lambda>wsid.
     p_bind (p_print S (texts [Inr ''  Workspace: '', shown (item ''name'' ws), Inr '' (id='', Inr (py_str wsid),
       Inr '', role='', shown (item ''role'' ws), Inr '')''])) (\<lambda>_.
     p_return wsid))))))))"

definition e2e_endpoint :: "'w shell \<Rightarrow> string \<Rightarrow> (string \<times> string) list \<Rightarrow> json \<Rightarrow> (json, 'w) prog" where
  "e2e_endpoint S base headers wsid =
     p_bind (e2e_step S 4 ''Create endpoint in workspace'') (\<lambda>_.
     p_bind (http_ok S (json_call ''POST'' (ws_url base wsid ''/endpoints'') headers [(''name'', JStr ''E2E Test Endpoint'')]) 201) (\<lambda>r.
     p_bind (p_json S r) (\<lambda>ep.
     p_bind (p_item ''id'' ep) (\<lambda>epid.
     p_bind (p_print S (texts [Inr ''  Endpoint created: '', shown (item ''name'' ep), Inr '' (id='', Inr (py_str epid), Inr '')''])) (\<lambda>_.
     p_bind (p_lift (has_item ''hmac_secret'' ep)) (\<lambda>leaked.
     p_bind (p_assert (\<not> leaked) ''CRITICAL: hmac_secret should NOT be in EndpointOut!'') (\<lambda>_.
     p_bind (p_say S ''  PASS hmac_secret NOT leaked in response'') (\<lambda>_.
     p_return epid))))))))"

definition e2e_rotate :: "'w shell \<Rightarrow> string \<Rightarrow> (string \<times> string) list \<Rightarrow> json \<Rightarrow> json \<Rightarrow> (json, 'w) prog" where
  "e2e_rotate S base headers wsid epid =
     p_bind (e2e_step S 5 ''Rotate HMAC secret'') (\<lambda>_.
     p_bind (http_ok S (post_call (ws_url base wsid (''/endpoints/'' @ py_str epid @ ''/rotate'')) headers NoBody) 200) (\<lambda>r.
     p_bind (p_json S r) (\<lambda>reply.
     p_bind (p_item ''hmac_secret'' reply) (\<lambda>secret.
     p_bind (p_lift (py_len secret)) (\<lambda>n.
     p_bind (p_assert (n = 64) (''Expected 64-char hex secret, got '' @ show_nat n @ '' chars'')) (\<lambda>_.
     p_bind (p_print S (texts [Inr ''  Secret rotated: '', shown (head_of 16 secret), Inr ''...''])) (\<lambda>_.
     p_return secret)))))))"

definition e2e_routes_url :: "string \<Rightarrow> json \<Rightarrow> json \<Rightarrow> string" where
  "e2e_routes_url base wsid epid = ws_url base wsid (''/endpoints/'' @ py_str epid @ ''/routes'')"

definition e2e_add_route :: "'w shell \<Rightarrow> string \<Rightarrow> (string \<times> string) list \<Rightarrow> json \<Rightarrow> json \<Rightarrow> (unit, 'w) prog" where
  "e2e_add_route S base headers wsid epid =
     p_bind (e2e_step S 6 ''Add delivery route'') (\<lambda>_.
     p_bind (http_ok S (json_call ''POST'' (e2e_routes_url base wsid epid) headers
       [(''name'', JStr ''E2E Route''), (''url'', JStr ''https://httpbin.org/post''), (''method'', JStr ''POST''),
        (''filter_expression'', JStr (''event == '' @ quoted ''test''))]) 201) (\<lambda>r.
     p_bind (p_json S r) (\<lambda>route.
     p_bind (p_item ''id'' route) (\<lambda>route_id.
     p_print S (texts [Inr ''  Route created: '', shown (item ''name'' route), Inr '' (id='', Inr (py_str route_id), Inr '')''])))))"

definition e2e_list_routes :: "'w shell \<Rightarrow> string \<Rightarrow> (string \<times> string) list \<Rightarrow> json \<Rightarrow> json \<Rightarrow> (unit, 'w) prog" where
  "e2e_list_routes S base headers wsid epid =
     p_bind (e2e_step S 7 ''List routes on endpoint'') (\<lambda>_.
     p_bind (http_ok S (get_call (e2e_routes_url base wsid epid) headers) 200) (\<lambda>r.
     p_bind (p_json S r) (\<lambda>routes.
     p_bind (p_lift (py_len routes)) (\<lambda>n.
     p_bind (p_assert (n = 1) []) (\<lambda>_.
     p_say S (''  Routes: '' @ show_nat n @ '' found''))))))"

section \<open>Steps 8 to 12\<close>

definition e2e_payload :: string where
  "e2e_payload = ''{'' @ dumps_str ''event'' @ '': '' @ dumps_str ''test'' @ '', '' @ dumps_str ''amount'' @ '': 42}''"

text \<open>The headers that both requests carry; the first one has one more.\<close>

definition e2e_hook :: "string \<Rightarrow> json \<Rightarrow> string \<Rightarrow> (string \<times> string) list \<Rightarrow> http_call" where
  "e2e_hook base epid sig extra =
     post_call (base @ ''/hooks/'' @ py_str epid)
       ([(''Content-Type'', ''application/json''), (''X-Hub-Signature-256'', sig),
         (''Idempotency-Key'', ''e2e-test-001'')] @ extra) (Raw e2e_payload)"

definition e2e_webhook :: "'w shell \<Rightarrow> string \<Rightarrow> json \<Rightarrow> json \<Rightarrow> (json \<times> string, 'w) prog" where
  "e2e_webhook S base epid secret =
     p_bind (e2e_step S 8 ''Send webhook to /hooks/{endpoint_id}'') (\<lambda>_.
     p_bind (p_lift (encoded secret)) (\<lambda>key.
     let sig = sign_payload key e2e_payload in
     p_bind (http_ok S (e2e_hook base epid sig [(''X-GitHub-Event'', ''push'')]) 202) (\<lambda>r.
     p_bind (p_json S r) (\<lambda>reply.
     p_bind (p_item ''event_id'' reply) (\<lambda>event_id.
     p_bind (p_say S (''  Webhook accepted -- event_id='' @ py_str event_id)) (\<lambda>_.
     p_return (event_id, sig)))))))"

definition e2e_events :: "'w shell \<Rightarrow> string \<Rightarrow> (string \<times> string) list \<Rightarrow> json \<Rightarrow> json \<Rightarrow> (unit, 'w) prog" where
  "e2e_events S base headers wsid event_id =
     p_bind (e2e_step S 9 ''List events in workspace'') (\<lambda>_.
     p_bind (http_ok S (get_call (ws_url base wsid ''/events'') headers) 200) (\<lambda>r.
     p_bind (p_json S r) (\<lambda>events.
     p_bind (p_lift (py_len events)) (\<lambda>n.
     p_bind (p_assert (1 \<le> n) []) (\<lambda>_.
     p_bind (p_say S (''  Events: '' @ show_nat n @ '' found'')) (\<lambda>_.
     p_bind (e2e_step S 10 ''Get event detail'') (\<lambda>_.
     p_bind (http_ok S (get_call (ws_url base wsid (''/events/'' @ py_str event_id)) headers) 200) (\<lambda>r.
     p_bind (p_json S r) (\<lambda>ev.
     p_bind (p_item ''request_body'' ev) (\<lambda>body.
     p_bind (p_item ''event'' body) (\<lambda>event.
     p_bind (p_assert (event = JStr ''test'') []) (\<lambda>_.
     p_bind (p_print S (texts [Inr ''  Event detail: id='', shown (item ''id'' ev), Inr '', headers present='',
       bind_res (has_item ''request_headers'' ev) (\<lambda>b. Inr (py_str (JBool b)))])) (\<lambda>_.
     p_bind (e2e_step S 11 ''Get delivery attempts'') (\<lambda>_.
     p_bind (http_ok S (get_call (ws_url base wsid (''/events/'' @ py_str event_id @ ''/attempts'')) headers) 200) (\<lambda>r.
     p_bind (p_json S r) (\<lambda>attempts.
     p_print S (texts [Inr ''  Delivery attempts: '', shown_len attempts,
       Inr (CHR '' '' # ''(may be 0 if worker hasn'' @ [CHR 0x27] @ ''t processed yet)'')])))))))))))))))))"

definition e2e_duplicate :: "'w shell \<Rightarrow> string \<Rightarrow> json \<Rightarrow> string \<Rightarrow> (unit, 'w) prog" where
  "e2e_duplicate S base epid sig =
     p_bind (e2e_step S 12 ''Idempotency -- resend with same key'') (\<lambda>_.
     p_bind (http_ok S (e2e_hook base epid sig []) 202) (\<lambda>r.
     p_bind (p_json S r) (\<lambda>body.
     p_bind (p_say S (''  Duplicate response: '' @ py_str body)) (\<lambda>_.
     p_bind (p_item ''status'' body) (\<lambda>status.
     p_assert (status = JStr ''duplicate'') (''Expected duplicate, got '' @ py_str body))))))"

section \<open>Steps 13 to 17\<close>

definition e2e_viewer :: "'w shell \<Rightarrow> string \<Rightarrow> (string \<times> string) list \<Rightarrow> json \<Rightarrow> string \<Rightarrow> (json \<times> json, 'w) prog" where
  "e2e_viewer S base headers wsid viewer_email =
     p_bind (e2e_step S 13 ''RBAC -- invite viewer, verify they cannot create endpoints'') (\<lambda>_.
     p_bind (http_ok S (json_call ''POST'' (base @ ''/api/auth/register'') []
       [(''email'', JStr viewer_email), (''password'', JStr e2e_password), (''display_name'', JStr ''Viewer User'')]) 201) (\<lambda>r.
     p_bind (p_json S r) (\<lambda>reply.
     p_bind (p_item ''access_token'' reply) (\<lambda>viewer_token.
     p_bind (p_item ''user'' reply) (\<lambda>user.
     p_bind (p_item ''id'' user) (\<lambda>viewer_id.
     p_bind (p_say S (''  Viewer user registered: '' @ py_str viewer_id)) (\<lambda>_.
     p_bind (http_ok S (json_call ''POST'' (ws_url base wsid ''/members'') headers
       [(''email'', JStr viewer_email), (''role'', JStr ''viewer'')]) 201) (\<lambda>_.
     p_bind (p_say S ''  Viewer added to workspace'') (\<lambda>_.
     p_bind (p_http S (json_call ''POST'' (ws_url base wsid ''/endpoints'') (bearer viewer_token)
       [(''name'', JStr (''Viewer'' @ [CHR 0x27] @ ''s Endpoint''))])) (\<lambda>r.
     p_bind (p_assert (hp_status r = 403)
       (''Expected 403 for viewer, got '' @ show_int (hp_status r) @ '': '' @ hp_text r)) (\<lambda>_.
     p_bind (p_say S ''  PASS Viewer correctly denied (403) from creating endpoint'') (\<lambda>_.
     p_bind (http_ok S (get_call (ws_url base wsid ''/endpoints'') (bearer viewer_token)) 200) (\<lambda>r.
     p_bind (p_print S (texts [Inr ''  PASS Viewer can list endpoints ('', bind_res (reply_json S r) shown_len, Inr '' found)''])) (\<lambda>_.
     p_return (viewer_token, viewer_id)))))))))))))))"

definition e2e_promote :: "'w shell \<Rightarrow> string \<Rightarrow> (string \<times> string) list \<Rightarrow> json \<Rightarrow> json \<Rightarrow> json \<Rightarrow> (unit, 'w) prog" where
  "e2e_promote S base headers wsid viewer_token viewer_id =
     p_bind (e2e_step S 14 ''RBAC -- promote viewer to member, verify they can create endpoint'') (\<lambda>_.
     p_bind (http_ok S (json_call ''PUT'' (ws_url base wsid (''/members/'' @ py_str viewer_id)) headers [(''role'', JStr ''member'')]) 200) (\<lambda>_.
     p_bind (p_say S ''  Viewer promoted to member'') (\<lambda>_.
     p_bind (http_ok S (json_call ''POST'' (ws_url base wsid ''/endpoints'') (bearer viewer_token)
       [(''name'', JStr (''Member'' @ [CHR 0x27] @ ''s Endpoint''))]) 201) (\<lambda>r.
     p_print S (texts [Inr ''  PASS Member can now create endpoints ('',
       shown (bind_res (reply_json S r) (item ''name'')), Inr '')''])))))"

definition member_line :: "json \<Rightarrow> string res" where
  "member_line m =
     texts [Inr ''    - '', shown (item ''display_name'' m), Inr '' ('', shown (item ''email'' m), Inr '') -- '', shown (item ''role'' m)]"

definition e2e_members :: "'w shell \<Rightarrow> string \<Rightarrow> (string \<times> string) list \<Rightarrow> json \<Rightarrow> (unit, 'w) prog" where
  "e2e_members S base headers wsid =
     p_bind (e2e_step S 15 ''List workspace members'') (\<lambda>_.
     p_bind (http_ok S (get_call (ws_url base wsid ''/members'') headers) 200) (\<lambda>r.
     p_bind (p_json S r) (\<lambda>members.
     p_bind (p_print S (texts [Inr ''  Members ('', shown_len members, Inr ''):''])) (\<lambda>_.
     p_bind (p_lift (items_of members)) (\<lambda>ms.
     p_bind (p_each (\<lambda>m. p_print S (member_line m)) ms) (\<lambda>_.
     p_return ()))))))"

definition e2e_last :: "'w shell \<Rightarrow> string \<Rightarrow> (string \<times> string) list \<Rightarrow> (unit, 'w) prog" where
  "e2e_last S base headers =
     p_bind (e2e_step S 16 ''GET /api/auth/me'') (\<lambda>_.
     p_bind (http_ok S (get_call (base @ ''/api/auth/me'') headers) 200) (\<lambda>r.
     p_bind (p_print S (texts [Inr ''  Me: '', shown (bind_res (reply_json S r) (item ''display_name'')), Inr '' ('',
       shown (bind_res (reply_json S r) (item ''email'')), Inr '')''])) (\<lambda>_.
     p_bind (e2e_step S 17 ''Health check'') (\<lambda>_.
     p_bind (http_ok S (get_call (base @ ''/health'') []) 200) (\<lambda>r.
     p_bind (p_print S (texts [Inr ''  Health: '', shown (reply_json S r)])) (\<lambda>_.
     p_say S (''PASS ALL '' @ show_int 17 @ '' E2E TESTS PASSED'')))))))"

section \<open>The script\<close>

definition e2e_base :: "string option \<Rightarrow> string" where
  "e2e_base base_url = (case base_url of Some u \<Rightarrow> u | None \<Rightarrow> ''http://localhost:8001'')"

definition e2e_test :: "'w shell \<Rightarrow> string option \<Rightarrow> (unit, 'w) prog" where
  "e2e_test S base_url =
     p_bind (p_clock S) (\<lambda>now.
     let base = e2e_base base_url; uid = show_int \<lfloor>now\<rfloor>; email = ''e2e-'' @ uid @ ''@test.com''; viewer_email = ''viewer-'' @ uid @ ''@test.com'' in
     p_bind (e2e_register S base email) (\<lambda>(token, user_id).
     let headers = bearer token in
     p_bind (e2e_login S base email) (\<lambda>_.
     p_bind (e2e_workspace S base headers) (\<lambda>wsid.
     p_bind (e2e_endpoint S base headers wsid) (\<lambda>epid.
     p_bind (e2e_rotate S base headers wsid epid) (\<lambda>secret.
     p_bind (e2e_add_route S base headers wsid epid) (\<lambda>_.
     p_bind (e2e_list_routes S base headers wsid epid) (\<lambda>_.
     p_bind (e2e_webhook S base epid secret) (\<lambda>(event_id, sig).
     p_bind (e2e_events S base headers wsid event_id) (\<lambda>_.
     p_bind (e2e_duplicate S base epid sig) (\<lambda>_.
     p_bind (e2e_viewer S base headers wsid viewer_email) (\<lambda>(viewer_token, viewer_id).
     p_bind (e2e_promote S base headers wsid viewer_token viewer_id) (\<lambda>_.
     p_bind (e2e_members S base headers wsid) (\<lambda>_.
     e2e_last S base headers))))))))))))))"

section \<open>Lemmas\<close>

lemma http_ok_gives: "p_gives (http_ok S call code) (\<lambda>r. hp_status r = code \<and> (\<exists>w. fst (sh_http S call w) = Inr r))"
  unfolding p_gives_def http_ok_def ok_def p_http_def prog_defs
  by (auto split: prod.splits sum.splits if_splits) (metis fst_conv)+

lemma e2e_hook_headers: "header_get ''x-idempotency-key'' (hc_headers (e2e_hook base epid sig [])) = None"
  by (simp add: e2e_hook_def post_call_def header_get_def py_lower_def lower_char_def)

lemma duplicate_step_fails:
  assumes "hooks_served S E base"
  shows "p_fails (e2e_duplicate S base epid sig)"
proof -
  let ?call = "e2e_hook base epid sig []"
  have hook: "hook_call base (py_str epid) e2e_payload ?call"
    by (simp add: hook_call_def e2e_hook_def post_call_def)
  have step: "p_fails (p_bind (p_json S r) (\<lambda>body. p_bind (p_say S (''  Duplicate response: '' @ py_str body)) (\<lambda>_.
      p_bind (p_item ''status'' body) (\<lambda>status.
      p_assert (status = JStr ''duplicate'') (''Expected duplicate, got '' @ py_str body)))))"
    if "hp_status r = 202 \<and> (\<exists>w. fst (sh_http S ?call w) = Inr r)" for r
  proof -
    from that obtain w where "fst (sh_http S ?call w) = Inr r" by blast
    with reply_not_duplicate [OF assms hook this _ e2e_hook_headers] that
    obtain v where v: "reply_json S r = Inr v" "item ''status'' v \<noteq> Inr (JStr ''duplicate'')" by blast
    then show ?thesis
      by (cases "item ''status'' v") (auto simp: p_fails_def p_json_def p_item_def prog_defs)
  qed
  show ?thesis
    unfolding e2e_duplicate_def by (rule fails_any, rule fails_later [OF http_ok_gives], rule step)
qed

lemma e2e_test_fails:
  assumes "hooks_served S E (e2e_base base_url)"
  shows "p_fails (e2e_test S base_url)"
  unfolding e2e_test_def Let_def
  by (rule fails_first [OF duplicate_step_fails [OF assms]] | rule fails_any | clarify)+

section \<open>What the script shows\<close>

text \<open>
  C37: run against this relay, the end-to-end script never passes: it sends its key as
  \<open>Idempotency-Key\<close>, the gateway reads \<open>x-idempotency-key\<close>, so the second webhook is not answered
  \<open>duplicate\<close> and step 12 raises.
\<close>

theorem e2e_test_never_passes:
  assumes "hooks_served S E (e2e_base base_url)"
  shows "fst (e2e_test S base_url w) \<noteq> Inr ()"
  using e2e_test_fails [OF assms] unfolding p_fails_def by (metis sum.distinct(1))

section \<open>A run of the script\<close>

definition ex_event_json :: json where
  "ex_event_json = JObj [(''id'', JStr ''v''), (''request_body'', JObj [(''event'', JStr ''test'')])]"

definition ex_replies :: "http_reply list" where
  "ex_replies =
     [canned 201 (JObj [(''access_token'', JStr ''t''), (''user'', JObj [(''id'', JStr ''u'')])]),
      canned 200 (JObj [(''user'', JObj [(''display_name'', JStr ''E2E User'')])]),
      canned 200 (JArr [JObj [(''id'', JStr ''w''), (''name'', JStr ''n''), (''role'', JStr ''owner'')]]),
      canned 201 (JObj [(''id'', JStr (uuid_str 2)), (''name'', JStr ''E2E Test Endpoint'')]),
      canned 200 (JObj [(''hmac_secret'', JStr ex_secret)]),
      canned 201 (JObj [(''id'', JStr ''r''), (''name'', JStr ''E2E Route'')]),
      canned 200 (JArr [JObj [(''id'', JStr ''r'')]]),
      canned 200 (JArr [ex_event_json]), canned 200 ex_event_json, canned 200 (JArr [])]"

lemmas ex_run = prog_defs http_ok_def ok_def e2e_step_def p_http_def p_json_def p_item_def p_clock_def canned_json
  ex_reply json_call_def get_call_def post_call_def ws_url_def e2e_routes_url_def texts_def shown_def item_def
  py_len_def items_of_def first_item_def head_of_def has_item_def dict_has_def shown_len_def

lemma run_register:
  "e2e_register (ex_shell base) base email (canned 201 (JObj [(''access_token'', JStr ''t''), (''user'', JObj [(''id'', JStr ''u'')])]) # w)
   = (Inr (JStr ''t'', JStr ''u''), w)"
  by (simp add: e2e_register_def ex_run)

lemma run_login: "e2e_login (ex_shell base) base email (canned 200 (JObj [(''user'', JObj [(''display_name'', JStr ''E2E User'')])]) # w) = (Inr (), w)"
  by (simp add: e2e_login_def ex_run)

lemma run_ws: "e2e_workspace (ex_shell base) base h (canned 200 (JArr [JObj [(''id'', JStr ''w''), (''name'', JStr ''n''), (''role'', JStr ''owner'')]]) # w) = (Inr (JStr ''w''), w)"
  by (simp add: e2e_workspace_def ex_run)

lemma run_ep: "e2e_endpoint (ex_shell base) base h wsid (canned 201 (JObj [(''id'', JStr (uuid_str 2)), (''name'', JStr ''E2E Test Endpoint'')]) # w) = (Inr (JStr (uuid_str 2)), w)"
  by (simp add: e2e_endpoint_def ex_run)

lemma run_rotate: "e2e_rotate (ex_shell base) base h wsid epid (canned 200 (JObj [(''hmac_secret'', JStr ex_secret)]) # w) = (Inr (JStr ex_secret), w)"
  by (simp add: e2e_rotate_def ex_run) (simp add: ex_secret_def)

lemma run_add: "e2e_add_route (ex_shell base) base h wsid epid (canned 201 (JObj [(''id'', JStr ''r''), (''name'', JStr ''E2E Route'')]) # w) = (Inr (), w)"
  by (simp add: e2e_add_route_def ex_run)

lemma run_list: "e2e_list_routes (ex_shell base) base h wsid epid (canned 200 (JArr [JObj [(''id'', JStr ''r'')]]) # w) = (Inr (), w)"
  by (simp add: e2e_list_routes_def ex_run)

lemma run_events: "e2e_events (ex_shell base) base h wsid v (canned 200 (JArr [ex_event_json]) # canned 200 ex_event_json # canned 200 (JArr []) # w) = (Inr (), w)"
  by (simp add: e2e_events_def ex_run ex_event_json_def)

lemma lower_names:
  "py_lower ''Content-Type'' = ''content-type''" "py_lower ''X-Hub-Signature-256'' = ''x-hub-signature-256''"
  "py_lower ''Idempotency-Key'' = ''idempotency-key''" "py_lower ''X-GitHub-Event'' = ''x-github-event''"
  by code_simp+

lemma e2e_payload_length: "length e2e_payload = 31"
  by code_simp

lemma e2e_hook_accepted:
  assumes "h = [] \<or> h = [(''X-GitHub-Event'', ''push'')]"
  shows "ex_hook (e2e_hook base epid (sign_payload ex_secret e2e_payload) h) (uuid_str 2) e2e_payload =
    canned 202 (hook_answer (Accepted 4))"
proof (rule ex_hook_accepted)
  let ?h = "hc_headers (e2e_hook base epid (sign_payload ex_secret e2e_payload) h)"
  show "header_get ''x-hub-signature-256'' ?h = Some (sign_payload ex_secret e2e_payload)"
    by (simp add: e2e_hook_def post_call_def header_get_def lower_names)
  show "header_get ''x-idempotency-key'' ?h = None"
    using assms by (elim disjE) (simp_all add: e2e_hook_def post_call_def header_get_def lower_names)
  show "int (length e2e_payload) \<le> 1000"
    by (simp add: e2e_payload_length)
qed

lemma ex_e2e_reply: "sh_http (ex_shell base) (e2e_hook base (JStr (uuid_str 2)) sig h) w =
    (Inr (ex_hook (e2e_hook base (JStr (uuid_str 2)) sig h) (uuid_str 2) e2e_payload), w)"
  by (rule ex_reply_hook) (simp_all add: e2e_hook_def post_call_def)

lemma run_webhook: "e2e_webhook (ex_shell base) base (JStr (uuid_str 2)) (JStr ex_secret) w =
   (Inr (JStr (uuid_str 4), sign_payload ex_secret e2e_payload), w)"
  by (simp add: e2e_webhook_def encoded_def ex_e2e_reply e2e_hook_accepted hook_answer_def ex_run Let_def)

lemma run_duplicate: "e2e_duplicate (ex_shell base) base (JStr (uuid_str 2)) (sign_payload ex_secret e2e_payload) w =
   (Inl (OtherError ''AssertionError'' (''Expected duplicate, got '' @ py_str (hook_answer (Accepted 4)))), w)"
  by (simp add: e2e_duplicate_def ex_e2e_reply e2e_hook_accepted hook_answer_def ex_run del: py_str.simps)

lemma run_e2e:
  "fst (e2e_test (ex_shell (e2e_base None)) None ex_replies) =
     Inl (OtherError ''AssertionError'' (''Expected duplicate, got '' @ py_str (hook_answer (Accepted 4))))"
  by (simp add: e2e_test_def Let_def p_bind_def p_clock_def ex_replies_def run_register run_login run_ws run_ep run_rotate
      run_add run_list run_webhook run_events run_duplicate del: py_str.simps)

theorem e2e_test_never_passes_witness:
  "hooks_served (ex_shell (e2e_base None)) ex_gateway (e2e_base None) \<and>
   fst (e2e_test (ex_shell (e2e_base None)) None ex_replies) \<noteq> Inr () \<and>
   fst (e2e_test (ex_shell (e2e_base None)) None ex_replies) =
     Inl (OtherError ''AssertionError'' (''Expected duplicate, got '' @ py_str (hook_answer (Accepted 4))))"
  using e2e_test_never_passes [OF ex_served] ex_served run_e2e by blast

end
