(* ===== verification/Demo_Scripts.thy ===== *)
theory Demo_Scripts
  imports Client_Example
begin

text \<open>
  The demonstration scripts \<open>demo_all.py\<close>, \<open>demo_dlq.py\<close>, \<open>demo_webhook_site.py\<close>, \<open>simulate_dlq.py\<close> and
  \<open>test_webhook.py\<close> as client programs.  They use the standard library's HTTP client, which raises on a
  status outside 200 to 299.  Identifiers in replies are texts, compared as such.
\<close>

section \<open>Requests\<close>

definition urllib_call :: "string \<Rightarrow> string \<Rightarrow> (string \<times> string) list \<Rightarrow> dict option \<Rightarrow> http_call" where
  "urllib_call url verb headers data =
     (case data of
        None \<Rightarrow> \<lparr>hc_method = verb, hc_url = url, hc_headers = headers, hc_body = NoBody\<rparr>
      | Some d \<Rightarrow> \<lparr>hc_method = verb, hc_url = url, hc_headers = headers @ [(''Content-Type'', ''application/json'')],
                   hc_body = Raw (json_dumps (JObj d))\<rparr>)"

definition is_success :: "http_reply \<Rightarrow> bool" where
  "is_success r \<longleftrightarrow> 200 \<le> hp_status r \<and> hp_status r < 300"

text \<open>The handler of \<open>HTTPError\<close>.\<close>

definition error_answer :: "'w shell \<Rightarrow> http_reply \<Rightarrow> (int \<times> json) res" where
  "error_answer S r =
     (case reply_json S r of
        Inl JSONDecodeError \<Rightarrow> Inr (hp_status r, JStr (hp_text r))
      | Inl e \<Rightarrow> Inl e
      | Inr v \<Rightarrow> Inr (hp_status r, v))"

definition demo_request :: "'w shell \<Rightarrow> string \<Rightarrow> string \<Rightarrow> (string \<times> string) list \<Rightarrow> dict option \<Rightarrow> (int \<times> json, 'w) prog" where
  "demo_request S url verb headers data w =
     (case sh_http S (urllib_call url verb headers data) w of
        (Inl e, w') \<Rightarrow> (Inr (0, JStr (exc_text e)), w')
      | (Inr r, w') \<Rightarrow>
          (if is_success r
           then (case reply_json S r of Inl e \<Rightarrow> Inr (0, JStr (exc_text e)) | Inr v \<Rightarrow> Inr (hp_status r, v))
           else error_answer S r, w'))"

text \<open>The same text stands in two more scripts; in \<open>simulate_dlq.py\<close> it has no handler for other exceptions.\<close>

definition dlq_request :: "'w shell \<Rightarrow> string \<Rightarrow> string \<Rightarrow> (string \<times> string) list \<Rightarrow> dict option \<Rightarrow> (int \<times> json, 'w) prog" where
  "dlq_request = demo_request"

definition site_request :: "'w shell \<Rightarrow> string \<Rightarrow> string \<Rightarrow> (string \<times> string) list \<Rightarrow> dict option \<Rightarrow> (int \<times> json, 'w) prog" where
  "site_request = demo_request"

definition simulate_request :: "'w shell \<Rightarrow> string \<Rightarrow> string \<Rightarrow> (string \<times> string) list \<Rightarrow> dict option \<Rightarrow> (int \<times> json, 'w) prog" where
  "simulate_request S url verb headers data w =
     (case sh_http S (urllib_call url verb headers data) w of
        (Inl e, w') \<Rightarrow> (Inl e, w')
      | (Inr r, w') \<Rightarrow>
          (if is_success r then bind_res (reply_json S r) (\<lambda>v. Inr (hp_status r, v)) else error_answer S r, w'))"

definition relay_url :: "string \<Rightarrow> string" where
  "relay_url path = ''http://localhost:8000'' @ path"

definition failed_line :: "string \<Rightarrow> int \<Rightarrow> json \<Rightarrow> string" where
  "failed_line what status answer = ''Failed to '' @ what @ '': '' @ show_int status @ '' '' @ py_str answer"

definition demo_routes_url :: "json \<Rightarrow> string" where
  "demo_routes_url epid = relay_url (''/api/endpoints/'' @ py_str epid @ ''/routes'')"

definition hook_url :: "json \<Rightarrow> string" where
  "hook_url epid = relay_url (''/hooks/'' @ py_str epid)"

section \<open>demo_all.py\<close>

definition demo_all_banner :: "string list" where
  "demo_all_banner =
     [''          WEBHOOK RELAY E2E DEMONSTRATION SCRIPT             '',
      ''This script will demonstrate Dynamic Route Filtering (Phase 3)'',
      ''and Dead Letter Queue (DLQ) processing in one single run.'',
      ''1. Creating demonstration endpoint...'']"

definition demo_route :: "string \<Rightarrow> string \<Rightarrow> int \<Rightarrow> string option \<Rightarrow> dict" where
  "demo_route nm path retries filter_text =
     [(''name'', JStr nm), (''url'', JStr (''http://localhost:54321'' @ path)), (''method'', JStr ''POST''),
      (''timeout_ms'', JInt 1000), (''max_retries'', JInt retries)] @
     (case filter_text of None \<Rightarrow> [] | Some f \<Rightarrow> [(''filter_expression'', JStr f)])"

definition demo_all_routes :: "'w shell \<Rightarrow> json \<Rightarrow> (json \<times> json \<times> json, 'w) prog" where
  "demo_all_routes S epid =
     p_bind (p_say S ''2. Registering destination routes...'') (\<lambda>_.
     p_bind (demo_request S (demo_routes_url epid) ''POST'' []
       (Some (demo_route ''Route A (No Filter)'' ''/always-deliver'' 1 None))) (\<lambda>(status, route_all).
     p_bind (p_print S (texts [Inr (''   -> Created Route A: '' @ [CHR 0x27]), shown (item ''name'' route_all),
       Inr ([CHR 0x27] @ '' (Filter: None)'')])) (\<lambda>_.
     p_bind (demo_request S (demo_routes_url epid) ''POST'' []
       (Some (demo_route ''Route B (Success Only)'' ''/success-only'' 1 (Some (''event_type == '' @ quoted ''payment.succeeded''))))) (\<lambda>(status, route_success).
     p_bind (p_print S (texts [Inr (''   -> Created Route B: '' @ [CHR 0x27]), shown (item ''name'' route_success),
       Inr ([CHR 0x27] @ '' (Filter: ''), shown (item ''filter_expression'' route_success), Inr '')''])) (\<lambda>_.
     p_bind (demo_request S (demo_routes_url epid) ''POST'' []
       (Some (demo_route ''Route C (Failing Destination - DLQ)'' ''/failed-only'' 3 (Some (''event_type == '' @ quoted ''payment.failed''))))) (\<lambda>(status, route_failed).
     p_bind (p_print S (texts [Inr (''   -> Created Route C: '' @ [CHR 0x27]), shown (item ''name'' route_failed),
       Inr ([CHR 0x27] @ '' (Filter: ''), shown (item ''filter_expression'' route_failed), Inr '')''])) (\<lambda>_.
     p_return (route_all, route_success, route_failed))))))))"

text \<open>Send one webhook; give the identifier of its event.\<close>

definition demo_send :: "'w shell \<Rightarrow> json \<Rightarrow> string \<Rightarrow> dict \<Rightarrow> (json, 'w) prog" where
  "demo_send S epid secret payload =
     p_bind (demo_request S (hook_url epid) ''POST''
       [(''x-hub-signature-256'', sign_payload secret (json_dumps (JObj payload)))] (Some payload)) (\<lambda>(status, answer).
     p_item ''event_id'' answer)"

definition demo_attempts :: "'w shell \<Rightarrow> json \<Rightarrow> (json, 'w) prog" where
  "demo_attempts S event_id =
     p_bind (demo_request S (relay_url (''/api/events/'' @ py_str event_id @ ''/attempts'')) ''GET'' [] None) (\<lambda>(status, tries).
     p_return tries)"

definition route_ids :: "json \<Rightarrow> json list res" where
  "route_ids tries = bind_res (items_of tries) (each_res (item ''route_id''))"

definition tried_line :: "string \<Rightarrow> json \<Rightarrow> json list \<Rightarrow> string \<Rightarrow> string \<Rightarrow> string res" where
  "tried_line nm route tried yes no =
     texts [Inr (''   - '' @ nm @ '': ''), bind_res (item ''id'' route) (\<lambda>i. Inr (if i \<in> set tried then yes else no))]"

definition demo_all_success :: "'w shell \<Rightarrow> json \<Rightarrow> string \<Rightarrow> json \<times> json \<times> json \<Rightarrow> (json, 'w) prog" where
  "demo_all_success S epid secret = (\<lambda>(route_all, route_success, route_failed).
     p_bind (p_say S (''3. Ingesting '' @ quoted ''payment.succeeded'' @ '' webhook event...'')) (\<lambda>_.
     p_bind (demo_send S epid secret [(''event_type'', JStr ''payment.succeeded''), (''amount'', JFloat ''120.5'')]) (\<lambda>event_id.
     p_bind (p_say S (''   -> Webhook A Ingested: Event ID = '' @ py_str event_id)) (\<lambda>_.
     p_bind (p_say S ''   -> Waiting 3 seconds for worker processing...'') (\<lambda>_.
     p_bind (p_sleep S 3) (\<lambda>_.
     p_bind (demo_attempts S event_id) (\<lambda>tries.
     p_bind (p_say S ''   [Filter evaluation check for payment.succeeded]:'') (\<lambda>_.
     p_bind (p_lift (route_ids tries)) (\<lambda>tried.
     p_bind (p_print S (tried_line ''Route A (No Filter)'' route_all tried ''Attempted (matching always)'' ''Skipped'')) (\<lambda>_.
     p_bind (p_print S (tried_line ''Route B (Success Filter)'' route_success tried ''Attempted (MATCH)'' ''Skipped'')) (\<lambda>_.
     p_bind (p_print S (tried_line ''Route C (Failed Filter)'' route_failed tried ''Attempted'' ''SKIPPED (Filter mismatch!)'')) (\<lambda>_.
     p_return event_id))))))))))))"

definition wait_seconds :: "'w shell \<Rightarrow> (unit, 'w) prog" where
  "wait_seconds S =
     p_bind (p_each (\<lambda>i.
       p_bind (p_sleep S 1) (\<lambda>_.
       p_say S (''      Waiting... '' @ show_int i @ ''s / 12s''))) [1..12]) (\<lambda>_.
     p_return ())"

definition attempts_of_route :: "json \<Rightarrow> json list \<Rightarrow> json list res" where
  "attempts_of_route route tries =
     bind_res (each_res (\<lambda>att. bind_res (item ''route_id'' att) (\<lambda>i. bind_res (item ''id'' route) (\<lambda>j.
       Inr (if i = j then [att] else [])))) tries) (\<lambda>found. Inr (concat found))"

definition demo_all_failure :: "'w shell \<Rightarrow> json \<Rightarrow> string \<Rightarrow> json \<times> json \<times> json \<Rightarrow> (json, 'w) prog" where
  "demo_all_failure S epid secret = (\<lambda>(route_all, route_success, route_failed).
     p_bind (p_say S (''4. Ingesting '' @ quoted ''payment.failed'' @ '' webhook event...'')) (\<lambda>_.
     p_bind (demo_send S epid secret [(''event_type'', JStr ''payment.failed''), (''error_code'', JStr ''card_declined'')]) (\<lambda>event_id.
     p_bind (p_say S (''   -> Webhook B Ingested: Event ID = '' @ py_str event_id)) (\<lambda>_.
     p_bind (p_say S ''   -> Waiting 12 seconds for delivery attempts & exponential backoffs to exhaust...'') (\<lambda>_.
     p_bind (wait_seconds S) (\<lambda>_.
     p_bind (demo_attempts S event_id) (\<lambda>tries.
     p_bind (p_say S ''   [Filter & DLQ check for payment.failed]:'') (\<lambda>_.
     p_bind (p_lift (route_ids tries)) (\<lambda>tried.
     p_bind (p_lift (bind_res (items_of tries) (attempts_of_route route_failed))) (\<lambda>of_route_c.
     p_bind (p_print S (tried_line ''Route A (No Filter)'' route_all tried ''Attempted (matching always)'' ''Skipped'')) (\<lambda>_.
     p_bind (p_print S (tried_line ''Route B (Success Filter)'' route_success tried ''Attempted'' ''SKIPPED (Filter mismatch!)'')) (\<lambda>_.
     p_bind (p_say S (''   - Route C (Failed Filter): Attempted '' @ show_nat (length of_route_c) @
       '' times (Failed connection, exhausted retries)'')) (\<lambda>_.
     p_return event_id)))))))))))))"

definition demo_all_dlq :: "'w shell \<Rightarrow> json \<Rightarrow> (unit, 'w) prog" where
  "demo_all_dlq S event_id =
     p_bind (p_say S ''5. Querying Dead Letter Queue (DLQ)...'') (\<lambda>_.
     p_bind (demo_request S (relay_url ''/api/dlq/'') ''GET'' [] None) (\<lambda>(status, dlq_list).
     p_bind (p_lift (bind_res (items_of dlq_list) (first_where (\<lambda>v. bind_res (item ''event_id'' v) (\<lambda>i. Inr (i = event_id)))))) (\<lambda>found.
     (case found of
        Some ev \<Rightarrow>
          if truthy ev then
            p_bind (p_say S ''   -> FOUND event in DLQ!'') (\<lambda>_.
            p_bind (p_print S (texts [Inr ''      Event ID: '', shown (item ''event_id'' ev)])) (\<lambda>_.
            p_bind (p_print S (texts [Inr ''      Last Destination: '', shown (item ''last_url'' ev)])) (\<lambda>_.
            p_print S (texts [Inr ''      Last Error: '', shown (item ''last_error'' ev)]))))
          else p_say S ''   -> Event NOT found in DLQ. Ensure transform & delivery workers are running!''
      | None \<Rightarrow> p_say S ''   -> Event NOT found in DLQ. Ensure transform & delivery workers are running!''))))"

definition demo_all_end :: "json \<Rightarrow> json \<Rightarrow> string list" where
  "demo_all_end event_a event_b =
     [''                  DEMONSTRATION COMPLETE                     '',
      ''You can open your browser dashboard to view:'', ''1. Overview tab: metrics updated.'',
      ''2. Endpoints tab -> Configure: the '' @ quoted ''E2E Video Demo Endpoint'' @ '' and its routes.'',
      ''3. Events Log tab: see events '' @ py_str event_a @ '' and '' @ py_str event_b @ ''.'',
      ''4. Dead Letters tab: see the failed payment.failed event.'']"

definition demo_all :: "'w shell \<Rightarrow> (unit, 'w) prog" where
  "demo_all S =
     p_bind (p_lines S demo_all_banner) (\<lambda>_.
     p_bind (demo_request S (relay_url ''/api/endpoints/'') ''POST'' [] (Some [(''name'', JStr ''E2E Video Demo Endpoint'')])) (\<lambda>(status, ep).
     (if status \<noteq> 201 then p_say S (failed_line ''create endpoint'' status ep)
      else
        p_bind (p_item ''id'' ep) (\<lambda>epid.
        p_bind (p_item ''hmac_secret'' ep) (\<lambda>stored.
        p_bind (p_lift (encoded stored)) (\<lambda>secret.
        p_bind (p_say S (''   -> Created Endpoint ID: '' @ py_str epid)) (\<lambda>_.
        p_bind (p_say S (''   -> HMAC Secret: '' @ py_str stored)) (\<lambda>_.
        p_bind (demo_all_routes S epid) (\<lambda>made.
        p_bind (demo_all_success S epid secret made) (\<lambda>event_a.
        p_bind (demo_all_failure S epid secret made) (\<lambda>event_b.
        p_bind (demo_all_dlq S event_b) (\<lambda>_.
        p_lines S (demo_all_end event_a event_b)))))))))))))"

section \<open>demo_dlq.py\<close>

definition demo_dlq_banner :: "string list" where
  "demo_dlq_banner =
     [''             DEMO 2: DEAD LETTER QUEUE (DLQ)                 '',
      ''This script will create a route that is guaranteed to fail,  '',
      ''exhausting all retries so it lands in the Dead Letter Queue.'',
      ''1. Creating ingestion endpoint in database...'']"

text \<open>Steps 1 and 2 of a script, up to its own texts: give the endpoint and its secret, or nothing if it returned.\<close>

definition demo_dlq_setup :: "'w shell \<Rightarrow> ((json \<times> string) option, 'w) prog" where
  "demo_dlq_setup S =
     p_bind (dlq_request S (relay_url ''/api/endpoints/'') ''POST'' [] (Some [(''name'', JStr ''DLQ Simulation Endpoint'')])) (\<lambda>(status, ep).
     (if status \<noteq> 201 then
        p_bind (p_say S (failed_line ''create endpoint'' status ep)) (\<lambda>_.
        p_return None)
      else
        p_bind (p_item ''id'' ep) (\<lambda>epid.
        p_bind (p_item ''hmac_secret'' ep) (\<lambda>stored.
        p_bind (p_lift (encoded stored)) (\<lambda>secret.
        p_bind (p_say S (''   -> Created Endpoint ID: '' @ py_str epid)) (\<lambda>_.
        p_bind (p_say S (''   -> HMAC Secret: '' @ py_str stored)) (\<lambda>_.
        p_bind (p_say S ''2. Creating failing route (pointing to non-existent port 54321)...'') (\<lambda>_.
        p_bind (dlq_request S (demo_routes_url epid) ''POST'' []
          (Some (demo_route ''Failing Destination'' ''/incoming-webhook'' 3 None @ [(''retry_backoff_ms'', JInt 500)]))) (\<lambda>(status, route).
        (if status \<noteq> 201 then
           p_bind (p_say S (failed_line ''create route'' status route)) (\<lambda>_.
           p_return None)
         else
           p_bind (p_print S (texts [Inr ''   -> Created Route ID: '', shown (item ''id'' route), Inr '' pointing to '', shown (item ''url'' route)])) (\<lambda>_.
           p_return (Some (epid, secret)))))))))))))"

definition demo_dlq_hook :: "'w shell \<Rightarrow> json \<Rightarrow> string \<Rightarrow> (unit, 'w) prog" where
  "demo_dlq_hook S epid secret =
     p_bind (p_say S ''3. Ingesting test payload at gateway...'') (\<lambda>_.
     p_bind (p_clock S) (\<lambda>now.
     let payload = [(''event_type'', JStr ''payment.failed''), (''error_code'', JStr ''card_declined''),
       (''simulation'', JStr ''dead-letter-queue''), (''timestamp'', JInt \<lfloor>now\<rfloor>)] in
     p_bind (p_clock S) (\<lambda>now.
     p_bind (dlq_request S (hook_url epid) ''POST''
       [(''x-hub-signature-256'', sign_payload secret (json_dumps (JObj payload))),
        (''idempotency-key'', ''demo-dlq-'' @ show_int \<lfloor>now\<rfloor>)] (Some payload)) (\<lambda>(status, answer).
     (if status \<noteq> 202 then p_say S (failed_line ''ingest'' status answer)
      else
        p_bind (p_say S (''   -> Gateway Response: '' @ py_str answer @ '' (HTTP '' @ show_int status @ '')'')) (\<lambda>_.
        p_bind (p_say S ''4. Waiting for delivery attempts and backoffs to exhaust...'') (\<lambda>_.
        p_bind (wait_seconds S) (\<lambda>_.
        p_lines S [''                       SUCCESS                               '',
          ''All delivery retries have been exhausted successfully!'',
          ''Open http://localhost:5173/dlq and click '' @ quoted ''Refresh'' @ '' to view it.'',
          ''You can try replaying or discarding it from the dashboard!'']))))))))"

definition demo_dlq :: "'w shell \<Rightarrow> (unit, 'w) prog" where
  "demo_dlq S =
     p_bind (p_lines S demo_dlq_banner) (\<lambda>_.
     p_bind (demo_dlq_setup S) (\<lambda>found.
     (case found of None \<Rightarrow> p_return () | Some (epid, secret) \<Rightarrow> demo_dlq_hook S epid secret)))"

section \<open>demo_webhook_site.py\<close>

definition demo_site_banner :: "string list" where
  "demo_site_banner =
     [''        DEMO 1: WEBHOOK.SITE REAL-TIME DELIVERY              '',
      ''This script will create a route targeting your Webhook.site   '',
      ''and deliver a webhook payload in real-time.'']"

definition demo_site_setup :: "'w shell \<Rightarrow> string \<Rightarrow> ((json \<times> string) option, 'w) prog" where
  "demo_site_setup S webhook_url =
     p_bind (p_say S ''1. Creating ingestion endpoint in database...'') (\<lambda>_.
     p_bind (site_request S (relay_url ''/api/endpoints/'') ''POST'' [] (Some [(''name'', JStr ''Webhook.site Ingestion Endpoint'')])) (\<lambda>(status, ep).
     (if status \<noteq> 201 then
        p_bind (p_say S (failed_line ''create endpoint'' status ep)) (\<lambda>_.
        p_return None)
      else
        p_bind (p_item ''id'' ep) (\<lambda>epid.
        p_bind (p_item ''hmac_secret'' ep) (\<lambda>stored.
        p_bind (p_lift (encoded stored)) (\<lambda>secret.
        p_bind (p_say S (''   -> Created Endpoint ID: '' @ py_str epid)) (\<lambda>_.
        p_bind (p_say S (''   -> HMAC Secret: '' @ py_str stored)) (\<lambda>_.
        p_bind (p_say S ''2. Creating delivery route pointing to Webhook.site...'') (\<lambda>_.
        p_bind (site_request S (demo_routes_url epid) ''POST'' []
          (Some [(''name'', JStr ''Webhook.site Destination''), (''url'', JStr webhook_url), (''method'', JStr ''POST''),
            (''timeout_ms'', JInt 5000), (''max_retries'', JInt 1)])) (\<lambda>(status, route).
        (if status \<noteq> 201 then
           p_bind (p_say S (failed_line ''create route'' status route)) (\<lambda>_.
           p_return None)
         else
           p_bind (p_print S (texts [Inr ''   -> Created Route ID: '', shown (item ''id'' route), Inr ('' pointing to '' @ webhook_url)])) (\<lambda>_.
           p_return (Some (epid, secret))))))))))))))"

definition demo_site_hook :: "'w shell \<Rightarrow> json \<Rightarrow> string \<Rightarrow> (unit, 'w) prog" where
  "demo_site_hook S epid secret =
     p_bind (p_say S ''3. Ingesting test payload at gateway...'') (\<lambda>_.
     p_bind (p_clock S) (\<lambda>now.
     let payload = [(''event_type'', JStr ''payment.succeeded''), (''amount'', JFloat ''299.99''),
       (''customer'', JObj [(''name'', JStr ''John Doe''), (''email'', JStr ''john@example.com'')]),
       (''timestamp'', JInt \<lfloor>now\<rfloor>)] in
     p_bind (p_clock S) (\<lambda>now.
     p_bind (site_request S (hook_url epid) ''POST''
       [(''x-hub-signature-256'', sign_payload secret (json_dumps (JObj payload))),
        (''idempotency-key'', ''demo-ws-'' @ show_int \<lfloor>now\<rfloor>)] (Some payload)) (\<lambda>(status, answer).
     (if status \<noteq> 202 then p_say S (failed_line ''ingest'' status answer)
      else
        p_bind (p_say S (''   -> Gateway Response: '' @ py_str answer @ '' (HTTP '' @ show_int status @ '')'')) (\<lambda>_.
        p_lines S [''                       SUCCESS                               '',
          ''The webhook ingestion task is successfully completed!'',
          ''Check your browser window at Webhook.site to see the payload.'',
          ''Check http://localhost:5173/events to view it in the app logs.'']))))))"

definition demo_webhook_site :: "'w shell \<Rightarrow> (unit, 'w) prog" where
  "demo_webhook_site S =
     p_bind (p_lines S demo_site_banner) (\<lambda>_.
     p_bind (p_input S ''Please paste your unique Webhook.site URL: '') (\<lambda>line.
     let webhook_url = py_strip is_space line in
     (if \<not> starts_with webhook_url ''http'' then p_say S ''Invalid URL format. Please start with http:// or https://''
      else
        p_bind (demo_site_setup S webhook_url) (\<lambda>found.
        (case found of None \<Rightarrow> p_return () | Some (epid, secret) \<Rightarrow> demo_site_hook S epid secret)))))"

section \<open>simulate_dlq.py\<close>

definition simulate_banner :: "string list" where
  "simulate_banner = [''=== Webhook Relay DLQ Event Generator ==='', ''1. Creating simulation endpoint...'']"

definition simulate_setup :: "'w shell \<Rightarrow> ((json \<times> string) option, 'w) prog" where
  "simulate_setup S =
     p_bind (simulate_request S (relay_url ''/api/endpoints/'') ''POST'' [] (Some [(''name'', JStr ''DLQ Simulation Endpoint'')])) (\<lambda>(status, ep).
     (if status \<noteq> 201 then
        p_bind (p_say S (failed_line ''create endpoint'' status ep)) (\<lambda>_.
        p_return None)
      else
        p_bind (p_item ''id'' ep) (\<lambda>epid.
        p_bind (p_item ''hmac_secret'' ep) (\<lambda>stored.
        p_bind (p_lift (encoded stored)) (\<lambda>secret.
        p_bind (p_say S (''Created Endpoint ID: '' @ py_str epid)) (\<lambda>_.
        p_bind (p_say S (''HMAC Secret: '' @ py_str stored)) (\<lambda>_.
        p_bind (p_say S ''2. Creating failing route...'') (\<lambda>_.
        p_bind (simulate_request S (demo_routes_url epid) ''POST'' []
          (Some (demo_route ''Failing Local Endpoint'' ''/incoming-webhook'' 3 None))) (\<lambda>(status, route).
        (if status \<noteq> 201 then
           p_bind (p_say S (failed_line ''create route'' status route)) (\<lambda>_.
           p_return None)
         else
           p_bind (p_print S (texts [Inr ''Created Route ID: '', shown (item ''id'' route), Inr '' pointing to '', shown (item ''url'' route)])) (\<lambda>_.
           p_return (Some (epid, secret)))))))))))))"

text \<open>The text of an \<open>HTTPError\<close>.\<close>

definition http_error_text :: "'w shell \<Rightarrow> http_reply \<Rightarrow> string" where
  "http_error_text S r = ''HTTP Error '' @ show_int (hp_status r) @ '': '' @ sh_reason S (hp_status r)"

definition simulate_wait :: "'w shell \<Rightarrow> (unit, 'w) prog" where
  "simulate_wait S =
     p_bind (p_say S ''4. Waiting for delivery attempts to fail and exhaust retries...'') (\<lambda>_.
     p_bind (p_each (\<lambda>i.
       p_bind (p_sleep S 1) (\<lambda>_.
       p_say S (''Waiting... '' @ show_int i @ ''s / 12s''))) [1..12]) (\<lambda>_.
     p_lines S [''=== Simulation Complete ==='', ''A failed delivery has been generated and retries have been exhausted.'',
       ''Go to http://localhost:5173/dlq and click '' @ quoted ''Refresh'' @ '' to see it in your browser!'',
       ''You can try replaying, discarding, or restoring the event directly from the dashboard.'']))"

definition simulate_hook :: "'w shell \<Rightarrow> json \<Rightarrow> string \<Rightarrow> (unit, 'w) prog" where
  "simulate_hook S epid secret =
     p_bind (p_say S ''3. Ingesting test webhook payload...'') (\<lambda>_.
     p_bind (p_clock S) (\<lambda>now.
     let raw_body = json_dumps (JObj [(''event'', JStr ''order.completed''), (''order_id'', JStr ''ord_998877''),
       (''amount_usd'', JFloat ''150.0''),
       (''customer'', JObj [(''name'', JStr ''Alice Smith''), (''email'', JStr ''alice@example.com'')]),
       (''simulation'', JStr ''dead-letter-queue''), (''generated_at'', JInt \<lfloor>now\<rfloor>)]) in
     p_bind (p_clock S) (\<lambda>now.
     let call = post_call (hook_url epid) [(''Content-Type'', ''application/json''),
       (''x-hub-signature-256'', sign_payload secret raw_body), (''idempotency-key'', ''dlq-event-'' @ show_int \<lfloor>now\<rfloor>)] (Raw raw_body) in
     p_bind (p_try (p_bind (p_http S call) (\<lambda>r. p_return (Inr r))) (\<lambda>e. p_return (Inl (exc_text e)))) (\<lambda>sent.
     (case sent of
        Inl msg \<Rightarrow> p_say S (''Error sending request to gateway: '' @ msg)
      | Inr r \<Rightarrow>
          if is_success r then
            p_bind (p_say S (''Gateway Response: '' @ hp_text r @ '' (HTTP '' @ show_int (hp_status r) @ '')'')) (\<lambda>_.
            simulate_wait S)
          else p_say S (''Error sending request to gateway: '' @ http_error_text S r))))))"

definition simulate_dlq :: "'w shell \<Rightarrow> (unit, 'w) prog" where
  "simulate_dlq S =
     p_bind (p_lines S simulate_banner) (\<lambda>_.
     p_bind (simulate_setup S) (\<lambda>found.
     (case found of None \<Rightarrow> p_return () | Some (epid, secret) \<Rightarrow> simulate_hook S epid secret)))"

section \<open>test_webhook.py\<close>

definition test_endpoint_id :: string where
  "test_endpoint_id = ''db8e870c-998c-4eee-a29b-2338c73fae86''"

definition test_secret :: string where
  "test_secret = ''1a7dbc16d484dbcd8744941d4b7d9edf8d164a8b3f80c554a752e4d43a447d0b''"

definition test_payload :: "time \<Rightarrow> dict" where
  "test_payload now =
     [(''event_type'', JStr ''payment.succeeded''), (''amount'', JInt 9900), (''currency'', JStr ''usd''),
      (''customer'', JStr ''cus_12345''), (''timestamp'', JInt \<lfloor>now\<rfloor>)]"

definition test_call :: "time \<Rightarrow> string \<Rightarrow> http_call" where
  "test_call now raw_body =
     post_call (relay_url (''/hooks/'' @ test_endpoint_id))
       [(''Content-Type'', ''application/json''), (''x-hub-signature-256'', sign_payload test_secret raw_body),
        (''idempotency-key'', ''test-idem-key-'' @ show_int \<lfloor>now\<rfloor>)] (Raw raw_body)"

definition test_webhook :: "'w shell \<Rightarrow> (unit, 'w) prog" where
  "test_webhook S =
     p_bind (p_clock S) (\<lambda>now.
     let raw_body = json_dumps (JObj (test_payload now)) in
     p_bind (p_lines S [''Sending payload to Endpoint: '' @ test_endpoint_id, ''Computed Signature: '' @ sign_payload test_secret raw_body]) (\<lambda>_.
     p_bind (p_clock S) (\<lambda>now.
     p_bind (p_try (p_bind (p_http S (test_call now raw_body)) (\<lambda>r. p_return (Inr r))) (\<lambda>e. p_return (Inl e))) (\<lambda>sent.
     (case sent of
        Inl e \<Rightarrow>
          if exc_name e = ''URLError''
          then p_say S ''Error: Could not connect to the gateway. Is the Docker container running?''
          else p_raise e
      | Inr r \<Rightarrow>
          if \<not> is_success r
          then p_lines S [''Gateway Error Status: '' @ show_int (hp_status r), ''Gateway Error Response: '' @ hp_text r]
          else
            p_bind (p_lines S [''Gateway Status: '' @ show_int (hp_status r), ''Gateway Response: '' @ hp_text r]) (\<lambda>_.
            (if hp_status r = 202
             then p_lines S [''Success! The webhook was accepted by the gateway.'',
               ''You should see it appear on your webhook.site page in a few milliseconds!'']
             else p_say S ''Hmm, something went wrong. Check the app logs.'')))))))"

section \<open>What the demonstrations do today\<close>

definition create_call :: "string \<Rightarrow> http_call" where
  "create_call nm = urllib_call (relay_url ''/api/endpoints/'') ''POST'' [] (Some [(''name'', JStr nm)])"

text \<open>The server is this application: a path that it has no route for is answered by the framework's 404.\<close>

definition unknown_paths_refused :: "'w shell \<Rightarrow> bool" where
  "unknown_paths_refused S \<longleftrightarrow>
     (\<forall>call w. resolve_route (hc_method call) (url_path (hc_url call)) = Not_Found \<longrightarrow>
        fst (sh_http S call w) = Inr not_found_reply)"

definition not_found_line :: string where
  "not_found_line = failed_line ''create endpoint'' 404 (JObj [(''detail'', JStr ''Not Found'')])"

text \<open>The world after the opening texts, one request and the line about its failure.\<close>

definition stopped :: "'w shell \<Rightarrow> string list \<Rightarrow> string \<Rightarrow> 'w \<Rightarrow> 'w" where
  "stopped S banner nm w = sh_print S not_found_line (snd (sh_http S (create_call nm) (fold (sh_print S) banner w)))"

lemma create_not_found: "resolve_route (hc_method (create_call nm)) (url_path (hc_url (create_call nm))) = Not_Found"
proof -
  have "resolve_route ''POST'' (url_path (relay_url ''/api/endpoints/'')) = Not_Found" by code_simp
  then show ?thesis by (simp add: create_call_def urllib_call_def)
qed

lemma not_found_json: "reply_json S not_found_reply = Inr (JObj [(''detail'', JStr ''Not Found'')])" "hp_status not_found_reply = 404"
  by (simp_all add: not_found_reply_def error_reply_def reply_json_def loads_dumps del: json_dumps.simps)

lemma create_refused:
  assumes "unknown_paths_refused S"
  shows "demo_request S (relay_url ''/api/endpoints/'') ''POST'' [] (Some [(''name'', JStr nm)]) w =
      (Inr (404, JObj [(''detail'', JStr ''Not Found'')]), snd (sh_http S (create_call nm) w))"
    and "simulate_request S (relay_url ''/api/endpoints/'') ''POST'' [] (Some [(''name'', JStr nm)]) w =
      (Inr (404, JObj [(''detail'', JStr ''Not Found'')]), snd (sh_http S (create_call nm) w))"
proof -
  have "fst (sh_http S (create_call nm) w) = Inr not_found_reply"
    using assms create_not_found unfolding unknown_paths_refused_def by blast
  then obtain w' where "sh_http S (create_call nm) w = (Inr not_found_reply, w')" by (metis prod.collapse)
  then show "demo_request S (relay_url ''/api/endpoints/'') ''POST'' [] (Some [(''name'', JStr nm)]) w =
      (Inr (404, JObj [(''detail'', JStr ''Not Found'')]), snd (sh_http S (create_call nm) w))"
    and "simulate_request S (relay_url ''/api/endpoints/'') ''POST'' [] (Some [(''name'', JStr nm)]) w =
      (Inr (404, JObj [(''detail'', JStr ''Not Found'')]), snd (sh_http S (create_call nm) w))"
    by (simp_all add: demo_request_def simulate_request_def create_call_def is_success_def error_answer_def not_found_json)
qed

lemmas demo_run = prog_defs p_lines_def create_refused stopped_def not_found_line_def dlq_request_def site_request_def


text \<open>A terminal: the world is the list of the lines printed, the last one first.\<close>

definition ex_terminal :: "string list shell" where
  "ex_terminal =
     \<lparr>sh_http = (\<lambda>call w. (if resolve_route (hc_method call) (url_path (hc_url call)) = Not_Found then Inr not_found_reply
                            else Inl (OtherError ''URLError'' []), w)),
      sh_docker = (\<lambda>args w. (Inr (0, []), w)), sh_connect = (\<lambda>w. (Inr (), w)), sh_fetch = (\<lambda>q ps w. (Inr [], w)),
      sh_hex = (\<lambda>w. ([], w)), sh_clock = (\<lambda>w. 0), sh_sleep = (\<lambda>t w. w), sh_print = Cons,
      sh_input = (\<lambda>s w. ([], w)), sh_float = id, sh_reason = (\<lambda>code. [])\<rparr>"


end
