(* ===== verification/Chaos_Suite.thy ===== *)
theory Chaos_Suite
  imports Client_Shell
begin

text \<open>
  The chaos suite \<open>chaos/chaos_suite.py\<close>, the load script \<open>chaos/flood.py\<close> and the collector
  \<open>chaos/collector.py\<close>.  Time is exact.  Log lines of the collector are left out; an icon is the name of its constant.
\<close>

section \<open>Configuration and helpers\<close>

record chaos_config =
  cv_base :: string
  cv_collector :: string
  cv_compose :: string
  cv_secret :: string

text \<open>The module's constants, by the environment.\<close>

definition env_or :: "(string \<Rightarrow> string option) \<Rightarrow> string \<Rightarrow> string \<Rightarrow> string" where
  "env_or environ nm dflt = (case environ nm of Some v \<Rightarrow> v | None \<Rightarrow> dflt)"

definition chaos_constants :: "'w shell \<Rightarrow> (string \<Rightarrow> string option) \<Rightarrow> (chaos_config, 'w) prog" where
  "chaos_constants S environ =
     p_bind (p_hex S) (\<lambda>hex.
     p_return \<lparr>cv_base = env_or environ ''CHAOS_BASE_URL'' ''http://localhost:8000'',
       cv_collector = env_or environ ''CHAOS_COLLECTOR_URL'' ''http://localhost:9999'',
       cv_compose = env_or environ ''CHAOS_COMPOSE_FILE'' ''docker-compose.dev.yml'',
       cv_secret = ''chaos-suite-secret-'' @ take 16 hex\<rparr>)"

definition log_text :: "string \<Rightarrow> string \<Rightarrow> string" where
  "log_text msg icon = ''  '' @ icon @ ''  '' @ msg"

definition log_icon :: "'w shell \<Rightarrow> string \<Rightarrow> string \<Rightarrow> (unit, 'w) prog" where
  "log_icon S msg icon = p_say S (log_text msg icon)"

definition log_msg :: "'w shell \<Rightarrow> string \<Rightarrow> (unit, 'w) prog" where
  "log_msg S msg = log_icon S msg ''INFO''"

definition log_parts :: "'w shell \<Rightarrow> string res list \<Rightarrow> string \<Rightarrow> (unit, 'w) prog" where
  "log_parts S parts icon = p_print S (bind_res (texts parts) (\<lambda>msg. Inr (log_text msg icon)))"

definition divider :: "'w shell \<Rightarrow> string \<Rightarrow> (unit, 'w) prog" where
  "divider S title =
     (let n = max 0 (72 - int (length title) - 4)
      in p_say S (''-- '' @ title @ '' '' @ replicate (nat n) CHR ''-''))"

definition docker_compose :: "'w shell \<Rightarrow> chaos_config \<Rightarrow> string list \<Rightarrow> (int \<times> string, 'w) prog" where
  "docker_compose S C args = p_docker S ([''docker'', ''compose'', ''-f'', cv_compose C] @ args)"

definition healthcheck :: "'w shell \<Rightarrow> string \<Rightarrow> (bool, 'w) prog" where
  "healthcheck S url =
     p_try (p_bind (p_http S (get_call (url @ ''/health'') [])) (\<lambda>r. p_return (hp_status r = 200))) (\<lambda>e. p_return False)"

text \<open>The loop of \<open>wait_for_health\<close>, with a bound on its passes.\<close>

definition no_fuel :: exc where
  "no_fuel = OtherError ''Fuel'' []"

fun wait_loop :: "'w shell \<Rightarrow> string \<Rightarrow> time \<Rightarrow> nat \<Rightarrow> (bool, 'w) prog" where
  "wait_loop S url deadline 0 w = (Inl no_fuel, w)"
| "wait_loop S url deadline (Suc n) w =
     (if sh_clock S w < deadline
      then (case healthcheck S url w of
              (Inl e, w1) \<Rightarrow> (Inl e, w1)
            | (Inr up, w1) \<Rightarrow> if up then (Inr True, w1) else wait_loop S url deadline n (sh_sleep S 2 w1))
      else (Inr False, w))"

definition wait_fuel :: "rat \<Rightarrow> nat" where
  "wait_fuel timeout = Suc (nat \<lceil>timeout / 2\<rceil>)"

definition wait_for_health :: "'w shell \<Rightarrow> string \<Rightarrow> rat \<Rightarrow> (bool, 'w) prog" where
  "wait_for_health S url timeout w = wait_loop S url (sh_clock S w + timeout) (wait_fuel timeout) w"

section \<open>Results\<close>

record chaos_result =
  cr_name :: string
  cr_passed :: bool
  cr_details :: string

definition chaos_run :: "'w shell \<Rightarrow> string \<Rightarrow> (unit, 'w) prog \<Rightarrow> (chaos_result, 'w) prog" where
  "chaos_run S nm fn =
     p_bind (log_msg S (''Running: '' @ nm)) (\<lambda>_.
     p_try
       (p_bind fn (\<lambda>_.
       p_bind (log_icon S ''PASSED'' ''PASS'') (\<lambda>_.
       p_return \<lparr>cr_name = nm, cr_passed = True, cr_details = []\<rparr>)))
       (\<lambda>e.
        p_bind (log_icon S (''FAILED: '' @ exc_text e) ''FAIL'') (\<lambda>_.
        p_return \<lparr>cr_name = nm, cr_passed = False, cr_details = exc_text e\<rparr>)))"

section \<open>The baseline\<close>

record chaos_ctx =
  cx_token :: json
  cx_headers :: "(string \<times> string) list"
  cx_workspace_id :: json
  cx_endpoint :: json
  cx_secret :: string

definition chaos_payload :: "string \<Rightarrow> int option \<Rightarrow> string" where
  "chaos_payload ev seq =
     json_dumps (JObj ([(''event'', JStr ev)] @ (case seq of None \<Rightarrow> [] | Some i \<Rightarrow> [(''seq'', JInt i)])))"

definition chaos_hook :: "chaos_config \<Rightarrow> json \<Rightarrow> string \<Rightarrow> string \<Rightarrow> (string \<times> string) list \<Rightarrow> http_call" where
  "chaos_hook C epid secret payload extra =
     post_call (cv_base C @ ''/hooks/'' @ py_str epid) ([(''x-hub-signature-256'', sign_payload secret payload)] @ extra) (Raw payload)"

definition chaos_password :: string where
  "chaos_password = ''ChaosTest123!''"

definition baseline_token :: "'w shell \<Rightarrow> chaos_config \<Rightarrow> (json, 'w) prog" where
  "baseline_token S C =
     p_bind (p_hex S) (\<lambda>hex.
     let email = ''chaos-'' @ take 8 hex @ ''@test.local'' in
     p_bind (p_http S (json_call ''POST'' (cv_base C @ ''/api/auth/register'') []
       [(''email'', JStr email), (''password'', JStr chaos_password), (''display_name'', JStr ''Chaos Tester'')])) (\<lambda>r.
     p_bind (p_assert (hp_status r \<in> {201, 409}) (''Register failed: '' @ hp_text r)) (\<lambda>_.
     (if hp_status r = 201 then p_bind (p_json S r) (p_item ''access_token'')
      else
        p_bind (p_http S (json_call ''POST'' (cv_base C @ ''/api/auth/login'') []
          [(''email'', JStr email), (''password'', JStr chaos_password)])) (\<lambda>r.
        p_bind (p_json S r) (\<lambda>reply.
        p_item ''access_token'' reply))))))"

definition baseline_route_call :: "chaos_config \<Rightarrow> (string \<times> string) list \<Rightarrow> json \<Rightarrow> json \<Rightarrow> http_call" where
  "baseline_route_call C headers wsid epid =
     json_call ''POST'' (cv_base C @ ''/api/workspaces/'' @ py_str wsid @ ''/endpoints/'' @ py_str epid @ ''/routes'') headers
       [(''url'', JStr ''http://host.docker.internal:9999''), (''name'', JStr ''chaos-collector'')]"

definition test_baseline :: "'w shell \<Rightarrow> chaos_config \<Rightarrow> (chaos_ctx, 'w) prog" where
  "test_baseline S C =
     p_bind (healthcheck S (cv_base C)) (\<lambda>up.
     p_bind (p_assert up ''App not reachable'') (\<lambda>_.
     p_bind (healthcheck S (cv_collector C)) (\<lambda>up.
     p_bind (p_assert up ''Collector not reachable'') (\<lambda>_.
     p_bind (baseline_token S C) (\<lambda>token.
     let headers = bearer token in
     p_bind (p_http S (get_call (cv_base C @ ''/api/workspaces/'') headers)) (\<lambda>r.
     p_bind (p_json S r) (\<lambda>workspace_list.
     p_bind (p_lift (first_item workspace_list)) (\<lambda>ws.
     p_bind (p_item ''id'' ws) (\<lambda>wsid.
     let secret = cv_secret C in
     p_bind (p_http S (json_call ''POST'' (cv_base C @ ''/api/workspaces/'' @ py_str wsid @ ''/endpoints'') headers
       [(''name'', JStr ''Chaos Baseline EP''), (''hmac_secret'', JStr secret)])) (\<lambda>r.
     p_bind (p_assert (hp_status r = 201) (''Endpoint create failed: '' @ hp_text r)) (\<lambda>_.
     p_bind (p_json S r) (\<lambda>ep.
     p_bind (p_item ''id'' ep) (\<lambda>epid.
     p_bind (p_http S (baseline_route_call C headers wsid epid)) (\<lambda>r.
     p_bind (p_assert (hp_status r = 201) (''Route create failed: '' @ hp_text r)) (\<lambda>_.
     p_bind (p_http S (chaos_hook C epid secret (chaos_payload ''baseline.test'' (Some 0)) [])) (\<lambda>r.
     p_bind (p_assert (hp_status r = 202) (''Webhook failed: '' @ hp_text r)) (\<lambda>_.
     p_bind (log_parts S [Inr ''Webhook accepted: '', shown (reply_json S r)] ''PASS'') (\<lambda>_.
     p_return \<lparr>cx_token = token, cx_headers = headers, cx_workspace_id = wsid, cx_endpoint = ep, cx_secret = secret\<rparr>))))))))))))))))))"

section \<open>Killing the outbox relay\<close>

definition compose_ok :: "'w shell \<Rightarrow> chaos_config \<Rightarrow> string \<Rightarrow> string \<Rightarrow> (unit, 'w) prog" where
  "compose_ok S C verb service =
     p_bind (docker_compose S C [verb, service]) (\<lambda>(code, err).
     p_assert (code = 0) (''docker '' @ verb @ '' failed: '' @ err))"

definition send_hook :: "'w shell \<Rightarrow> chaos_config \<Rightarrow> chaos_ctx \<Rightarrow> string \<Rightarrow> (string \<times> string) list \<Rightarrow> (http_reply, 'w) prog" where
  "send_hook S C ctx payload extra =
     p_bind (p_item ''id'' (cx_endpoint ctx)) (\<lambda>epid.
     p_http S (chaos_hook C epid (cx_secret ctx) payload extra))"

definition send_accepted :: "'w shell \<Rightarrow> chaos_config \<Rightarrow> chaos_ctx \<Rightarrow> string \<Rightarrow> int \<Rightarrow> (json, 'w) prog" where
  "send_accepted S C ctx ev i =
     p_bind (send_hook S C ctx (chaos_payload ev (Some i)) []) (\<lambda>r.
     p_bind (p_assert (hp_status r = 202) (''Webhook '' @ show_int i @ '' failed: '' @ hp_text r)) (\<lambda>_.
     p_bind (p_json S r) (\<lambda>reply.
     p_item ''event_id'' reply)))"

definition outbox_query :: string where
  "outbox_query = ''SELECT status FROM outbox_records WHERE event_id = $1''"

definition row_status :: "dict \<Rightarrow> json res" where
  "row_status row = item ''status'' (JObj row)"

definition fetch_status :: "'w shell \<Rightarrow> string \<Rightarrow> json \<Rightarrow> string res \<Rightarrow> (json, 'w) prog" where
  "fetch_status S query eid missing =
     p_bind (p_lift (json_uuid eid)) (\<lambda>i.
     p_bind (p_fetchrow S query [i]) (\<lambda>row.
     (case row of
        None \<Rightarrow> p_bind (p_lift missing) (\<lambda>msg. p_raise (OtherError ''AssertionError'' msg))
      | Some cols \<Rightarrow> p_lift (row_status cols))))"

definition expect_pending :: "'w shell \<Rightarrow> string \<Rightarrow> (json \<Rightarrow> string res) \<Rightarrow> json \<Rightarrow> (unit, 'w) prog" where
  "expect_pending S query missing eid =
     p_bind (fetch_status S query eid (missing eid)) (\<lambda>status.
     p_assert (status = JStr ''pending'') (''Expected pending, got '' @ py_str status))"

definition record_missing :: "json \<Rightarrow> string res" where
  "record_missing eid = Inr (''Outbox record missing for '' @ py_str eid)"

definition expect_completed :: "'w shell \<Rightarrow> json \<Rightarrow> (unit, 'w) prog" where
  "expect_completed S eid =
     p_bind (fetch_status S outbox_query eid (record_missing eid)) (\<lambda>status.
     p_bind ((if status = JStr ''completed'' then p_return status
       else
         p_bind (log_parts S [Inr ''Event '', shown (head_of 8 eid), Inr ('' still '' @ py_str status @ '', waiting...'')] ''INFO'') (\<lambda>_.
         p_bind (p_sleep S 3) (\<lambda>_.
         p_bind (p_lift (json_uuid eid)) (\<lambda>i.
         p_bind (p_fetchrow S outbox_query [i]) (\<lambda>row.
         p_lift (case row of None \<Rightarrow> Inl (TypeError ''object is not subscriptable'') | Some cols \<Rightarrow> row_status cols))))))) (\<lambda>status.
     p_assert (status = JStr ''completed'') (''Expected completed, got '' @ py_str status)))"

definition test_kill_outbox_relay :: "'w shell \<Rightarrow> chaos_config \<Rightarrow> chaos_ctx \<Rightarrow> (unit, 'w) prog" where
  "test_kill_outbox_relay S C ctx =
     p_bind (log_msg S ''Stopping outbox-relay container...'') (\<lambda>_.
     p_bind (compose_ok S C ''stop'' ''outbox-relay'') (\<lambda>_.
     p_bind (p_sleep S 2) (\<lambda>_.
     p_bind (p_each (send_accepted S C ctx ''chaos.outbox-kill'') [0..4]) (\<lambda>sent.
     p_bind (log_msg S (''Sent '' @ show_nat (length sent) @ '' events while relay was down'')) (\<lambda>_.
     p_bind (p_connect S) (\<lambda>_.
     p_bind (p_each (expect_pending S outbox_query record_missing) sent) (\<lambda>_.
     p_bind (log_icon S (''All outbox records are '' @ quoted ''pending'' @ '' while relay is down'') ''PASS'') (\<lambda>_.
     p_bind (log_msg S ''Starting outbox-relay container...'') (\<lambda>_.
     p_bind (compose_ok S C ''start'' ''outbox-relay'') (\<lambda>_.
     p_bind (p_sleep S 5) (\<lambda>_.
     p_bind (p_connect S) (\<lambda>_.
     p_bind (p_each (expect_completed S) sent) (\<lambda>_.
     log_icon S (''All outbox records drained to '' @ quoted ''completed'') ''PASS'')))))))))))))"

section \<open>Killing the delivery worker\<close>

definition attempt_query :: string where
  "attempt_query = ''SELECT response_status, error FROM delivery_attempts WHERE event_id = $1 ORDER BY attempted_at DESC LIMIT 1''"

definition test_kill_delivery_worker :: "'w shell \<Rightarrow> chaos_config \<Rightarrow> chaos_ctx \<Rightarrow> (unit, 'w) prog" where
  "test_kill_delivery_worker S C ctx =
     p_bind (log_msg S ''Stopping delivery-worker container...'') (\<lambda>_.
     p_bind (compose_ok S C ''stop'' ''delivery-worker'') (\<lambda>_.
     p_bind (p_sleep S 2) (\<lambda>_.
     p_bind (send_hook S C ctx (chaos_payload ''chaos.delivery-kill'' (Some 0)) []) (\<lambda>r.
     p_bind (p_assert (hp_status r = 202) []) (\<lambda>_.
     p_bind (p_json S r) (\<lambda>reply.
     p_bind (p_item ''event_id'' reply) (\<lambda>event_id.
     p_bind (log_parts S [Inr ''Event '', shown (head_of 8 event_id), Inr '' accepted while delivery-worker was down''] ''INFO'') (\<lambda>_.
     p_bind (log_msg S ''Starting delivery-worker container...'') (\<lambda>_.
     p_bind (compose_ok S C ''start'' ''delivery-worker'') (\<lambda>_.
     p_bind (p_sleep S 5) (\<lambda>_.
     p_bind (p_connect S) (\<lambda>_.
     p_bind (p_lift (json_uuid event_id)) (\<lambda>i.
     p_bind (p_fetchrow S attempt_query [i]) (\<lambda>row.
     (case row of
        None \<Rightarrow> p_raise (OtherError ''AssertionError'' ''No delivery attempt recorded'')
      | Some cols \<Rightarrow>
          p_bind (p_item ''response_status'' (JObj cols)) (\<lambda>status.
          p_bind ((if status = JInt 200 then p_return ()
           else p_bind (p_item ''error'' (JObj cols)) (\<lambda>err. p_raise (OtherError ''AssertionError'' (''Delivery failed: '' @ py_str err))))) (\<lambda>_.
          log_icon S (''Delivery succeeded (HTTP '' @ py_str status @ '')'') ''PASS'')))))))))))))))))"

section \<open>Kafka, PostgreSQL and Redis down\<close>

definition event_query :: string where
  "event_query = ''SELECT status FROM events WHERE id = $1''"

definition event_missing :: "json \<Rightarrow> string res" where
  "event_missing eid = texts [Inr ''Event '', shown (head_of 8 eid), Inr '' not found'']"

definition test_kafka_down :: "'w shell \<Rightarrow> chaos_config \<Rightarrow> chaos_ctx \<Rightarrow> (unit, 'w) prog" where
  "test_kafka_down S C ctx =
     p_bind (log_msg S ''Stopping Kafka container...'') (\<lambda>_.
     p_bind (compose_ok S C ''stop'' ''kafka'') (\<lambda>_.
     p_bind (p_sleep S 3) (\<lambda>_.
     p_bind (p_each (send_accepted S C ctx ''chaos.kafka-down'') [0..2]) (\<lambda>sent.
     p_bind (log_msg S (''Sent '' @ show_nat (length sent) @ '' events while Kafka was down'')) (\<lambda>_.
     p_bind (p_connect S) (\<lambda>_.
     p_bind (p_each (expect_pending S event_query event_missing) sent) (\<lambda>_.
     p_bind (log_icon S (''All events persisted in '' @ quoted ''pending'' @ '' state'') ''PASS'') (\<lambda>_.
     p_bind (log_msg S ''Starting Kafka container...'') (\<lambda>_.
     p_bind (compose_ok S C ''start'' ''kafka'') (\<lambda>_.
     p_bind (log_msg S ''Waiting for Kafka to become healthy...'') (\<lambda>_.
     p_bind (p_sleep S 15) (\<lambda>_.
     p_bind (log_msg S ''Restarting outbox-relay...'') (\<lambda>_.
     p_bind (docker_compose S C [''restart'', ''outbox-relay'']) (\<lambda>_.
     p_sleep S 5))))))))))))))"

definition test_postgres_down :: "'w shell \<Rightarrow> chaos_config \<Rightarrow> chaos_ctx \<Rightarrow> (unit, 'w) prog" where
  "test_postgres_down S C ctx =
     p_bind (log_msg S ''Stopping PostgreSQL container...'') (\<lambda>_.
     p_bind (compose_ok S C ''stop'' ''postgres'') (\<lambda>_.
     p_bind (p_sleep S 3) (\<lambda>_.
     p_bind (send_hook S C ctx (chaos_payload ''chaos.pg-down'' None) []) (\<lambda>r.
     p_bind (log_msg S (''Gateway returned '' @ show_int (hp_status r) @ '' while PostgreSQL was down'')) (\<lambda>_.
     p_bind (p_assert (hp_status r \<in> {500, 502, 503}) (''Expected 5xx, got '' @ show_int (hp_status r))) (\<lambda>_.
     p_bind (log_icon S ''Gateway correctly returns error when DB is down'' ''PASS'') (\<lambda>_.
     p_bind (log_msg S ''Starting PostgreSQL container...'') (\<lambda>_.
     p_bind (compose_ok S C ''start'' ''postgres'') (\<lambda>_.
     p_bind (log_msg S ''Waiting for PostgreSQL to become healthy...'') (\<lambda>_.
     p_bind (p_sleep S 10) (\<lambda>_.
     p_bind (wait_for_health S (cv_base C) 60) (\<lambda>up.
     p_bind (p_assert up ''App did not recover after DB restart'') (\<lambda>_.
     log_icon S ''Gateway recovered after PostgreSQL restart'' ''PASS'')))))))))))))"

definition hyphenated :: "string \<Rightarrow> string" where
  "hyphenated h = take 8 h @ ''-'' @ take 4 (drop 8 h) @ ''-'' @ take 4 (drop 12 h) @ ''-'' @ take 4 (drop 16 h) @ ''-'' @ drop 20 h"

definition test_redis_down :: "'w shell \<Rightarrow> chaos_config \<Rightarrow> chaos_ctx \<Rightarrow> (unit, 'w) prog" where
  "test_redis_down S C ctx =
     p_bind (log_msg S ''Stopping Redis container...'') (\<lambda>_.
     p_bind (compose_ok S C ''stop'' ''redis'') (\<lambda>_.
     p_bind (p_sleep S 3) (\<lambda>_.
     p_bind (p_hex S) (\<lambda>hex.
     p_bind (send_hook S C ctx (chaos_payload ''chaos.redis-down'' None) [(''x-idempotency-key'', ''chaos-'' @ hyphenated hex)]) (\<lambda>r.
     p_bind (log_msg S (''Gateway returned '' @ show_int (hp_status r) @ '' while Redis was down (may be expected)'')) (\<lambda>_.
     p_bind (log_msg S ''Starting Redis container...'') (\<lambda>_.
     p_bind (compose_ok S C ''start'' ''redis'') (\<lambda>_.
     p_bind (p_sleep S 5) (\<lambda>_.
     p_bind (wait_for_health S (cv_base C) 30) (\<lambda>up.
     p_bind (p_assert up ''App did not recover after Redis restart'') (\<lambda>_.
     log_icon S ''Gateway recovered after Redis restart'' ''PASS'')))))))))))"

section \<open>Load and idempotency\<close>

definition send_one :: "'w shell \<Rightarrow> chaos_config \<Rightarrow> chaos_ctx \<Rightarrow> int \<Rightarrow> (int \<times> int \<times> json, 'w) prog" where
  "send_one S C ctx seq =
     p_bind (send_hook S C ctx (chaos_payload ''chaos.flood'' (Some seq)) []) (\<lambda>r.
     p_bind (p_json S r) (\<lambda>reply.
     p_bind (p_lift (get_item ''event_id'' (JStr []) reply)) (\<lambda>event_id.
     p_return (seq, hp_status r, event_id))))"

definition per_second :: "int \<Rightarrow> rat \<Rightarrow> rat res" where
  "per_second n elapsed =
     (if elapsed = 0 then Inl (OtherError ''ZeroDivisionError'' ''float division by zero'') else Inr (of_int n / elapsed))"

definition test_flood_5000 :: "'w shell \<Rightarrow> chaos_config \<Rightarrow> chaos_ctx \<Rightarrow> (unit, 'w) prog" where
  "test_flood_5000 S C ctx =
     p_bind (p_clock S) (\<lambda>start.
     p_bind (p_gather (send_one S C ctx) [0..4999]) (\<lambda>results.
     p_bind (p_clock S) (\<lambda>stop.
     let elapsed = stop - start; good = length (filter (\<lambda>(i, s, e). s = 202) results) in
     p_bind (p_lift (per_second 5000 elapsed)) (\<lambda>rate.
     p_bind (log_msg S (show_nat good @ ''/5000 accepted in '' @ fixed1 elapsed @ ''s ('' @ fixed0 rate @ ''/s)'')) (\<lambda>_.
     p_bind (p_assert (4800 \<le> good) (''Only '' @ show_nat good @ ''/5000 accepted -- throughput too low'')) (\<lambda>_.
     log_icon S (''Flood test passed at '' @ fixed0 rate @ '' events/sec'') ''PASS''))))))"

definition count_status :: "'w shell \<Rightarrow> string \<Rightarrow> http_reply list \<Rightarrow> nat res" where
  "count_status S wanted replies =
     bind_res (each_res (\<lambda>r. bind_res (reply_json S r) (get_item ''status'' JNull)) replies) (\<lambda>statuses.
       Inr (length (filter (\<lambda>s. s = JStr wanted) statuses)))"

definition test_idempotency_under_chaos :: "'w shell \<Rightarrow> chaos_config \<Rightarrow> chaos_ctx \<Rightarrow> (unit, 'w) prog" where
  "test_idempotency_under_chaos S C ctx =
     p_bind (p_hex S) (\<lambda>hex.
     let idem_key = ''chaos-idem-'' @ take 12 hex; payload = chaos_payload ''chaos.idempotency'' None in
     p_bind (p_gather (\<lambda>_. send_hook S C ctx payload [(''x-idempotency-key'', idem_key)]) [0..<10]) (\<lambda>results.
     p_bind (p_lift (count_status S ''accepted'' results)) (\<lambda>acc.
     p_bind (p_lift (count_status S ''duplicate'' results)) (\<lambda>dupes.
     p_bind (log_msg S (''Idempotency: '' @ show_nat acc @ '' accepted, '' @ show_nat dupes @ '' duplicates'')) (\<lambda>_.
     p_bind (p_assert (acc = 1) (''Expected exactly 1 accepted, got '' @ show_nat acc)) (\<lambda>_.
     p_bind (p_assert (dupes = 9) (''Expected 9 duplicates, got '' @ show_nat dupes)) (\<lambda>_.
     log_icon S ''Idempotency guarantees hold under concurrent chaos'' ''PASS'')))))))"

section \<open>Crash halfway through a batch\<close>

definition batch_query :: string where
  "batch_query = ''SELECT event_id, status FROM outbox_records WHERE event_id = ANY($1)''"

definition fetch_statuses :: "'w shell \<Rightarrow> json list \<Rightarrow> ((string \<times> json) list, 'w) prog" where
  "fetch_statuses S eids =
     p_bind (p_lift (each_res json_uuid eids)) (\<lambda>ids.
     p_bind (p_fetch S batch_query ids) (\<lambda>rows.
     p_bind (p_lift (each_res (\<lambda>row. bind_res (shown (item ''event_id'' (JObj row))) (\<lambda>i.
       bind_res (row_status row) (\<lambda>s. Inr (i, s)))) rows)) (\<lambda>pairs.
     p_return (fold (\<lambda>(i, s) acc. AList.update i s acc) pairs []))))"

definition has_status :: "(string \<times> json) list \<Rightarrow> string \<Rightarrow> json \<Rightarrow> bool" where
  "has_status statuses wanted eid \<longleftrightarrow> map_of statuses (py_str eid) = Some (JStr wanted)"

text \<open>One pass of the waiting loop; \<open>completed_now\<close> is a number there.\<close>

definition drain_pass :: "'w shell \<Rightarrow> json list \<Rightarrow> json list \<Rightarrow> (json list, 'w) prog" where
  "drain_pass S sent waiting =
     p_bind (p_sleep S 3) (\<lambda>_.
     p_bind (fetch_statuses S waiting) (\<lambda>statuses.
     let still = filter (\<lambda>eid. \<not> has_status statuses ''completed'' eid) waiting;
       completed_now = JInt (int (length (filter (has_status statuses ''completed'') sent))) in
     p_bind (log_parts S [Inr ''  Draining... '', shown_len completed_now, Inr ('' completed, '' @ show_nat (length still) @ '' remaining'')] ''INFO'') (\<lambda>_.
     p_return still)))"

fun drain_loop :: "'w shell \<Rightarrow> json list \<Rightarrow> time \<Rightarrow> nat \<Rightarrow> json list \<Rightarrow> (json list, 'w) prog" where
  "drain_loop S sent deadline 0 waiting w = (Inl no_fuel, w)"
| "drain_loop S sent deadline (Suc n) waiting w =
     (if waiting \<noteq> [] \<and> sh_clock S w < deadline
      then p_bind (drain_pass S sent waiting) (drain_loop S sent deadline n) w
      else (Inr waiting, w))"

definition await_drain :: "'w shell \<Rightarrow> json list \<Rightarrow> json list \<Rightarrow> (unit, 'w) prog" where
  "await_drain S sent waiting =
     p_bind (p_clock S) (\<lambda>now.
     p_bind (drain_loop S sent (now + 30) 11 waiting) (\<lambda>still.
     p_bind (p_assert (still = []) (show_nat (length still) @ '' events still pending after timeout'')) (\<lambda>_.
     log_icon S ''All 20 events drained to completed'' ''PASS'')))"

definition test_outbox_halfway_crash :: "'w shell \<Rightarrow> chaos_config \<Rightarrow> chaos_ctx \<Rightarrow> (unit, 'w) prog" where
  "test_outbox_halfway_crash S C ctx =
     p_bind (log_msg S ''Sending 20 events...'') (\<lambda>_.
     p_bind (p_each (\<lambda>i.
       p_bind (send_hook S C ctx (chaos_payload ''chaos.halfway'' (Some i)) []) (\<lambda>r.
       p_bind (p_json S r) (\<lambda>reply.
       p_item ''event_id'' reply))) [0..19]) (\<lambda>sent.
     p_bind (p_sleep S 3) (\<lambda>_.
     p_bind (p_connect S) (\<lambda>_.
     p_bind (fetch_statuses S sent) (\<lambda>statuses.
     let waiting = filter (has_status statuses ''pending'') sent; done_ones = filter (has_status statuses ''completed'') sent in
     p_bind (log_msg S (show_nat (length done_ones) @ '' completed, '' @ show_nat (length waiting) @ '' pending after initial drain'')) (\<lambda>_.
     await_drain S sent waiting))))))"

section \<open>The runner\<close>

definition chaos_tests :: "'w shell \<Rightarrow> chaos_config \<Rightarrow> chaos_ctx \<Rightarrow> (string \<times> (unit, 'w) prog) list" where
  "chaos_tests S C ctx =
     [(''Kill outbox-relay mid-stream'', test_kill_outbox_relay S C ctx),
      (''Kill delivery-worker mid-stream'', test_kill_delivery_worker S C ctx),
      (''Kafka goes down -- events still accepted'', test_kafka_down S C ctx),
      (''PostgreSQL goes down -- gateway errors gracefully'', test_postgres_down S C ctx),
      (''Redis goes down -- graceful degradation'', test_redis_down S C ctx),
      (''Flood 5000 events at 100 concurrency'', test_flood_5000 S C ctx),
      (''Idempotency under concurrent chaos'', test_idempotency_under_chaos S C ctx),
      (''Outbox relay halfway crash -- full drain'', test_outbox_halfway_crash S C ctx)]"

definition run_test :: "'w shell \<Rightarrow> string \<times> (unit, 'w) prog \<Rightarrow> (chaos_result, 'w) prog" where
  "run_test S test =
     p_bind (divider S (fst test)) (\<lambda>_.
     p_try (chaos_run S (fst test) (snd test))
       (\<lambda>e. p_return \<lparr>cr_name = fst test, cr_passed = False, cr_details = exc_text e\<rparr>))"

definition chaos_summary :: "'w shell \<Rightarrow> chaos_result list \<Rightarrow> (bool, 'w) prog" where
  "chaos_summary S results =
     p_bind (divider S ''CHAOS SUITE SUMMARY'') (\<lambda>_.
     let passed = length (filter cr_passed results); failed = filter (\<lambda>r. \<not> cr_passed r) results in
     p_bind (log_msg S (show_nat passed @ ''/'' @ show_nat (length results) @ '' tests passed'')) (\<lambda>_.
     p_bind ((if failed \<noteq> [] then
        p_bind (log_icon S (show_nat (length failed) @ '' tests FAILED:'') ''FAIL'') (\<lambda>_.
        p_bind (p_each (\<lambda>f. log_icon S (''  - '' @ cr_name f @ '': '' @ cr_details f) ''FAIL'') failed) (\<lambda>_.
        p_return ()))
      else log_icon S ''All chaos tests passed!'' ''PASS'')) (\<lambda>_.
     p_return (failed = []))))"

definition chaos_heading :: "'w shell \<Rightarrow> chaos_config \<Rightarrow> (unit, 'w) prog" where
  "chaos_heading S C =
     p_bind (divider S ''CHAOS ENGINEERING SUITE'') (\<lambda>_.
     p_bind (log_msg S (''Target: '' @ cv_base C)) (\<lambda>_.
     p_bind (log_msg S (''Compose: '' @ cv_compose C)) (\<lambda>_.
     p_bind (log_msg S (''Collector: '' @ cv_collector C)) (\<lambda>_.
     divider S ''1. HEALTH CHECK -- Verify baseline''))))"

definition run_all :: "'w shell \<Rightarrow> chaos_config \<Rightarrow> (bool, 'w) prog" where
  "run_all S C =
     p_bind (chaos_heading S C) (\<lambda>_.
     p_bind (test_baseline S C) (\<lambda>ctx.
     p_bind (log_msg S ''Baseline healthy -- system is ready for chaos'') (\<lambda>_.
     p_bind (p_each (run_test S) (chaos_tests S C ctx)) (\<lambda>results.
     chaos_summary S results))))"

text \<open>The exit code.  The value of \<open>--test\<close> is parsed and never read.\<close>

definition chaos_main :: "'w shell \<Rightarrow> (string \<Rightarrow> string option) \<Rightarrow> (int, 'w) prog" where
  "chaos_main S environ =
     p_bind (chaos_constants S environ) (\<lambda>C.
     p_bind (run_all S C) (\<lambda>success.
     p_return (if success then 0 else 1)))"

section \<open>flood.py\<close>

definition flood_secret :: string where
  "flood_secret = ''demo-secret-key-1234567890abcdef1234567890abcdef''"

text \<open>\<open>round(100 + i * 0.5, 2)\<close> is exact.\<close>

definition flood_amount :: "nat \<Rightarrow> string" where
  "flood_amount i = show_nat (100 + i div 2) @ (if even i then ''.0'' else ''.5'')"

definition flood_payload :: "nat \<Rightarrow> time \<Rightarrow> dict" where
  "flood_payload i now =
     [(''event_type'', JStr ''payment.succeeded''), (''amount'', JFloat (flood_amount i)),
      (''customer'', JObj [(''name'', JStr (''User-'' @ show_nat i)), (''email'', JStr (''user'' @ show_nat i @ ''@example.com''))]),
      (''timestamp'', JInt \<lfloor>now\<rfloor>)]"

definition flood_send :: "'w shell \<Rightarrow> string \<Rightarrow> nat \<Rightarrow> (nat \<times> (string + int), 'w) prog" where
  "flood_send S url i =
     p_bind (p_clock S) (\<lambda>now.
     let raw = json_dumps (JObj (flood_payload i now)) in
     p_bind (p_clock S) (\<lambda>now.
     p_try
       (p_bind (p_http S (post_call url [(''x-hub-signature-256'', sign_payload flood_secret raw),
          (''x-idempotency-key'', ''flood-'' @ show_nat i @ ''-'' @ show_int \<lfloor>now\<rfloor>), (''content-type'', ''application/json'')] (Raw raw))) (\<lambda>r.
       p_return (i, Inr (hp_status r))))
       (\<lambda>e. p_return (i, Inl (exc_text e)))))"

definition flood_failed :: "nat \<times> (string + int) \<Rightarrow> string list" where
  "flood_failed = (\<lambda>(i, outcome).
     case outcome of
       Inl msg \<Rightarrow> [''  FAIL #'' @ show_nat i @ '': '' @ msg]
     | Inr code \<Rightarrow> if code = 202 then [] else [''  FAIL #'' @ show_nat i @ '': '' @ show_int code])"

text \<open>Requests complete in some order, here the order in which they are made.\<close>

definition flood_main :: "'w shell \<Rightarrow> (unit, 'w) prog" where
  "flood_main S =
     p_bind (p_input S ''Endpoint ID: '') (\<lambda>line.
     let url = ''http://localhost:8000/hooks/'' @ py_strip is_space line in
     p_bind (p_clock S) (\<lambda>start.
     p_bind (p_each (\<lambda>i.
       p_bind (flood_send S url i) (\<lambda>outcome.
       p_bind (p_lines S (flood_failed outcome)) (\<lambda>_.
       p_return (flood_failed outcome = [])))) [0..<1000]) (\<lambda>outcomes.
     p_bind (p_clock S) (\<lambda>stop.
     let elapsed = stop - start; good = length (filter id outcomes); bad = length (filter Not outcomes) in
     p_bind (p_lift (per_second 1000 elapsed)) (\<lambda>rate.
     p_say S (''Sent '' @ show_nat good @ '' OK / '' @ show_nat bad @ '' failed in '' @ fixed1 elapsed @ ''s ('' @ fixed0 rate @ ''/s)''))))))"

section \<open>collector.py\<close>

definition catch_all :: "(string \<Rightarrow> string) \<Rightarrow> string \<Rightarrow> string \<Rightarrow> string \<Rightarrow> json res" where
  "catch_all fl verb path body_text =
     bind_res
       (if body_text = [] then Inr JNull
        else (case json_loads fl body_text of Inl JSONDecodeError \<Rightarrow> Inr JNull | r \<Rightarrow> r))
       (\<lambda>body_json. Inr (JObj [(''status'', JStr ''collected''), (''method'', JStr verb), (''path'', JStr (CHR ''/'' # path))]))"

section \<open>Waiting ends\<close>

text \<open>A clock: sleeping takes the time it is asked for, a request does not turn time back.\<close>

definition keeps_time :: "'w shell \<Rightarrow> bool" where
  "keeps_time S \<longleftrightarrow>
     (\<forall>w t. sh_clock S w + t \<le> sh_clock S (sh_sleep S t w)) \<and>
     (\<forall>call w. sh_clock S w \<le> sh_clock S (snd (sh_http S call w)))"

lemma healthcheck_returns:
  assumes "keeps_time S"
  shows "\<exists>up w'. healthcheck S url w = (Inr up, w') \<and> sh_clock S w \<le> sh_clock S w'"
proof -
  obtain r w' where h: "sh_http S (get_call (url @ ''/health'') []) w = (r, w')" by fastforce
  have "sh_clock S w \<le> sh_clock S (snd (sh_http S (get_call (url @ ''/health'') []) w))"
    using assms by (simp add: keeps_time_def)
  then show ?thesis by (cases r) (simp_all add: healthcheck_def p_http_def prog_defs h ex_bool_eq)
qed

lemma wait_loop_returns:
  assumes "keeps_time S" "deadline \<le> sh_clock S w + 2 * of_nat n"
  shows "\<exists>up w'. wait_loop S url deadline (Suc n) w = (Inr up, w') \<and> (up \<or> deadline \<le> sh_clock S w')"
  using assms(2)
proof (induction n arbitrary: w)
  case 0
  then show ?case by (simp add: ex_bool_eq)
next
  case (Suc n)
  obtain up w1 where h: "healthcheck S url w = (Inr up, w1)" "sh_clock S w \<le> sh_clock S w1"
    using healthcheck_returns [OF assms(1)] by blast
  have "sh_clock S w1 + 2 \<le> sh_clock S (sh_sleep S 2 w1)" using assms(1) by (simp add: keeps_time_def)
  with h(2) Suc.prems have "deadline \<le> sh_clock S (sh_sleep S 2 w1) + 2 * of_nat n" by simp
  from Suc.IH [OF this] obtain up2 w2 where
    "wait_loop S url deadline (Suc n) (sh_sleep S 2 w1) = (Inr up2, w2)" "up2 \<or> deadline \<le> sh_clock S w2" by blast
  then show ?case using h(1)
    by (auto simp: wait_loop.simps(2) [of S url deadline "Suc n" w] simp del: wait_loop.simps)
qed

lemma wait_fuel_enough: "t + timeout \<le> t + 2 * (of_nat (nat \<lceil>timeout / 2\<rceil>) :: rat)"
proof -
  have "timeout / 2 \<le> of_int \<lceil>timeout / 2\<rceil>" by simp
  also have "\<dots> \<le> of_nat (nat \<lceil>timeout / 2\<rceil>)" by (simp add: of_nat_nat le_max_iff_disj flip: of_nat_nat)
  finally show ?thesis by simp
qed


section \<open>The halfway test\<close>

lemma drain_pass_fails: "p_fails (drain_pass S sent waiting)"
  unfolding drain_pass_def Let_def
  apply (rule fails_any, rule fails_any, rule fails_first)
  by (simp add: p_fails_def log_parts_def p_print_def texts_def shown_len_def py_len_def items_of_def)

lemma drain_start:
  "drain_loop S sent deadline 11 waiting w =
     (if waiting \<noteq> [] \<and> sh_clock S w < deadline
      then p_bind (drain_pass S sent waiting) (drain_loop S sent deadline 10) w
      else (Inr waiting, w))"
  by (simp add: eval_nat_numeral)

text \<open>
  The halfway test passes exactly when no record is pending at its first look.  Its waiting loop takes
  the length of a number and raises in its first pass, so \<open>pending\<close> records are never waited for.
\<close>

theorem halfway_test_never_waits: "fst (await_drain S sent waiting w) = Inr () \<longleftrightarrow> waiting = []"
proof (cases "waiting = []")
  case True
  then show ?thesis by (simp add: await_drain_def p_clock_def log_icon_def prog_defs drain_start)
next
  case False
  obtain e where "fst (drain_pass S sent waiting w) = Inl e"
    using drain_pass_fails [of S sent waiting] unfolding p_fails_def by blast
  then obtain w' where "drain_pass S sent waiting w = (Inl e, w')" by (metis prod.collapse)
  then show ?thesis using False by (simp add: await_drain_def p_clock_def p_bind_def drain_start)
qed

section \<open>A closed example\<close>

text \<open>A relay that answers after three requests; the world is the time and the number of requests so far.\<close>

definition ex_clock :: "(rat \<times> nat) shell" where
  "ex_clock =
     \<lparr>sh_http = (\<lambda>call (t, n). (if n < 3 then Inl (OtherError ''ConnectError'' []) else Inr \<lparr>hp_status = 200, hp_text = []\<rparr>, (t + 1, n + 1))),
      sh_docker = (\<lambda>args w. (Inr (0, []), w)), sh_connect = (\<lambda>w. (Inr (), w)), sh_fetch = (\<lambda>q ps w. (Inr [], w)),
      sh_hex = (\<lambda>w. ([], w)), sh_clock = fst, sh_sleep = (\<lambda>d (t, n). (t + d, n)), sh_print = (\<lambda>s w. w),
      sh_input = (\<lambda>s w. ([], w)), sh_float = id, sh_reason = (\<lambda>code. [])\<rparr>"


end
