(* ===== verification/Chaos_Claims.thy ===== *)
theory Chaos_Claims
  imports Chaos_Suite Client_Example Endpoints_Api
begin

text \<open>
  The chaos suite meets the relay: what its baseline runs into, and its idempotency test against the
  gateway's model.
\<close>

section \<open>The baseline\<close>

text \<open>A relay at \<open>base\<close> says 201 to a new route only if \<open>add_route\<close> returned, for a body with the URL that was sent.\<close>

definition routes_served :: "'w shell \<Rightarrow> ('s, 't) auth_env \<Rightarrow> api_env \<Rightarrow> string \<Rightarrow> bool" where
  "routes_served S E P base \<longleftrightarrow>
     (\<forall>call wsid epid data w r.
        hc_method call = ''POST'' \<longrightarrow> hc_url call = base @ ''/api/workspaces/'' @ wsid @ ''/endpoints/'' @ epid @ ''/routes'' \<longrightarrow>
        hc_body call = Json (JObj data) \<longrightarrow> fst (sh_http S call w) = Inr r \<longrightarrow> hp_status r = 201 \<longrightarrow>
        (\<exists>c dr body redis d out. map_of data ''url'' = Some (JStr (rcr_url body)) \<and>
           fst (add_route E P c dr epid body redis d) = Inr out))"

lemma or_fail_Inr: "or_fail r d f = (Inr y, d') \<longleftrightarrow> (\<exists>x. r = Inr x \<and> f x = (Inr y, d'))"
  by (auto simp: or_fail_def split: sum.splits)

lemma added_route_url:
  "fst (add_route E P c dr i body redis d) = Inr out \<Longrightarrow>
   validate_delivery_url (pe_cfg P) (rcr_url body) = Inr (rcr_url body)"
  by (cases "add_route E P c dr i body redis d")
    (auto simp: add_route_def answered_Inr with_role_Inr or_fail_Inr validate_delivery_url_iff)

lemma collector_url_refused:
  assumes "\<not> allow_insecure_delivery_urls cfg"
  shows "validate_delivery_url cfg ''http://host.docker.internal:9999'' \<noteq> Inr u"
proof -
  have "(case urlparse ''http://host.docker.internal:9999'' of Inl e \<Rightarrow> False | Inr p \<Rightarrow> py_lower (scheme p) = ''http'')" by code_simp
  then show ?thesis using assms by (auto simp: validate_delivery_url_iff split: sum.splits)
qed

lemma baseline_route_refused:
  assumes "routes_served S E P (cv_base C)" "\<not> allow_insecure_delivery_urls (pe_cfg P)"
    and "fst (sh_http S (baseline_route_call C headers wsid epid) w) = Inr r"
  shows "hp_status r \<noteq> 201"
proof
  let ?url = "''http://host.docker.internal:9999''"
  let ?data = "[(''url'', JStr ?url), (''name'', JStr ''chaos-collector'')]"
  let ?call = "baseline_route_call C headers wsid epid"
  have call: "hc_method ?call = ''POST''" "hc_body ?call = Json (JObj ?data)"
    "hc_url ?call = cv_base C @ ''/api/workspaces/'' @ py_str wsid @ ''/endpoints/'' @ py_str epid @ ''/routes''"
    by (simp_all add: baseline_route_call_def json_call_def)
  assume "hp_status r = 201"
  with assms(1,3) call obtain c dr body redis d out where
    "map_of ?data ''url'' = Some (JStr (rcr_url body))" "fst (add_route E P c dr (py_str epid) body redis d) = Inr out"
    unfolding routes_served_def by blast
  then have "validate_delivery_url (pe_cfg P) ?url = Inr ?url" using added_route_url by fastforce
  with collector_url_refused [OF assms(2)] show False by blast
qed

lemma http_gives: "p_gives (p_http S call) (\<lambda>r. \<exists>w. fst (sh_http S call w) = Inr r)"
  by (auto simp: p_gives_def p_http_def)

lemma baseline_fails:
  assumes "routes_served S E P (cv_base C)" "\<not> allow_insecure_delivery_urls (pe_cfg P)"
  shows "p_fails (test_baseline S C)"
proof -
  have step: "p_fails (p_bind (p_http S (baseline_route_call C headers wsid epid)) (\<lambda>r.
      p_bind (p_assert (hp_status r = 201) (msg r)) (f r)))" for headers wsid epid msg f
    by (rule fails_later [OF http_gives], rule fails_first, rule fails_assert)
      (use baseline_route_refused [OF assms] in blast)
  show ?thesis
    unfolding test_baseline_def Let_def by (rule step | rule fails_any)+
qed

text \<open>
  C36: with delivery URLs restricted to https, as the settings have it by default, the chaos suite runs no
  test: its baseline registers an http destination, the API refuses it, and the suite ends with the
  baseline's exception.
\<close>

theorem chaos_suite_never_starts:
  assumes "routes_served S E P (cv_base C)" "\<not> allow_insecure_delivery_urls (pe_cfg P)"
  shows "\<exists>e w'. test_baseline S C (snd (chaos_heading S C w)) = (Inl e, w') \<and> run_all S C w = (Inl e, w')"
proof -
  obtain w0 where h: "chaos_heading S C w = (Inr (), w0)"
    by (simp add: chaos_heading_def divider_def log_msg_def log_icon_def prog_defs)
  obtain e w' where b: "test_baseline S C w0 = (Inl e, w')"
    using baseline_fails [OF assms] unfolding p_fails_def by (metis prod.collapse)
  then show ?thesis by (simp add: run_all_def p_bind_def h)
qed

text \<open>A relay that refuses the route; the other replies are written down.\<close>

definition ex_refusal :: http_reply where
  "ex_refusal = error_reply (HTTPException 400 ''route url must use https'')"

definition ends_in_routes :: "string \<Rightarrow> bool" where
  "ends_in_routes url \<longleftrightarrow> drop (length url - 7) url = ''/routes''"

definition ex_refusing :: "string \<Rightarrow> http_reply list shell" where
  "ex_refusing base =
     (ex_shell base)\<lparr>sh_http := (\<lambda>call w. if ends_in_routes (hc_url call) then (Inr ex_refusal, w)
        else case w of [] \<Rightarrow> (Inl (OtherError ''ConnectError'' []), []) | r # rest \<Rightarrow> (Inr r, rest))\<rparr>"

definition ex_chaos :: chaos_config where
  "ex_chaos = \<lparr>cv_base = ''http://a'', cv_collector = ''http://b'', cv_compose = ''f'', cv_secret = ''s''\<rparr>"

definition ex_chaos_replies :: "http_reply list" where
  "ex_chaos_replies =
     [canned 200 JNull, canned 200 JNull, canned 201 (JObj [(''access_token'', JStr ''t'')]),
      canned 200 (JArr [JObj [(''id'', JStr ''w'')]]), canned 201 (JObj [(''id'', JStr ''e'')])]"

lemma ex_refusing_served: "routes_served (ex_refusing base) E P base'"
proof -
  have "fst (sh_http (ex_refusing base) call w) = Inr ex_refusal"
    if "hc_url call = x @ ''/routes''" for call w x
    using that by (simp add: ex_refusing_def ends_in_routes_def)
  moreover have "hp_status ex_refusal \<noteq> 201" by (simp add: ex_refusal_def error_reply_def)
  ultimately show ?thesis unfolding routes_served_def by (metis append.assoc sum.inject(2))
qed

lemma refusing_simps:
  "sh_print (ex_refusing base) l w = w" "sh_hex (ex_refusing base) w = (replicate 32 CHR ''0'', w)"
  "sh_http (ex_refusing base) call (r # w) = (if ends_in_routes (hc_url call) then (Inr ex_refusal, r # w) else (Inr r, w))"
  "sh_http (ex_refusing base) call [] =
     (if ends_in_routes (hc_url call) then (Inr ex_refusal, []) else (Inl (OtherError ''ConnectError'' []), []))"
  "writable id v \<Longrightarrow> reply_json (ex_refusing base) (canned code v) = Inr v"
  "hp_status ex_refusal = 400"
  by (simp_all add: ex_refusing_def ex_shell_def reply_json_def canned_def loads_dumps ex_refusal_def error_reply_def
      del: json_dumps.simps)

lemma refusing_run:
  "fst (run_all (ex_refusing (cv_base ex_chaos)) ex_chaos ex_chaos_replies) =
     Inl (OtherError ''AssertionError'' (''Route create failed: '' @ hp_text ex_refusal))"
  by (simp add: run_all_def chaos_heading_def test_baseline_def baseline_token_def healthcheck_def log_msg_def log_icon_def
      divider_def p_http_def p_hex_def p_json_def p_item_def Let_def prog_defs refusing_simps ex_chaos_replies_def
      ex_chaos_def json_call_def get_call_def baseline_route_call_def ends_in_routes_def item_def first_item_def)

theorem chaos_suite_never_starts_witness:
  "routes_served (ex_refusing (cv_base ex_chaos)) ex_auth ex_api (cv_base ex_chaos) \<and>
   \<not> allow_insecure_delivery_urls (pe_cfg ex_api) \<and>
   (\<exists>e w'. run_all (ex_refusing (cv_base ex_chaos)) ex_chaos ex_chaos_replies = (Inl e, w')) \<and>
   fst (run_all (ex_refusing (cv_base ex_chaos)) ex_chaos ex_chaos_replies) =
     Inl (OtherError ''AssertionError'' (''Route create failed: '' @ hp_text ex_refusal))"
proof -
  have secure: "\<not> allow_insecure_delivery_urls (pe_cfg ex_api)" by (simp add: ex_api_def default_settings_def)
  show ?thesis using chaos_suite_never_starts [OF ex_refusing_served secure] ex_refusing_served secure refusing_run by blast
qed

section \<open>The idempotency test against the gateway\<close>

text \<open>
  A world with nothing but the gateway: its Redis handle, its database, the number of requests it has had.
  The request number \<open>n\<close> draws \<open>draws n\<close> from its surroundings.
\<close>

record 's relay_world =
  rw_redis :: "'s option"
  rw_db :: db
  rw_seen :: nat

definition served :: "'s gateway_env \<Rightarrow> (nat \<Rightarrow> draw) \<Rightarrow> string \<Rightarrow> webhook_request \<Rightarrow> 's relay_world \<Rightarrow>
    http_reply res \<times> 's relay_world" where
  "served E draws endpoint_id request w =
     (let (r, redis', d') = receive_webhook E (draws (rw_seen w)) endpoint_id request (rw_redis w) (rw_db w)
      in (Inr (gateway_reply r), \<lparr>rw_redis = redis', rw_db = d', rw_seen = rw_seen w + 1\<rparr>))"

definition gateway_http :: "'s gateway_env \<Rightarrow> (nat \<Rightarrow> draw) \<Rightarrow> string \<Rightarrow> http_call \<Rightarrow> 's relay_world \<Rightarrow>
    http_reply res \<times> 's relay_world" where
  "gateway_http E draws base call w =
     (let hooks = base @ ''/hooks/''
      in case (hc_method call = ''POST'' \<and> starts_with (hc_url call) hooks, hc_body call) of
           (True, Raw body) \<Rightarrow> served E draws (drop (length hooks) (hc_url call)) (ex_arrived call body) w
         | _ \<Rightarrow> (Inr not_found_reply, w))"

definition gateway_shell :: "'s gateway_env \<Rightarrow> (nat \<Rightarrow> draw) \<Rightarrow> string \<Rightarrow> string \<Rightarrow> 's relay_world shell" where
  "gateway_shell E draws base hex =
     \<lparr>sh_http = gateway_http E draws base, sh_docker = (\<lambda>args w. (Inr (0, []), w)), sh_connect = (\<lambda>w. (Inr (), w)),
      sh_fetch = (\<lambda>q ps w. (Inr [], w)), sh_hex = (\<lambda>w. (hex, w)), sh_clock = (\<lambda>w. dr_now (draws (rw_seen w))),
      sh_sleep = (\<lambda>t w. w), sh_print = (\<lambda>s w. w), sh_input = (\<lambda>s w. ([], w)), sh_float = id, sh_reason = (\<lambda>code. [])\<rparr>"

lemma gateway_simps [simp]:
  "sh_print (gateway_shell E draws base hex) l w = w" "sh_hex (gateway_shell E draws base hex) w = (hex, w)"
  by (simp_all add: gateway_shell_def)

lemma send_hook_served:
  assumes "item ''id'' (cx_endpoint ctx) = Inr (JStr endpoint_id)"
  shows "send_hook (gateway_shell E draws (cv_base C) hex) C ctx payload extra w =
    served E draws endpoint_id (ex_arrived (chaos_hook C (JStr endpoint_id) (cx_secret ctx) payload extra) payload) w"
  using assms
  by (simp add: send_hook_def p_item_def p_lift_def p_bind_def p_http_def gateway_shell_def gateway_http_def
      chaos_hook_def post_call_def starts_with_iff)

text \<open>An endpoint that takes the suite's webhooks.\<close>

definition takes :: "endpoint_row \<Rightarrow> string \<Rightarrow> bool" where
  "takes ep secret \<longleftrightarrow>
     ep_is_active ep \<and> ep_ip_allowlist ep = None \<and> ep_rate_limit_rps ep = None \<and> ep_request_body_schema ep = None \<and>
     ep_hmac_secret ep = secret"

definition hook_request :: "string \<Rightarrow> string \<Rightarrow> string \<Rightarrow> webhook_request" where
  "hook_request secret payload key =
     \<lparr>wr_chunks = [payload], wr_client = Some ''192.0.2.1'',
      wr_headers = [(''x-hub-signature-256'', sign_payload secret payload), (''x-idempotency-key'', key)]\<rparr>"

lemma chaos_names: "py_lower ''x-hub-signature-256'' = ''x-hub-signature-256''" "py_lower ''x-idempotency-key'' = ''x-idempotency-key''"
  by code_simp+

lemma hook_request_headers:
  "header_get ''x-hub-signature-256'' (wr_headers (hook_request secret payload key)) = Some (sign_payload secret payload)"
  "header_get ''x-idempotency-key'' (wr_headers (hook_request secret payload key)) = Some key"
  by (simp_all add: hook_request_def header_get_def chaos_names)

lemma chaos_request:
  "ex_arrived (chaos_hook C epid secret payload [(''x-idempotency-key'', key)]) payload = hook_request secret payload key"
  by (simp add: ex_arrived_def chaos_hook_def post_call_def hook_request_def)

lemma takes_admit:
  assumes "uuid_parse endpoint_id = Inr uid" "by_key ep_id uid (endpoints d) = Some ep" "takes ep secret"
    and "ge_json_loads E payload = Inr v" "int (length payload) \<le> max_webhook_body_bytes (ge_cfg E)"
    and "wr_chunks request = [payload]"
    and "header_get ''x-hub-signature-256'' (wr_headers request) = Some (sign_payload secret payload)"
  shows "admit E dr endpoint_id request redis d = (Inr (ep, v), redis)"
proof -
  have f: "find_endpoint d endpoint_id request = Inr ep"
    using assms(1-3) by (simp add: find_endpoint_ok takes_def client_ip_allowed_def)
  have b: "read_limited_body (ge_cfg E) request = Inr payload"
    using assms(5,6) by (simp add: read_limited_body_def)
  show ?thesis
    using assms(3,4,7) by (simp add: admit_def f b check_rate_def takes_def signature_accepted
        parse_payload_def check_schema_def)
qed

lemma hook_chunks: "wr_chunks (hook_request secret payload key) = [payload]"
  by (simp add: hook_request_def)

lemmas takes_hook = takes_admit [OF _ _ _ _ _ hook_chunks hook_request_headers(1)]

text \<open>What is left of the first request when the others come: its key, until \<open>e\<close>.\<close>

definition key_set :: "('s \<Rightarrow> time \<Rightarrow> string \<Rightarrow> rentry option) \<Rightarrow> (nat \<Rightarrow> draw) \<Rightarrow> string \<Rightarrow> time \<Rightarrow> 's relay_world \<Rightarrow> bool" where
  "key_set view draws k e w \<longleftrightarrow>
     (\<exists>s t v. rw_redis w = Some s \<and> t \<le> dr_now (draws (rw_seen w)) \<and> view s t k = Some (v, Some e))"

context redis_store
begin

lemma served_again:
  assumes "ge_redis E = R" "key \<noteq> []" "uuid_parse endpoint_id = Inr uid" "by_key ep_id uid (endpoints (rw_db w)) = Some ep"
    and "takes ep secret" "ge_json_loads E payload = Inr pv" "int (length payload) \<le> max_webhook_body_bytes (ge_cfg E)"
    and "key_set view draws (dedup_key ep key) e w" "dr_now (draws (rw_seen w)) < e" "mono (\<lambda>n. dr_now (draws n))"
  shows "\<exists>w'. served E draws endpoint_id (hook_request secret payload key) w = (Inr (gateway_reply (Inr Duplicate)), w') \<and>
    rw_db w' = rw_db w \<and> rw_seen w' = rw_seen w + 1 \<and> key_set view draws (dedup_key ep key) e w'"
proof -
  let ?now = "dr_now (draws (rw_seen w))" and ?k = "dedup_key ep key"
  obtain s t v where s: "rw_redis w = Some s" "t \<le> ?now" "view s t ?k = Some (v, Some e)"
    using assms(8) unfolding key_set_def by blast
  have v: "view s ?now ?k = Some (v, Some e)" by (rule later_live [OF s(3,2) assms(9)])
  let ?op = "op_set_nx_ex R ?now ?k (RStr ''1'') (idempotency_ttl_s (ge_cfg E)) s"
  have old: "\<not> fst ?op" "view (snd ?op) ?now = view s ?now" using set_nx_ex_old [of s ?now ?k] v by simp_all
  have dup: "check_duplicate E (draws (rw_seen w)) ep (Some key) (Some s) = (Inr True, Some (snd ?op))"
    using assms(1,2) old(1) by (cases ?op) (simp add: check_duplicate_def get_redis_def)
  have run: "receive_webhook E (draws (rw_seen w)) endpoint_id (hook_request secret payload key) (rw_redis w) (rw_db w) =
      (Inr Duplicate, Some (snd ?op), rw_db w)"
    using takes_hook [OF assms(3-7)] dup by (simp add: receive_webhook_def hook_request_headers s(1))
  have "?now \<le> dr_now (draws (rw_seen w + 1))" using assms(10) by (simp add: mono_def)
  then have "key_set view draws ?k e \<lparr>rw_redis = Some (snd ?op), rw_db = rw_db w, rw_seen = rw_seen w + 1\<rparr>"
    using v old(2) unfolding key_set_def by force
  then show ?thesis by (simp add: served_def run)
qed

lemma served_burst:
  assumes "ge_redis E = R" "key \<noteq> []" "uuid_parse endpoint_id = Inr uid" "takes ep secret" "ge_json_loads E payload = Inr pv"
    and "int (length payload) \<le> max_webhook_body_bytes (ge_cfg E)" "mono (\<lambda>n. dr_now (draws n))"
    and "by_key ep_id uid (endpoints (rw_db w)) = Some ep" "key_set view draws (dedup_key ep key) e w"
    and "dr_now (draws (rw_seen w + length xs)) < e"
  shows "fst (p_gather (\<lambda>_. served E draws endpoint_id (hook_request secret payload key)) xs w) =
    Inr (replicate (length xs) (gateway_reply (Inr Duplicate)))"
  using assms(8-10)
proof (induction xs arbitrary: w)
  case Nil
  then show ?case by simp
next
  case (Cons x xs)
  have "dr_now (draws (rw_seen w)) \<le> dr_now (draws (rw_seen w + length (x # xs)))" using assms(7) by (simp add: mono_def)
  with Cons.prems(3) have now: "dr_now (draws (rw_seen w)) < e" by linarith
  obtain w1 where w1: "served E draws endpoint_id (hook_request secret payload key) w = (Inr (gateway_reply (Inr Duplicate)), w1)"
      "rw_db w1 = rw_db w" "rw_seen w1 = rw_seen w + 1" "key_set view draws (dedup_key ep key) e w1"
    using served_again [OF assms(1-3) Cons.prems(1) assms(4-6) Cons.prems(2) now assms(7)] by blast
  have "fst (p_gather (\<lambda>_. served E draws endpoint_id (hook_request secret payload key)) xs w1) =
      Inr (replicate (length xs) (gateway_reply (Inr Duplicate)))"
    by (rule Cons.IH) (use Cons.prems w1 in simp_all)
  then show ?case
    by (cases "p_gather (\<lambda>_. served E draws endpoint_id (hook_request secret payload key)) xs w1") (simp add: w1(1))
qed

lemma served_first:
  assumes "ge_redis E = R" "0 < idempotency_ttl_s (ge_cfg E)" "key \<noteq> []" "uuid_parse endpoint_id = Inr uid"
    and "by_key ep_id uid (endpoints (rw_db w)) = Some ep" "takes ep secret" "ge_json_loads E payload = Inr pv"
    and "int (length payload) \<le> max_webhook_body_bytes (ge_cfg E)" "mono (\<lambda>n. dr_now (draws n))" "rw_redis w = Some s"
    and "view s (dr_now (draws (rw_seen w))) (dedup_key ep key) = None"
    and "store_event (ge_cfg E) (draws (rw_seen w)) ep (Some key) pv (wr_headers (hook_request secret payload key)) (rw_db w) = Inr d'"
  shows "\<exists>w'. served E draws endpoint_id (hook_request secret payload key) w =
      (Inr (gateway_reply (Inr (Accepted (dr_event_id (draws (rw_seen w)))))), w') \<and>
    endpoints (rw_db w') = endpoints (rw_db w) \<and> rw_seen w' = rw_seen w + 1 \<and>
    key_set view draws (dedup_key ep key) (dr_now (draws (rw_seen w)) + of_int (idempotency_ttl_s (ge_cfg E))) w'"
proof -
  let ?dr = "draws (rw_seen w)" and ?k = "dedup_key ep key" and ?ttl = "idempotency_ttl_s (ge_cfg E)"
  let ?op = "op_set_nx_ex R (dr_now ?dr) ?k (RStr ''1'') ?ttl s"
  have new: "fst ?op" "view (snd ?op) (dr_now ?dr) = (view s (dr_now ?dr))(?k \<mapsto> (RStr ''1'', Some (dr_now ?dr + of_int ?ttl)))"
    using set_nx_ex_new [OF assms(11,2)] by simp_all
  have fresh: "check_duplicate E ?dr ep (Some key) (Some s) = (Inr False, Some (snd ?op))"
    using assms(1,3) new(1) by (cases ?op) (simp add: check_duplicate_def get_redis_def)
  have run: "receive_webhook E ?dr endpoint_id (hook_request secret payload key) (rw_redis w) (rw_db w) =
      (Inr (Accepted (dr_event_id ?dr)), Some (snd ?op), d')"
    using takes_hook [OF assms(4-8)] fresh assms(12) by (simp add: receive_webhook_def hook_request_headers assms(10))
  have "dr_now ?dr \<le> dr_now (draws (rw_seen w + 1))" using assms(9) by (simp add: mono_def)
  then have "key_set view draws ?k (dr_now ?dr + of_int ?ttl) \<lparr>rw_redis = Some (snd ?op), rw_db = d', rw_seen = rw_seen w + 1\<rparr>"
    using new(2) unfolding key_set_def by force
  moreover have "endpoints d' = endpoints (rw_db w)"
    using assms(12) by (auto simp: store_event_def commit_ok)
  ultimately show ?thesis by (simp add: served_def run)
qed

end

lemma answers_json: "reply_json S (gateway_reply (Inr a)) = Inr (hook_answer a)"
  by (rule reply_of_hook) (simp_all add: gateway_reply_def)

lemma each_answers: "each_res (\<lambda>r. bind_res (reply_json S r) (get_item ''status'' JNull)) (map (\<lambda>a. gateway_reply (Inr a)) as) =
    Inr (map (\<lambda>a. JStr (case a of Accepted i \<Rightarrow> ''accepted'' | Duplicate \<Rightarrow> ''duplicate'')) as)"
  by (induction as) (auto simp: answers_json hook_answer_def get_item_def dict_get_def split: webhook_answer.splits)

lemma one_accepted:
  assumes "replies = gateway_reply (Inr (Accepted i)) # replicate 9 (gateway_reply (Inr Duplicate))"
  shows "count_status S ''accepted'' replies = Inr 1" "count_status S ''duplicate'' replies = Inr 9"
proof -
  have r: "replies = map (\<lambda>a. gateway_reply (Inr a)) (Accepted i # replicate 9 Duplicate)" by (simp add: assms)
  show "count_status S ''accepted'' replies = Inr 1" "count_status S ''duplicate'' replies = Inr 9"
    by (simp_all add: count_status_def r each_answers del: list.map)
qed


definition ex_ctx :: chaos_ctx where
  "ex_ctx = \<lparr>cx_token = JNull, cx_headers = [], cx_workspace_id = JNull,
     cx_endpoint = JObj [(''id'', JStr (uuid_str 2))], cx_secret = ex_secret\<rparr>"

definition ex_relay_world :: "ref_state relay_world" where
  "ex_relay_world = \<lparr>rw_redis = Some Map.empty, rw_db = ex_e2e_db, rw_seen = 0\<rparr>"


end
