(* ===== verification/Chaos_Outage.thy ===== *)
theory Chaos_Outage
  imports Chaos_Claims System
begin

text \<open>
  The chaos suite's outage of the outbox relay against the gateway's and the relay's models on one
  database: what was accepted while the relay was down is published once it is back.
\<close>

section \<open>Gateway, database, relay and broker\<close>

text \<open>
  The world: the gateway with its database, the broker, and whether the relay's container runs.  Time
  passes while a client sleeps; \<open>polls t\<close> is the number of polls a running relay makes in \<open>t\<close> seconds.
\<close>

record ('s, 'k) stack_world =
  sw_gateway :: "'s relay_world"
  sw_broker :: 'k
  sw_relay :: bool

abbreviation sw_db :: "('s, 'k) stack_world \<Rightarrow> db" where
  "sw_db w \<equiv> rw_db (sw_gateway w)"

definition relay_polls :: "'k sender \<Rightarrow> nat \<Rightarrow> ('s, 'k) stack_world \<Rightarrow> ('s, 'k) stack_world" where
  "relay_polls send n w =
     (if sw_relay w then
        (case relay_run send (replicate n quiet) (sw_db w) (Some (sw_broker w)) of
           (r, d, producer) \<Rightarrow>
             \<lparr>sw_gateway = (sw_gateway w)\<lparr>rw_db := d\<rparr>,
              sw_broker = (case producer of None \<Rightarrow> sw_broker w | Some k \<Rightarrow> k),
              sw_relay = (case r of Inl e \<Rightarrow> False | Inr u \<Rightarrow> True)\<rparr>)
      else w)"

definition stack_http :: "'s gateway_env \<Rightarrow> (nat \<Rightarrow> draw) \<Rightarrow> string \<Rightarrow> http_call \<Rightarrow> ('s, 'k) stack_world \<Rightarrow>
    http_reply res \<times> ('s, 'k) stack_world" where
  "stack_http E draws base call w =
     (let (r, g) = gateway_http E draws base call (sw_gateway w) in (r, w\<lparr>sw_gateway := g\<rparr>))"

definition stack_docker :: "string list \<Rightarrow> ('s, 'k) stack_world \<Rightarrow> (int \<times> string) res \<times> ('s, 'k) stack_world" where
  "stack_docker args w =
     (Inr (0, []),
      case rev args of
        service # verb # rest \<Rightarrow> if service = ''outbox-relay'' then w\<lparr>sw_relay := (verb \<noteq> ''stop'')\<rparr> else w
      | _ \<Rightarrow> w)"

definition stack_fetch :: "string \<Rightarrow> uuid list \<Rightarrow> ('s, 'k) stack_world \<Rightarrow> dict list res \<times> ('s, 'k) stack_world" where
  "stack_fetch query params w =
     (Inr (if query = outbox_query
           then map (\<lambda>r. [(''status'', JStr (ob_status r))]) (filter (\<lambda>r. [ob_event_id r] = params) (outbox (sw_db w)))
           else []), w)"

definition stack_shell :: "'s gateway_env \<Rightarrow> (nat \<Rightarrow> draw) \<Rightarrow> 'k sender \<Rightarrow> (rat \<Rightarrow> nat) \<Rightarrow> string \<Rightarrow> string \<Rightarrow>
    ('s, 'k) stack_world shell" where
  "stack_shell E draws send polls base hex =
     \<lparr>sh_http = stack_http E draws base, sh_docker = stack_docker, sh_connect = (\<lambda>w. (Inr (), w)),
      sh_fetch = stack_fetch, sh_hex = (\<lambda>w. (hex, w)), sh_clock = (\<lambda>w. dr_now (draws (rw_seen (sw_gateway w)))),
      sh_sleep = (\<lambda>t. relay_polls send (polls t)), sh_print = (\<lambda>s w. w), sh_input = (\<lambda>s w. ([], w)), sh_float = id,
      sh_reason = (\<lambda>code. [])\<rparr>"

lemma stack_simps [simp]:
  "sh_http (stack_shell E draws send polls base hex) = stack_http E draws base"
  "sh_docker (stack_shell E draws send polls base hex) = stack_docker"
  "sh_connect (stack_shell E draws send polls base hex) w = (Inr (), w)"
  "sh_fetch (stack_shell E draws send polls base hex) = stack_fetch"
  "sh_sleep (stack_shell E draws send polls base hex) t = relay_polls send (polls t)"
  "sh_print (stack_shell E draws send polls base hex) l w = w"
  by (simp_all add: stack_shell_def)

section \<open>The events that are sent\<close>

lemma send_hook_stack:
  assumes "item ''id'' (cx_endpoint ctx) = Inr (JStr endpoint_id)"
  shows "send_hook (stack_shell E draws send polls (cv_base C) hex) C ctx payload extra w =
    (let (r, g) = served E draws endpoint_id (ex_arrived (chaos_hook C (JStr endpoint_id) (cx_secret ctx) payload extra) payload) (sw_gateway w)
     in (r, w\<lparr>sw_gateway := g\<rparr>))"
  using assms
  by (simp add: send_hook_def p_item_def p_lift_def p_bind_def p_http_def stack_http_def gateway_http_def
      chaos_hook_def post_call_def starts_with_iff)

text \<open>A reply with an event number is that of an accepted webhook.\<close>

lemma reply_event:
  assumes "hp_status (gateway_reply r) = 202" "bind_res (reply_json S (gateway_reply r)) (item ''event_id'') = Inr v" "r \<noteq> Inr Duplicate"
  shows "\<exists>i. r = Inr (Accepted i) \<and> v = JStr (uuid_str i)"
proof (cases r)
  case (Inl e)
  then have "hp_status (error_reply e) = 202" using assms(1) by (simp add: gateway_reply_def)
  from reply_of_error [OF this, of S] show ?thesis using assms(2) Inl by (auto simp: gateway_reply_def item_def)
next
  case (Inr a)
  then show ?thesis using assms(2,3) answers_json [of S a] by (cases a) (auto simp: hook_answer_def item_def)
qed

text \<open>Records that a series of requests adds: pending, one for each new event.\<close>

definition new_records :: "outbox_row list \<Rightarrow> outbox_row list \<Rightarrow> bool" where
  "new_records rows rs \<longleftrightarrow>
     list_all (\<lambda>r. ob_status r = ''pending'') rs \<and> distinct (map ob_event_id rs) \<and>
     ob_event_id ` set rows \<inter> ob_event_id ` set rs = {}"

lemma new_records_Cons:
  "new_records rows [r] \<Longrightarrow> new_records (rows @ [r]) rs \<Longrightarrow> new_records rows (r # rs)"
  by (auto simp: new_records_def)

lemma only_record:
  assumes "new_records rows rs" "r \<in> set rs"
  shows "filter (\<lambda>x. ob_event_id x = ob_event_id r) (rows @ rs) = [r]"
proof -
  have "filter (\<lambda>x. ob_event_id x = ob_event_id r) rows = []"
    using assms by (fastforce simp: new_records_def filter_empty_conv)
  moreover have "filter (\<lambda>x. ob_event_id x = ob_event_id r) rs = [r]" if "distinct (map ob_event_id rs)" "r \<in> set rs" for rs
    using that
  proof (induction rs)
    case (Cons x rs)
    have "filter (\<lambda>y. ob_event_id y = ob_event_id x) rs = []"
      using Cons.prems(1) by (auto simp: filter_empty_conv) (metis image_eqI)
    moreover have "ob_event_id x \<noteq> ob_event_id r" if "r \<in> set rs" using Cons.prems(1) that by force
    ultimately show ?case using Cons by (cases "x = r") auto
  qed simp
  ultimately show ?thesis using assms by (simp add: new_records_def)
qed

text \<open>What the requests leave alone.\<close>

definition same_stack :: "('s, 'k) stack_world \<Rightarrow> ('s, 'k) stack_world \<Rightarrow> bool" where
  "same_stack w w' \<longleftrightarrow> sw_broker w' = sw_broker w \<and> sw_relay w' = sw_relay w"

lemma sent_record:
  assumes "item ''id'' (cx_endpoint ctx) = Inr (JStr endpoint_id)" "db_ok (sw_db w)"
    and "send_accepted (stack_shell E draws send polls (cv_base C) hex) C ctx ev n w = (Inr v, w')"
  shows "\<exists>r. v = JStr (uuid_str (ob_event_id r)) \<and> outbox (sw_db w') = outbox (sw_db w) @ [r] \<and>
    new_records (outbox (sw_db w)) [r] \<and> db_ok (sw_db w') \<and> same_stack w w'"
proof -
  let ?S = "stack_shell E draws send polls (cv_base C) hex" and ?p = "chaos_payload ev (Some n)"
  let ?rq = "ex_arrived (chaos_hook C (JStr endpoint_id) (cx_secret ctx) ?p []) ?p"
  let ?dr = "draws (rw_seen (sw_gateway w))"
  obtain a redis' d' where run: "receive_webhook E ?dr endpoint_id ?rq (rw_redis (sw_gateway w)) (sw_db w) = (a, redis', d')"
    by (metis prod_cases3)
  have hook: "send_hook ?S C ctx ?p [] w =
      (Inr (gateway_reply a), w\<lparr>sw_gateway := \<lparr>rw_redis = redis', rw_db = d', rw_seen = rw_seen (sw_gateway w) + 1\<rparr>\<rparr>)"
    by (simp add: send_hook_stack [OF assms(1)] served_def run)
  have r: "hp_status (gateway_reply a) = 202" "bind_res (reply_json ?S (gateway_reply a)) (item ''event_id'') = Inr v"
    and w': "w' = w\<lparr>sw_gateway := \<lparr>rw_redis = redis', rw_db = d', rw_seen = rw_seen (sw_gateway w) + 1\<rparr>\<rparr>"
    using assms(3) by (auto simp: send_accepted_def p_bind_def hook p_assert_def p_return_def p_raise_def p_json_def p_item_def
        p_lift_def bind_res_def split: if_splits sum.splits)
  have "header_get ''x-idempotency-key'' (wr_headers ?rq) = None"
    by (simp add: ex_arrived_def chaos_hook_def post_call_def header_get_def chaos_names)
  then have "a \<noteq> Inr Duplicate" using duplicate_needs_key [of ?rq E ?dr endpoint_id "rw_redis (sw_gateway w)" "sw_db w"] run by auto
  with reply_event [OF r] obtain i where i: "a = Inr (Accepted i)" "v = JStr (uuid_str i)" by blast
  obtain ep payload where d': "i = dr_event_id ?dr" "db_ok d'"
      "d' = (sw_db w)\<lparr>events := events (sw_db w) @ [new_event ?dr ep (header_get ''x-idempotency-key'' (wr_headers ?rq)) payload (wr_headers ?rq)],
        outbox := outbox (sw_db w) @ [new_outbox (ge_cfg E) ?dr ep]\<rparr>"
    using accepted_facts [OF run [unfolded i(1)]] by metis
  let ?r = "new_outbox (ge_cfg E) ?dr ep"
  have "i \<notin> ev_id ` set (events (sw_db w))"
    using d' by (auto simp: db_ok_def integrity_def keyed_def new_event_def)
  moreover have "ob_event_id ` set (outbox (sw_db w)) \<subseteq> ev_id ` set (events (sw_db w))"
    using assms(2) integrity_refers(4) by (auto simp: db_ok_def)
  ultimately have "new_records (outbox (sw_db w)) [?r]"
    by (auto simp: new_records_def new_outbox_def d'(1))
  then show ?thesis using i(2) d' w' by (intro exI [of _ ?r]) (simp add: same_stack_def, simp add: new_outbox_def)
qed

lemma sent_records:
  assumes "item ''id'' (cx_endpoint ctx) = Inr (JStr endpoint_id)"
  shows "db_ok (sw_db w) \<Longrightarrow> p_each (send_accepted (stack_shell E draws send polls (cv_base C) hex) C ctx ev) xs w = (Inr vs, w') \<Longrightarrow>
    \<exists>rs. vs = map (\<lambda>r. JStr (uuid_str (ob_event_id r))) rs \<and> length rs = length xs \<and> outbox (sw_db w') = outbox (sw_db w) @ rs \<and>
      new_records (outbox (sw_db w)) rs \<and> db_ok (sw_db w') \<and> same_stack w w'"
proof (induction xs arbitrary: w vs)
  case Nil
  then show ?case by (simp add: p_return_def new_records_def same_stack_def)
next
  case (Cons x xs)
  let ?send = "send_accepted (stack_shell E draws send polls (cv_base C) hex) C ctx ev"
  obtain v w1 us where one: "?send x w = (Inr v, w1)" and rest: "p_each ?send xs w1 = (Inr us, w')" and vs: "vs = v # us"
    using Cons.prems(2) by (auto simp: p_bind_def p_return_def split: prod.splits sum.splits)
  obtain r where r: "v = JStr (uuid_str (ob_event_id r))" "outbox (sw_db w1) = outbox (sw_db w) @ [r]"
      "new_records (outbox (sw_db w)) [r]" "db_ok (sw_db w1)" "same_stack w w1"
    using sent_record [OF assms Cons.prems(1) one] by blast
  obtain rs where rs: "us = map (\<lambda>r. JStr (uuid_str (ob_event_id r))) rs" "length rs = length xs"
      "outbox (sw_db w') = outbox (sw_db w1) @ rs" "new_records (outbox (sw_db w1)) rs" "db_ok (sw_db w')" "same_stack w1 w'"
    using Cons.IH [OF r(4) rest] by blast
  have "new_records (outbox (sw_db w)) (r # rs)" using new_records_Cons [OF r(3)] rs(4) r(2) by simp
  then show ?case using r rs vs by (intro exI [of _ "r # rs"]) (simp add: same_stack_def)
qed

section \<open>What the test reads\<close>

lemma each_done: "(\<And>x. x \<in> set xs \<Longrightarrow> f x w = (Inr (), w)) \<Longrightarrow> p_each f xs w = (Inr (map (\<lambda>x. ()) xs), w)"
  by (induction xs) (simp_all add: p_return_def p_bind_def)

lemma status_read:
  assumes "filter (\<lambda>x. ob_event_id x = i) (outbox (sw_db w)) = [r]"
  shows "fetch_status (stack_shell E draws send polls base hex) outbox_query (JStr (uuid_str i)) missing w = (Inr (JStr (ob_status r)), w)"
  using assms
  by (simp add: fetch_status_def json_uuid_def p_fetchrow_def p_fetch_def stack_fetch_def prog_defs row_status_def item_def)

lemma pending_seen:
  assumes "filter (\<lambda>x. ob_event_id x = i) (outbox (sw_db w)) = [r]" "ob_status r = ''pending''"
  shows "expect_pending (stack_shell E draws send polls base hex) outbox_query missing (JStr (uuid_str i)) w = (Inr (), w)"
  using status_read [OF assms(1)] assms(2) by (simp add: expect_pending_def prog_defs)

lemma completed_seen:
  assumes "filter (\<lambda>x. ob_event_id x = i) (outbox (sw_db w)) = [r]" "ob_status r = ''completed''"
  shows "expect_completed (stack_shell E draws send polls base hex) (JStr (uuid_str i)) w = (Inr (), w)"
  using status_read [OF assms(1)] assms(2) by (simp add: expect_completed_def prog_defs)

section \<open>The relay comes back\<close>

lemma relay_polls_down [simp]: "\<not> sw_relay w \<Longrightarrow> relay_polls send n w = w"
  by (simp add: relay_polls_def)

lemma relay_polls_drained:
  assumes "kafka_producer send lg" and "\<And>m k. fst (send m k) = Inr ()" and "db_ok (sw_db w)" and "sw_relay w"
    and "length (pending_rows (sw_db w)) \<le> 10 * n"
  shows "\<exists>d' k'. relay_polls send n w = \<lparr>sw_gateway = (sw_gateway w)\<lparr>rw_db := d'\<rparr>, sw_broker = k', sw_relay = True\<rparr> \<and>
    outbox d' = map (\<lambda>r. if ob_status r = ''pending'' then completed_row r else r) (outbox (sw_db w)) \<and>
    mset (lg k') = mset (lg (sw_broker w)) + mset (map outbox_msg (pending_rows (sw_db w)))"
  using drain [OF assms(1,2,3,5), of "sw_broker w"] assms(4) by (auto simp: relay_polls_def)

lemma record_completed:
  assumes "filter (\<lambda>x. ob_event_id x = i) rows = [r]" "ob_status r = ''pending''"
    and "rows' = map (\<lambda>r. if ob_status r = ''pending'' then completed_row r else r) rows"
  shows "filter (\<lambda>x. ob_event_id x = i) rows' = [completed_row r]"
proof -
  have "filter (\<lambda>x. ob_event_id x = i) rows' =
      map (\<lambda>r. if ob_status r = ''pending'' then completed_row r else r) (filter (\<lambda>x. ob_event_id x = i) rows)"
    unfolding assms(3) by (induction rows) simp_all
  then show ?thesis by (simp add: assms(1,2))
qed

lemma compose_stack:
  "compose_ok (stack_shell E draws send polls base hex) C verb ''outbox-relay'' w = (Inr (), w\<lparr>sw_relay := (verb \<noteq> ''stop'')\<rparr>)"
  by (simp add: compose_ok_def docker_compose_def p_docker_def stack_docker_def prog_defs)

lemma step_done: "m w = (Inr x, w') \<Longrightarrow> p_bind m f w = f x w'"
  by (simp add: p_bind_def)

lemma log_stack:
  "log_icon (stack_shell E draws send polls base hex) msg icon w = (Inr (), w)"
  "log_msg (stack_shell E draws send polls base hex) msg w = (Inr (), w)"
  "p_connect (stack_shell E draws send polls base hex) w = (Inr (), w)"
  "p_sleep (stack_shell E draws send polls base hex) t w = (Inr (), relay_polls send (polls t) w)"
  by (simp_all add: log_msg_def log_icon_def p_connect_def p_sleep_def prog_defs)

text \<open>
  C15: an outage of the outbox relay loses nothing.  The chaos suite stops the relay, sends five webhooks,
  sees their records pending, starts the relay and expects them completed five seconds later.  Against
  the models of gateway and relay, in any consistent database, the test passes whenever the gateway
  accepts the five webhooks, the broker takes every message and the polls of five seconds have room for
  what is pending; and then the broker's log holds the message of each of the five events.
\<close>

theorem relay_outage_survived:
  assumes "kafka_producer send lg" and "\<And>m k. fst (send m k) = Inr ()"
    and "item ''id'' (cx_endpoint ctx) = Inr (JStr endpoint_id)" and "db_ok (rw_db (sw_gateway w))"
    and "S = stack_shell E draws send polls (cv_base C) hex"
    and "p_each (send_accepted S C ctx ''chaos.outbox-kill'') [0..4] (w\<lparr>sw_relay := False\<rparr>) = (Inr ids, w1)"
    and "length (filter (\<lambda>r. ob_status r = ''pending'') (outbox (rw_db (sw_gateway w)))) + 5 \<le> 10 * polls 5"
  shows "\<exists>w'. test_kill_outbox_relay S C ctx w = (Inr (), w') \<and>
    (\<forall>v \<in> set ids. \<exists>r \<in> set (outbox (rw_db (sw_gateway w'))).
       v = JStr (uuid_str (ob_event_id r)) \<and> ob_status r = ''completed'' \<and> outbox_msg r \<in> set (lg (sw_broker w')))"
proof -
  let ?w0 = "w\<lparr>sw_relay := False\<rparr>"
  have ok0: "db_ok (sw_db ?w0)" using assms(4) by simp
  obtain rs where rs: "ids = map (\<lambda>r. JStr (uuid_str (ob_event_id r))) rs" "length rs = 5"
      "outbox (sw_db w1) = outbox (sw_db w) @ rs" "new_records (outbox (sw_db w)) rs" "db_ok (sw_db w1)" "same_stack ?w0 w1"
    using sent_records [OF assms(3) ok0 assms(6) [unfolded assms(5)]] by auto
  have pend: "ob_status r = ''pending''" if "r \<in> set rs" for r
    using rs(4) that by (auto simp: new_records_def list_all_iff)
  have one: "filter (\<lambda>x. ob_event_id x = ob_event_id r) (outbox (sw_db w1)) = [r]" if "r \<in> set rs" for r
    using only_record [OF rs(4) that] by (simp add: rs(3))
  have "pending_rows (sw_db w1) = pending_rows (sw_db w) @ rs"
    using pend by (simp add: pending_rows_def rs(3))
  then have room: "length (pending_rows (sw_db (w1\<lparr>sw_relay := True\<rparr>))) \<le> 10 * polls 5"
    using assms(7) rs(2) by (simp add: pending_rows_def)
  obtain d2 k2 where up: "relay_polls send (polls 5) (w1\<lparr>sw_relay := True\<rparr>) =
      \<lparr>sw_gateway = (sw_gateway w1)\<lparr>rw_db := d2\<rparr>, sw_broker = k2, sw_relay = True\<rparr>" (is "_ = ?w2")
    and d2: "outbox d2 = map (\<lambda>r. if ob_status r = ''pending'' then completed_row r else r) (outbox (sw_db w1))"
    and k2: "mset (lg k2) = mset (lg (sw_broker w1)) + mset (map outbox_msg (pending_rows (sw_db w1)))"
    using relay_polls_drained [OF assms(1,2) _ _ room] rs(5) by auto
  have run: "test_kill_outbox_relay S C ctx w = (Inr (), ?w2)"
  proof -
    have seen: "p_each (expect_pending S outbox_query record_missing) ids w1 = (Inr (map (\<lambda>x. ()) ids), w1)"
      using pending_seen [OF one] pend unfolding assms(5) by (intro each_done) (auto simp: rs(1))
    have later: "filter (\<lambda>x. ob_event_id x = ob_event_id r) (outbox (sw_db ?w2)) = [completed_row r]" if "r \<in> set rs" for r
      using record_completed [OF one [OF that] pend [OF that] d2] by simp
    have done2: "p_each (expect_completed S) ids ?w2 = (Inr (map (\<lambda>x. ()) ids), ?w2)"
      using completed_seen [OF later] unfolding assms(5) by (intro each_done) (auto simp: rs(1) completed_row_def)
    show ?thesis
      using assms(6) seen done2 unfolding test_kill_outbox_relay_def
      by (simp add: assms(5) step_done log_stack compose_stack up)
  qed
  have "\<exists>x \<in> set (outbox d2). uuid_str (ob_event_id r) = uuid_str (ob_event_id x) \<and> ob_status x = ''completed'' \<and> outbox_msg x \<in> set (lg k2)"
    if "r \<in> set rs" for r
  proof (rule bexI [of _ "completed_row r"])
    have r: "r \<in> set (outbox (sw_db w1))" "r \<in> set (pending_rows (sw_db w1))"
      using that pend by (simp_all add: rs(3) pending_rows_def)
    have "outbox_msg r \<in># mset (lg k2)" unfolding k2 using r(2) by simp
    then show "uuid_str (ob_event_id r) = uuid_str (ob_event_id (completed_row r)) \<and> ob_status (completed_row r) = ''completed'' \<and>
        outbox_msg (completed_row r) \<in> set (lg k2)"
      by (simp add: completed_row_def [of r, THEN arg_cong [where f = ob_status]])
    show "completed_row r \<in> set (outbox d2)" using r(1) pend [OF that] by (force simp: d2)
  qed
  then show ?thesis using run by (intro exI [of _ ?w2]) (auto simp: rs(1))
qed

section \<open>An outage\<close>

definition ex_draws :: "nat \<Rightarrow> draw" where
  "ex_draws n = \<lparr>dr_now = 0, dr_member = ''m'', dr_event_id = of_nat n, dr_outbox_id = of_nat n, dr_fault = None\<rparr>"

definition ex_stack :: "(ref_state, broker) stack_world shell" where
  "ex_stack = stack_shell ex_gateway ex_draws sure_send (\<lambda>t. nat \<lfloor>t\<rfloor>) (cv_base ex_chaos) []"

definition ex_stack_world :: "(ref_state, broker) stack_world" where
  "ex_stack_world = \<lparr>sw_gateway = ex_relay_world, sw_broker = empty_broker, sw_relay = True\<rparr>"

text \<open>Numbers below \<open>n\<close> are taken.\<close>

definition ex_below :: "nat \<Rightarrow> db \<Rightarrow> bool" where
  "ex_below n d \<longleftrightarrow> db_ok d \<and> endpoints d = endpoints ex_e2e_db \<and>
     (\<forall>ev \<in> set (events d). unat (ev_id ev) < n) \<and> (\<forall>ob \<in> set (outbox d). unat (ob_id ob) < n)"

lemma ex_store_next:
  assumes "ex_below n d" "n < 1000" "ep \<in> set (endpoints d)"
  shows "\<exists>d'. store_event default_settings (ex_draws n) ep None v hs d = Inr d' \<and> ex_below (n + 1) d'"
proof -
  let ?ev = "new_event (ex_draws n) ep None v hs" and ?ob = "new_outbox default_settings (ex_draws n) ep"
  let ?d = "d\<lparr>events := events d @ [?ev], outbox := outbox d @ [?ob]\<rparr>"
  have n: "unat (of_nat n :: uuid) = n" using assms(2) by (simp add: unat_of_nat take_bit_nat_eq_self)
  have fresh: "(of_nat n :: uuid) \<notin> ev_id ` set (events d)" "(of_nat n :: uuid) \<notin> ob_id ` set (outbox d)"
    using assms(1) n by (auto simp: ex_below_def)
  have "db_ok ?d"
    using assms(1,3) fresh
    by (intro db_ok_store) (simp_all add: ex_below_def new_event_def new_outbox_def ex_draws_def fits_event_def fits_outbox_def
        short_def opt_ok_def int4_def default_settings_def length_uuid_str)
  moreover from this have "ex_below (n + 1) ?d"
    using assms(1) n by (auto simp: ex_below_def new_event_def new_outbox_def ex_draws_def less_Suc_eq)
  ultimately show ?thesis by (intro exI [of _ ?d]) (simp add: store_event_def commit_ok ex_draws_def)
qed

lemma ex_send:
  assumes "ex_below (rw_seen (sw_gateway w)) (sw_db w)" "rw_seen (sw_gateway w) < 1000"
    and "length (chaos_payload ev (Some x)) \<le> 1000"
  shows "\<exists>v w'. send_accepted ex_stack ex_chaos ex_ctx ev x w = (Inr v, w') \<and>
    rw_seen (sw_gateway w') = rw_seen (sw_gateway w) + 1 \<and> ex_below (rw_seen (sw_gateway w')) (sw_db w')"
proof -
  let ?p = "chaos_payload ev (Some x)" and ?ep = "ex_endpoint\<lparr>ep_hmac_secret := ex_secret\<rparr>" and ?n = "rw_seen (sw_gateway w)"
  let ?rq = "ex_arrived (chaos_hook ex_chaos (JStr (uuid_str 2)) (cx_secret ex_ctx) ?p []) ?p"
  have eps: "endpoints (sw_db w) = [?ep]" using assms(1) by (simp add: ex_below_def ex_e2e_db_def)
  have hdr: "header_get ''x-hub-signature-256'' (wr_headers ?rq) = Some (sign_payload ex_secret ?p)"
      "header_get ''x-idempotency-key'' (wr_headers ?rq) = None" "wr_chunks ?rq = [?p]"
    by (simp_all add: ex_arrived_def chaos_hook_def post_call_def header_get_def chaos_names ex_ctx_def)
  have adm: "admit ex_gateway (ex_draws ?n) (uuid_str 2) ?rq redis (sw_db w) = (Inr (?ep, JObj []), redis)" for redis
    by (rule takes_admit [OF uuid_parse_str _ _ _ _ hdr(3,1)])
      (use assms(3) in \<open>simp_all add: eps by_key_def takes_def ex_endpoint_def ex_gateway_def default_settings_def\<close>)
  obtain d' where st: "store_event default_settings (ex_draws ?n) ?ep None (JObj []) (wr_headers ?rq) (sw_db w) = Inr d'"
    and d': "ex_below (?n + 1) d'"
    using ex_store_next [OF assms(1,2)] eps by force
  have run: "receive_webhook ex_gateway (ex_draws ?n) (uuid_str 2) ?rq (rw_redis (sw_gateway w)) (sw_db w) =
      (Inr (Accepted (dr_event_id (ex_draws ?n))), rw_redis (sw_gateway w), d')"
    using st by (simp add: receive_webhook_def adm check_duplicate_def hdr(2)) (simp add: ex_gateway_def)
  have id: "item ''id'' (cx_endpoint ex_ctx) = Inr (JStr (uuid_str 2))" by (simp add: ex_ctx_def item_def)
  show ?thesis
    using d' by (simp add: send_accepted_def ex_stack_def step_done send_hook_stack [OF id] served_def run p_bind_def p_assert_def
        p_json_def p_item_def p_lift_def p_return_def answers_json) (simp add: gateway_reply_def hook_answer_def item_def p_return_def)
qed

lemma ex_sends:
  "ex_below (rw_seen (sw_gateway w)) (sw_db w) \<Longrightarrow> rw_seen (sw_gateway w) + length xs < 1000 \<Longrightarrow>
   \<forall>x \<in> set xs. length (chaos_payload ev (Some x)) \<le> 1000 \<Longrightarrow>
   \<exists>vs w'. p_each (send_accepted ex_stack ex_chaos ex_ctx ev) xs w = (Inr vs, w')"
proof (induction xs arbitrary: w)
  case Nil
  then show ?case by (simp add: p_return_def)
next
  case (Cons x xs)
  obtain v w1 where one: "send_accepted ex_stack ex_chaos ex_ctx ev x w = (Inr v, w1)"
      "rw_seen (sw_gateway w1) = rw_seen (sw_gateway w) + 1" "ex_below (rw_seen (sw_gateway w1)) (sw_db w1)"
    using ex_send [OF Cons.prems(1)] Cons.prems(2,3) by force
  obtain vs w' where "p_each (send_accepted ex_stack ex_chaos ex_ctx ev) xs w1 = (Inr vs, w')"
    using Cons.IH [OF one(3)] one(2) Cons.prems(2,3) by auto
  then show ?case by (simp add: step_done one(1) p_return_def)
qed

theorem relay_outage_survived_witness: "fst (test_kill_outbox_relay ex_stack ex_chaos ex_ctx ex_stack_world) = Inr ()"
proof -
  let ?w = "ex_stack_world\<lparr>sw_relay := False\<rparr>"
  have tables: "events ex_e2e_db = []" "outbox ex_e2e_db = []" by (simp_all add: ex_e2e_db_def ex_hook_db_def empty_db_def)
  have db: "sw_db ex_stack_world = ex_e2e_db" "rw_seen (sw_gateway ex_stack_world) = 0" by (simp_all add: ex_stack_world_def ex_relay_world_def)
  have ok: "db_ok ex_e2e_db"
    by (simp add: db_ok_def fits_def integrity_def ex_hook_db_def ex_e2e_db_def empty_db_def keyed_def refers_def
        fits_workspace_def fits_endpoint_def short_def opt_ok_def int4_def ex_endpoint_def ex_secret_def)
  have "list_all (\<lambda>x. length (chaos_payload ''chaos.outbox-kill'' (Some x)) \<le> 1000) [0..4]" by code_simp
  then have len: "\<forall>x \<in> set [0..4]. length (chaos_payload ''chaos.outbox-kill'' (Some x)) \<le> 1000" by (simp add: list_all_iff)
  have "ex_below (rw_seen (sw_gateway ?w)) (sw_db ?w)" by (simp add: ex_below_def db ok tables)
  from ex_sends [OF this _ len] obtain ids w1 where
    "p_each (send_accepted ex_stack ex_chaos ex_ctx ''chaos.outbox-kill'') [0..4] ?w = (Inr ids, w1)"
    by (auto simp: db)
  from relay_outage_survived [OF sure.kafka_producer_axioms ex_sure _ _ ex_stack_def this, of "uuid_str 2"]
  show ?thesis by (auto simp: db ok tables ex_ctx_def item_def)
qed

end
